(* ===== verification/Run_State.thy ===== *)
theory Run_State
  imports Prelude
begin

text \<open>
  \<open>src/src/runstate.rs\<close>: the run lifecycle.  \<open>RunStatus\<close>, its text form, the
  classification into terminal, active and retryable statuses,
  \<open>validate_transition\<close>, and the mapping from Hermes statuses; with
  \<open>is_terminal_status\<close> of \<open>src/src/hermes.rs\<close>.
\<close>

section \<open>Statuses\<close>

datatype RunStatus =
    Created | Starting | Running | WaitingForApproval | Recovering
  | Completed | Failed | Cancelled | Interrupted | Lost

fun run_status_as_str :: "RunStatus \<Rightarrow> string" where
  "run_status_as_str Created = ''created''"
| "run_status_as_str Starting = ''starting''"
| "run_status_as_str Running = ''running''"
| "run_status_as_str WaitingForApproval = ''waiting_for_approval''"
| "run_status_as_str Recovering = ''recovering''"
| "run_status_as_str Completed = ''completed''"
| "run_status_as_str Failed = ''failed''"
| "run_status_as_str Cancelled = ''cancelled''"
| "run_status_as_str Interrupted = ''interrupted''"
| "run_status_as_str Lost = ''lost''"

datatype status_error = UnknownRunStatus string

definition run_status_parse :: "string \<Rightarrow> (status_error, RunStatus) result" where
  "run_status_parse value =
     (if value = ''created'' then Inr Created
      else if value = ''starting'' then Inr Starting
      else if value = ''running'' then Inr Running
      else if value = ''waiting_for_approval'' then Inr WaitingForApproval
      else if value = ''recovering'' then Inr Recovering
      else if value = ''completed'' then Inr Completed
      else if value = ''failed'' then Inr Failed
      else if value = ''cancelled'' then Inr Cancelled
      else if value = ''interrupted'' then Inr Interrupted
      else if value = ''lost'' then Inr Lost
      else Inl (UnknownRunStatus value))"

fun is_terminal :: "RunStatus \<Rightarrow> bool" where
  "is_terminal Completed = True"
| "is_terminal Failed = True"
| "is_terminal Cancelled = True"
| "is_terminal Interrupted = True"
| "is_terminal Lost = True"
| "is_terminal _ = False"

definition is_active :: "RunStatus \<Rightarrow> bool" where
  "is_active s = (\<not> is_terminal s)"

fun is_retryable :: "RunStatus \<Rightarrow> bool" where
  "is_retryable Interrupted = True"
| "is_retryable Lost = True"
| "is_retryable _ = False"

section \<open>Transitions\<close>

record InvalidTransition =
  it_from :: RunStatus
  it_to :: RunStatus

definition validate_transition :: "RunStatus \<Rightarrow> RunStatus \<Rightarrow> (InvalidTransition, unit) result" where
  "validate_transition from_s to_s =
     (if from_s = to_s then Inr ()
      else if is_terminal from_s then Inl \<lparr>it_from = from_s, it_to = to_s\<rparr>
      else
        let terminal = (\<lambda>t. t \<in> {Completed, Failed, Cancelled, Interrupted, Lost});
            allowed = (case from_s of
                Created \<Rightarrow> to_s \<in> {Starting, Failed, Cancelled, Lost}
              | Starting \<Rightarrow> to_s \<in> {Running, Recovering} \<or> terminal to_s
              | Running \<Rightarrow> to_s \<in> {WaitingForApproval, Recovering} \<or> terminal to_s
              | WaitingForApproval \<Rightarrow> to_s \<in> {Running, Recovering} \<or> terminal to_s
              | Recovering \<Rightarrow> to_s \<in> {Running, WaitingForApproval} \<or> terminal to_s
              | _ \<Rightarrow> False)
        in if allowed then Inr () else Inl \<lparr>it_from = from_s, it_to = to_s\<rparr>)"

definition from_hermes_status :: "string \<Rightarrow> RunStatus" where
  "from_hermes_status s =
     (if s = ''completed'' then Completed
      else if s = ''failed'' then Failed
      else if s = ''cancelled'' then Cancelled
      else if s = ''waiting_for_approval'' then WaitingForApproval
      else Running)"

text \<open>\<open>hermes.rs\<close>: which statuses Hermes itself calls final.\<close>

definition is_terminal_status :: "string \<Rightarrow> bool" where
  "is_terminal_status s = (s \<in> {''completed'', ''failed'', ''cancelled''})"

abbreviation can_go :: "RunStatus \<Rightarrow> RunStatus \<Rightarrow> bool" where
  "can_go s t \<equiv> is_ok (validate_transition s t)"

section \<open>The text form\<close>

interpretation run_status: string_enum run_status_as_str run_status_parse
proof
  fix x show "run_status_parse (run_status_as_str x) = Inr x"
    by (cases x) (simp_all add: run_status_parse_def)
next
  fix s x show "run_status_parse s = Inr x \<Longrightarrow> run_status_as_str x = s"
    by (auto simp: run_status_parse_def split: if_splits)
qed

section \<open>Lifecycles\<close>

text \<open>
  What the registry, the runner and the service rely on: staying put is always
  allowed, a terminal status is final, and every other status can be settled.
\<close>

locale lifecycle =
  fixes allowed :: "'s \<Rightarrow> 's \<Rightarrow> bool"
    and terminal :: "'s \<Rightarrow> bool"
  assumes allowed_refl: "allowed s s"
    and terminal_final: "terminal s \<Longrightarrow> allowed s t \<Longrightarrow> t = s"
    and can_settle: "\<not> terminal s \<Longrightarrow> \<exists>t. terminal t \<and> allowed s t"
begin

lemma terminal_forever: "allowed\<^sup>*\<^sup>* s t \<Longrightarrow> terminal s \<Longrightarrow> t = s"
proof (induction rule: rtranclp_induct)
  case (step y z)
  then have "y = s" by simp
  with step show ?case using terminal_final by blast
qed simp

lemma history_settles_once:
  assumes "successively allowed (xs @ x # ys)" and "terminal x" and "y \<in> set ys"
  shows "y = x"
  using assms
proof (induction xs)
  case Nil
  then show ?case
  proof (induction ys arbitrary: x)
    case (Cons z zs)
    then have "z = x" using terminal_final by (auto simp: successively_Cons)
    with Cons show ?case by (auto simp: successively_Cons)
  qed simp
next
  case (Cons a xs)
  then show ?case by (auto simp: successively_Cons)
qed

lemma settles_from_anywhere: "\<exists>t. terminal t \<and> allowed s t"
  using can_settle allowed_refl by blast

end

lemma validate_transition_refl [simp]: "validate_transition s s = Inr ()"
  by (simp add: validate_transition_def)

lemma validate_transition_terminal:
  "is_terminal s \<Longrightarrow> validate_transition s t = (if t = s then Inr () else Inl \<lparr>it_from = s, it_to = t\<rparr>)"
  by (auto simp: validate_transition_def)

lemma validate_transition_error: "validate_transition s t = Inl e \<Longrightarrow> e = \<lparr>it_from = s, it_to = t\<rparr>"
  by (auto simp: validate_transition_def Let_def split: if_splits)

lemma can_go_to_failed: "s = Created \<or> \<not> is_terminal s \<Longrightarrow> can_go s Failed"
  by (cases s) (auto simp: validate_transition_def)

interpretation run_life: lifecycle can_go is_terminal
proof
  fix s show "can_go s s" by simp
next
  fix s t show "is_terminal s \<Longrightarrow> can_go s t \<Longrightarrow> t = s"
    by (auto simp: validate_transition_terminal split: if_splits)
next
  fix s assume "\<not> is_terminal s"
  then have "can_go s Failed" by (simp add: can_go_to_failed)
  then show "\<exists>t. is_terminal t \<and> can_go s t" by (intro exI [of _ Failed]) simp
qed

text \<open>The full table, one row per status that can be left.\<close>

lemma can_go_Created: "can_go Created t \<longleftrightarrow> t \<in> {Created, Starting, Failed, Cancelled, Lost}"
  by (cases t) (simp_all add: validate_transition_def)

lemma can_go_Starting:
  "can_go Starting t \<longleftrightarrow> t \<in> {Starting, Running, Recovering} \<or> is_terminal t"
  by (cases t) (simp_all add: validate_transition_def)

lemma can_go_live:
  "s \<in> {Running, WaitingForApproval, Recovering} \<Longrightarrow>
     can_go s t \<longleftrightarrow> t \<in> {Running, WaitingForApproval, Recovering} \<or> is_terminal t"
  by (cases t) (auto simp: validate_transition_def)

lemma can_go_submitted:
  assumes "s \<notin> {Created, Starting}" and "can_go s t"
  shows "t \<notin> {Created, Starting}"
proof (cases "is_terminal s")
  case True
  with assms show ?thesis using run_life.terminal_final by blast
next
  case False
  with assms(1) have "s \<in> {Running, WaitingForApproval, Recovering}" by (cases s) auto
  with assms(2) show ?thesis by (auto simp: can_go_live)
qed

lemmas can_go_table = can_go_Created can_go_Starting can_go_live

lemma from_hermes_not_unsubmitted: "from_hermes_status s \<notin> {Created, Starting}"
  by (simp add: from_hermes_status_def)

lemma from_hermes_terminal_iff: "is_terminal (from_hermes_status s) \<longleftrightarrow> is_terminal_status s"
  by (auto simp: from_hermes_status_def is_terminal_status_def)

section \<open>Properties\<close>

text \<open>
  C1.  Along any sequence of accepted status changes, once a status is terminal
  every later status is that same one: a settled run is never re-statused.
\<close>

theorem terminal_status_is_final:
  assumes "successively can_go (before @ s # later)" and "is_terminal s" and "t \<in> set later"
  shows "t = s"
  using assms by (rule run_life.history_settles_once)

theorem terminal_status_is_final_witness:
  "successively can_go ([Created, Starting] @ Failed # [Failed]) \<and> Failed = Failed"
proof -
  have h: "successively can_go ([Created, Starting] @ Failed # [Failed])"
    by (simp add: validate_transition_def)
  have "Failed = Failed"
    by (rule terminal_status_is_final [OF h]) simp_all
  with h show ?thesis by simp
qed

text \<open>
  A run that has left submission (it is neither created nor starting) never
  comes back to it: no sequence of accepted changes leads from a submitted run
  to one that could be submitted again.
\<close>

theorem submitted_never_unsubmitted:
  assumes "can_go\<^sup>*\<^sup>* s t" and "s \<notin> {Created, Starting}"
  shows "t \<notin> {Created, Starting}"
  using assms
proof (induction rule: rtranclp_induct)
  case (step y z)
  then show ?case using can_go_submitted by blast
qed

theorem submitted_never_unsubmitted_witness:
  "can_go\<^sup>*\<^sup>* Running Recovering \<and> Recovering \<notin> {Created, Starting}"
proof -
  have h: "can_go\<^sup>*\<^sup>* Running Recovering"
    by (rule r_into_rtranclp) (simp add: validate_transition_def)
  have "Recovering \<notin> {Created, Starting}"
    by (rule submitted_never_unsubmitted [OF h]) simp
  with h show ?thesis by blast
qed

text \<open>
  A Hermes status becomes a terminal run status exactly for the three words
  Hermes uses for a finished run, and what is adopted is never a pre-submission
  status: an unknown word never fabricates an outcome.
\<close>

theorem hermes_status_never_fabricated:
  "(is_terminal (from_hermes_status s) \<longleftrightarrow> s \<in> {''completed'', ''failed'', ''cancelled''}) \<and>
   from_hermes_status s \<notin> {Created, Starting, Recovering, Interrupted, Lost}"
  by (auto simp: from_hermes_status_def)

end
