(* ===== verification/Rust_Str.thy ===== *)
theory Rust_Str
  imports Prelude
begin

text \<open>
  The string operations of the Rust standard library that the sources call, on
  UTF-8 byte lists: \<open>strip_prefix\<close>, \<open>starts_with\<close>, \<open>contains\<close>, \<open>split_once\<close>,
  \<open>trim\<close> (Unicode white space, by its UTF-8 encodings), \<open>lines\<close>,
  \<open>is_char_boundary\<close>, ASCII classification and decimal printing.
\<close>

section \<open>Prefixes, suffixes and substrings\<close>

fun strip_prefix :: "string \<Rightarrow> string \<Rightarrow> string option" where
  "strip_prefix [] s = Some s"
| "strip_prefix (c # p) [] = None"
| "strip_prefix (c # p) (d # s) = (if c = d then strip_prefix p s else None)"

lemma strip_prefix_Some [str_simps]: "strip_prefix p s = Some r \<longleftrightarrow> s = p @ r"
  by (induction p s rule: strip_prefix.induct) auto

lemma strip_prefix_append [simp]: "strip_prefix p (p @ r) = Some r"
  by (simp add: strip_prefix_Some)

definition starts_with :: "string \<Rightarrow> string \<Rightarrow> bool" where
  "starts_with p s = (strip_prefix p s \<noteq> None)"

lemma starts_with_iff [str_simps]: "starts_with p s \<longleftrightarrow> (\<exists>r. s = p @ r)"
  by (auto simp: starts_with_def str_simps)

lemma starts_with_Nil [simp]: "starts_with [] s"
  by (simp add: starts_with_def)

lemma starts_with_Cons [simp]:
  "starts_with (c # p) [] = False"
  "starts_with (c # p) (d # s) = (c = d \<and> starts_with p s)"
  by (auto simp: starts_with_def)

definition ends_with :: "string \<Rightarrow> string \<Rightarrow> bool" where
  "ends_with p s = starts_with (rev p) (rev s)"

lemma ends_with_iff [str_simps]: "ends_with p s \<longleftrightarrow> (\<exists>r. s = r @ p)"
proof
  assume "ends_with p s"
  then obtain r where "rev s = rev p @ r" by (auto simp: ends_with_def str_simps)
  then have "s = rev r @ p" by (metis rev_append rev_rev_ident)
  then show "\<exists>r. s = r @ p" by blast
qed (auto simp: ends_with_def str_simps)

fun str_contains :: "string \<Rightarrow> string \<Rightarrow> bool" where
  "str_contains p [] = (p = [])"
| "str_contains p (c # s) = (starts_with p (c # s) \<or> str_contains p s)"

lemma str_contains_iff [str_simps]: "str_contains p s \<longleftrightarrow> (\<exists>a b. s = a @ p @ b)"
proof (induction s)
  case (Cons c s)
  have "(\<exists>a b. c # s = a @ p @ b) \<longleftrightarrow> (\<exists>b. c # s = p @ b) \<or> (\<exists>a b. s = a @ p @ b)"
    by (metis append_Cons append_Nil list.exhaust list.inject)
  with Cons show ?case by (simp add: starts_with_iff)
qed auto

fun split_once :: "string \<Rightarrow> string \<Rightarrow> (string \<times> string) option" where
  "split_once p [] = (if p = [] then Some ([], []) else None)"
| "split_once p (c # s) =
     (case strip_prefix p (c # s) of
        Some r \<Rightarrow> Some ([], r)
      | None \<Rightarrow> map_option (\<lambda>(a, b). (c # a, b)) (split_once p s))"

lemma split_once_Some: "split_once p s = Some (a, b) \<Longrightarrow> s = a @ p @ b"
  by (induction p s arbitrary: a rule: split_once.induct)
    (auto simp: str_simps split: option.splits if_splits)

text \<open>\<open>s.find(c)\<close> followed by slicing around the found byte.\<close>

fun split_byte :: "char \<Rightarrow> string \<Rightarrow> (string \<times> string) option" where
  "split_byte c [] = None"
| "split_byte c (d # s) =
     (if d = c then Some ([], s) else map_option (\<lambda>(a, b). (d # a, b)) (split_byte c s))"

lemma split_byte_None [simp]: "split_byte c s = None \<longleftrightarrow> c \<notin> set s"
  by (induction s) auto

lemma split_byte_Some: "split_byte c s = Some (a, b) \<longleftrightarrow> s = a @ c # b \<and> c \<notin> set a"
proof (induction s arbitrary: a)
  case (Cons d s)
  show ?case
  proof (cases a)
    case (Cons e a')
    show ?thesis by (cases "d = c") (auto simp: Cons Cons.IH)
  qed auto
qed auto

lemma split_byte_length: "split_byte c s = Some (a, b) \<Longrightarrow> length b < length s"
  by (auto simp: split_byte_Some)

lemma split_byte_append: "split_byte c s = Some (a, b) \<Longrightarrow> split_byte c (s @ t) = Some (a, b @ t)"
  by (auto simp: split_byte_Some)

section \<open>White space\<close>

text \<open>
  \<open>char::is_whitespace\<close>: U+0009 to U+000D, U+0020, U+0085, U+00A0, U+1680,
  U+2000 to U+200A, U+2028, U+2029, U+202F, U+205F and U+3000, in UTF-8.
\<close>

definition unicode_ws :: "string list" where
  "unicode_ws =
     [[CHR 0x20], [CHR 0x09], [CHR 0x0A], [CHR 0x0B], [CHR 0x0C], [CHR 0x0D],
      [CHR 0xC2, CHR 0x85], [CHR 0xC2, CHR 0xA0], [CHR 0xE1, CHR 0x9A, CHR 0x80],
      [CHR 0xE2, CHR 0x80, CHR 0x80], [CHR 0xE2, CHR 0x80, CHR 0x81],
      [CHR 0xE2, CHR 0x80, CHR 0x82], [CHR 0xE2, CHR 0x80, CHR 0x83],
      [CHR 0xE2, CHR 0x80, CHR 0x84], [CHR 0xE2, CHR 0x80, CHR 0x85],
      [CHR 0xE2, CHR 0x80, CHR 0x86], [CHR 0xE2, CHR 0x80, CHR 0x87],
      [CHR 0xE2, CHR 0x80, CHR 0x88], [CHR 0xE2, CHR 0x80, CHR 0x89],
      [CHR 0xE2, CHR 0x80, CHR 0x8A], [CHR 0xE2, CHR 0x80, CHR 0xA8],
      [CHR 0xE2, CHR 0x80, CHR 0xA9], [CHR 0xE2, CHR 0x80, CHR 0xAF],
      [CHR 0xE2, CHR 0x81, CHR 0x9F], [CHR 0xE3, CHR 0x80, CHR 0x80]]"

fun strip_any :: "string list \<Rightarrow> string \<Rightarrow> string option" where
  "strip_any [] s = None"
| "strip_any (p # ps) s = (case strip_prefix p s of Some r \<Rightarrow> Some r | None \<Rightarrow> strip_any ps s)"

lemma strip_any_Some:
  "strip_any ps s = Some r \<Longrightarrow> \<exists>p \<in> set ps. s = p @ r"
  by (induction ps) (auto simp: str_simps split: option.splits)

lemma strip_any_None:
  "strip_any ps s = None \<longleftrightarrow> (\<forall>p \<in> set ps. \<not> starts_with p s)"
  by (induction ps) (auto simp: starts_with_def split: option.splits)

lemma unicode_ws_nonempty: "[] \<notin> set unicode_ws"
  by (simp add: unicode_ws_def)

function trim_with :: "string list \<Rightarrow> string \<Rightarrow> string" where
  "trim_with ps s =
     (case strip_any ps s of
        Some r \<Rightarrow> if length r < length s then trim_with ps r else s
      | None \<Rightarrow> s)"
  by pat_completeness auto
termination
  by (relation "measure (\<lambda>(ps, s). length s)") auto

declare trim_with.simps [simp del]

definition trim_start :: "string \<Rightarrow> string" where
  "trim_start s = trim_with unicode_ws s"

definition trim_end :: "string \<Rightarrow> string" where
  "trim_end s = rev (trim_with (map rev unicode_ws) (rev s))"

definition trim :: "string \<Rightarrow> string" where
  "trim s = trim_end (trim_start s)"

definition ends_ws :: "string \<Rightarrow> bool" where
  "ends_ws s = (\<exists>p \<in> set unicode_ws. ends_with p s)"

definition starts_ws :: "string \<Rightarrow> bool" where
  "starts_ws s = (\<exists>p \<in> set unicode_ws. starts_with p s)"

lemma trim_with_suffix: "\<exists>a. s = a @ trim_with ps s"
proof (induction ps s rule: trim_with.induct)
  case (1 ps s)
  show ?case
  proof (cases "strip_any ps s")
    case None
    then show ?thesis by (subst trim_with.simps) simp
  next
    case (Some r)
    show ?thesis
    proof (cases "length r < length s")
      case True
      from strip_any_Some [OF Some] obtain p where p: "s = p @ r" by blast
      from "1.IH" [OF Some True] obtain a where "r = a @ trim_with ps r" by blast
      with p have "s = (p @ a) @ trim_with ps r" by simp
      moreover have "trim_with ps s = trim_with ps r"
        by (simp add: trim_with.simps [of ps s] Some True)
      ultimately show ?thesis by metis
    next
      case False
      with Some show ?thesis by (subst trim_with.simps) simp
    qed
  qed
qed

lemma trim_with_clean:
  assumes "[] \<notin> set ps"
  shows "strip_any ps (trim_with ps s) = None"
  using assms
proof (induction ps s rule: trim_with.induct)
  case (1 ps s)
  show ?case
  proof (cases "strip_any ps s")
    case None
    then show ?thesis by (simp add: trim_with.simps)
  next
    case (Some r)
    from strip_any_Some [OF Some] obtain p where p: "p \<in> set ps" "s = p @ r" by blast
    with "1.prems" have "p \<noteq> []" by metis
    with p have lt: "length r < length s" by simp
    from "1.IH" [OF Some lt "1.prems"] show ?thesis
      by (simp add: trim_with.simps [of ps s] Some lt)
  qed
qed

lemma trim_with_id: "strip_any ps s = None \<Longrightarrow> trim_with ps s = s"
  by (simp add: trim_with.simps)

lemma trim_start_suffix: "\<exists>a. s = a @ trim_start s"
  unfolding trim_start_def by (rule trim_with_suffix)

lemma trim_end_prefix: "\<exists>b. s = trim_end s @ b"
proof -
  obtain a where "rev s = a @ trim_with (map rev unicode_ws) (rev s)"
    using trim_with_suffix by blast
  then have "s = trim_end s @ rev a"
    unfolding trim_end_def by (metis rev_append rev_rev_ident)
  then show ?thesis by blast
qed

lemma trim_infix: "\<exists>a b. s = a @ trim s @ b"
proof -
  obtain a where a: "s = a @ trim_start s" using trim_start_suffix by blast
  obtain b where b: "trim_start s = trim s @ b"
    unfolding trim_def using trim_end_prefix by blast
  from a b have "s = a @ trim s @ b" by metis
  then show ?thesis by blast
qed

lemma length_trim_le: "length (trim s) \<le> length s"
proof -
  obtain a b where "s = a @ trim s @ b" using trim_infix by blast
  then have "length s = length a + length (trim s) + length b"
    by (metis add.assoc length_append)
  then show ?thesis by linarith
qed

lemma trim_end_clean: "\<not> ends_ws (trim_end s)"
proof -
  have "[] \<notin> set (map rev unicode_ws)" using unicode_ws_nonempty by auto
  then have "strip_any (map rev unicode_ws) (rev (trim_end s)) = None"
    unfolding trim_end_def by (simp add: trim_with_clean)
  then show ?thesis by (auto simp: strip_any_None ends_ws_def ends_with_def)
qed

lemma trim_start_id: "\<not> starts_ws s \<Longrightarrow> trim_start s = s"
  unfolding trim_start_def by (rule trim_with_id) (auto simp: strip_any_None starts_ws_def)

lemma trim_end_id: "\<not> ends_ws s \<Longrightarrow> trim_end s = s"
proof -
  assume "\<not> ends_ws s"
  then have "strip_any (map rev unicode_ws) (rev s) = None"
    by (auto simp: strip_any_None ends_ws_def ends_with_def)
  then show ?thesis unfolding trim_end_def by (simp add: trim_with_id)
qed

lemma trim_id: "\<not> starts_ws s \<Longrightarrow> \<not> ends_ws s \<Longrightarrow> trim s = s"
  by (simp add: trim_def trim_start_id trim_end_id)

lemma starts_ws_append: "starts_ws s \<Longrightarrow> starts_ws (s @ t)"
  by (fastforce simp: starts_ws_def str_simps)

lemma trim_start_clean: "\<not> starts_ws (trim_start s)"
  unfolding trim_start_def starts_ws_def
  using trim_with_clean [OF unicode_ws_nonempty] by (auto simp: strip_any_None)

lemma trim_starts_clean: "\<not> starts_ws (trim s)"
proof
  assume ws: "starts_ws (trim s)"
  obtain b where b: "trim_start s = trim s @ b"
    unfolding trim_def using trim_end_prefix by blast
  from ws b have "starts_ws (trim_start s)" by (metis starts_ws_append)
  then show False by (simp add: trim_start_clean)
qed

lemma trim_idem [simp]: "trim (trim s) = trim s"
proof -
  have "\<not> ends_ws (trim s)" unfolding trim_def by (rule trim_end_clean)
  then show ?thesis by (simp add: trim_id trim_starts_clean)
qed

lemma trim_Nil [simp]: "trim [] = []"
  by (rule trim_id) (simp_all add: starts_ws_def ends_ws_def unicode_ws_def ends_with_def)

section \<open>Lines\<close>

text \<open>\<open>str::lines\<close>: split at line feeds, a final empty piece dropped, one
  carriage return before the line feed removed.\<close>

definition strip_cr :: "string \<Rightarrow> string" where
  "strip_cr l = (if l \<noteq> [] \<and> last l = CHR 0x0D then butlast l else l)"

function str_lines :: "string \<Rightarrow> string list" where
  "str_lines s =
     (case split_byte (CHR 0x0A) s of
        Some (l, r) \<Rightarrow> strip_cr l # str_lines r
      | None \<Rightarrow> if s = [] then [] else [s])"
  by pat_completeness auto
termination
  by (relation "measure length") (auto dest: split_byte_length)

declare str_lines.simps [simp del]

fun join_with :: "string \<Rightarrow> string list \<Rightarrow> string" where
  "join_with sep [] = []"
| "join_with sep [x] = x"
| "join_with sep (x # y # ys) = x @ sep @ join_with sep (y # ys)"

lemma str_lines_Nil [simp]: "str_lines [] = []"
  by (simp add: str_lines.simps)

lemma str_lines_line:
  "CHR 0x0A \<notin> set l \<Longrightarrow> str_lines (l @ CHR 0x0A # r) = strip_cr l # str_lines r"
proof -
  assume "CHR 0x0A \<notin> set l"
  then have "split_byte (CHR 0x0A) (l @ CHR 0x0A # r) = Some (l, r)"
    by (simp add: split_byte_Some)
  then show ?thesis by (simp add: str_lines.simps [of "l @ CHR 0x0A # r"])
qed

lemma strip_cr_id: "CHR 0x0D \<notin> set l \<Longrightarrow> strip_cr l = l"
  unfolding strip_cr_def by (metis last_in_set)

text \<open>Joining lines that hold no line terminators and splitting them again gives them back.\<close>

lemma str_lines_join:
  assumes "\<forall>l \<in> set ls. CHR 0x0A \<notin> set l \<and> CHR 0x0D \<notin> set l" and "ls \<noteq> []"
  shows "str_lines (join_with [CHR 0x0A] ls @ [CHR 0x0A]) = ls"
  using assms
proof (induction "[CHR 0x0A]" ls rule: join_with.induct)
  case (2 x)
  then show ?case using str_lines_line [of x "[]"] by (simp add: strip_cr_id)
next
  case (3 x y ys)
  then show ?case
    using str_lines_line [of x "join_with [CHR 0x0A] (y # ys) @ [CHR 0x0A]"]
    by (simp add: strip_cr_id)
qed simp

section \<open>Characters\<close>

definition is_char_boundary :: "string \<Rightarrow> nat \<Rightarrow> bool" where
  "is_char_boundary s i =
     (i = 0 \<or> i = length s \<or>
      (i < length s \<and> \<not> (128 \<le> (of_char (s ! i) :: nat) \<and> (of_char (s ! i) :: nat) < 192)))"

definition is_ascii_digit :: "char \<Rightarrow> bool" where
  "is_ascii_digit c = (48 \<le> (of_char c :: nat) \<and> (of_char c :: nat) \<le> 57)"

definition is_ascii_lower :: "char \<Rightarrow> bool" where
  "is_ascii_lower c = (97 \<le> (of_char c :: nat) \<and> (of_char c :: nat) \<le> 122)"

definition is_ascii_upper :: "char \<Rightarrow> bool" where
  "is_ascii_upper c = (65 \<le> (of_char c :: nat) \<and> (of_char c :: nat) \<le> 90)"

definition is_ascii_alphabetic :: "char \<Rightarrow> bool" where
  "is_ascii_alphabetic c = (is_ascii_lower c \<or> is_ascii_upper c)"

definition is_ascii_alphanumeric :: "char \<Rightarrow> bool" where
  "is_ascii_alphanumeric c = (is_ascii_alphabetic c \<or> is_ascii_digit c)"

definition is_lower_hex :: "char \<Rightarrow> bool" where
  "is_lower_hex c = (is_ascii_digit c \<or> (97 \<le> (of_char c :: nat) \<and> (of_char c :: nat) \<le> 102))"

definition to_ascii_lower :: "char \<Rightarrow> char" where
  "to_ascii_lower c = (if is_ascii_upper c then char_of ((of_char c :: nat) + 32) else c)"

lemma to_ascii_lower_idem [simp]: "to_ascii_lower (to_ascii_lower c) = to_ascii_lower c"
proof (cases "is_ascii_upper c")
  case True
  then have "\<not> is_ascii_upper (char_of ((of_char c :: nat) + 32))"
    by (simp add: is_ascii_upper_def)
  then show ?thesis by (simp add: to_ascii_lower_def)
qed (simp add: to_ascii_lower_def)

section \<open>Decimal and hexadecimal printing\<close>

definition digit_char :: "nat \<Rightarrow> char" where
  "digit_char d = char_of (if d < 10 then 48 + d else 87 + d)"

fun show_nat :: "nat \<Rightarrow> string" where
  "show_nat n = (if n < 10 then [digit_char n] else show_nat (n div 10) @ [digit_char (n mod 10)])"

declare show_nat.simps [simp del]

definition show_int :: "int \<Rightarrow> string" where
  "show_int i = (if i < 0 then CHR ''-'' # show_nat (nat (- i)) else show_nat (nat i))"

fun show_hex :: "nat \<Rightarrow> nat \<Rightarrow> string" where
  "show_hex 0 n = []"
| "show_hex (Suc w) n = show_hex w (n div 16) @ [digit_char (n mod 16)]"

lemma length_show_hex [simp]: "length (show_hex w n) = w"
  by (induction w n rule: show_hex.induct) auto

section \<open>Clean lines and graphic characters\<close>

definition line_ok :: "string \<Rightarrow> bool" where
  "line_ok l \<longleftrightarrow> CHR 0x0A \<notin> set l \<and> CHR 0x0D \<notin> set l"

lemma split_byte_chars: "split_byte c s = Some (l, r) \<Longrightarrow> c \<notin> set l \<and> set s = set l \<union> {c} \<union> set r"
  by (auto simp: split_byte_Some)

lemma str_lines_ok: "CHR 0x0D \<notin> set s \<Longrightarrow> \<forall>l \<in> set (str_lines s). line_ok l"
proof (induction s rule: str_lines.induct)
  case (1 s)
  show ?case
  proof (cases "split_byte (CHR 0x0A) s")
    case None
    have "str_lines s = (if s = [] then [] else [s])" by (subst str_lines.simps) (simp only: None option.case)
    moreover have "CHR 0x0A \<notin> set s" using None by simp
    ultimately show ?thesis using 1(2) by (simp add: line_ok_def)
  next
    case (Some lr)
    obtain l r where lr: "lr = (l, r)" by fastforce
    note chars = split_byte_chars [OF Some [unfolded lr]]
    then have "\<forall>x \<in> set (str_lines r). line_ok x" using 1(1) [OF Some lr [symmetric]] 1(2) by auto
    then show ?thesis
      using chars 1(2) by (auto simp: str_lines.simps [of s] Some lr line_ok_def strip_cr_id)
  qed
qed

text \<open>Printable ASCII without the space; no white space starts or ends with one.\<close>

definition graphic :: "char \<Rightarrow> bool" where
  "graphic c \<longleftrightarrow> 33 \<le> (of_char c :: nat) \<and> (of_char c :: nat) \<le> 126"

lemma unicode_ws_not_graphic: "p \<in> set unicode_ws \<Longrightarrow> p \<noteq> [] \<and> \<not> graphic (hd p) \<and> \<not> graphic (last p)"
  by (auto simp: unicode_ws_def graphic_def)

lemma starts_ws_graphic: "graphic c \<Longrightarrow> \<not> starts_ws (c # s)"
  by (auto simp: starts_ws_def str_simps Cons_eq_append_conv dest: unicode_ws_not_graphic)

lemma ends_ws_graphic: "graphic (last s) \<Longrightarrow> s \<noteq> [] \<Longrightarrow> \<not> ends_ws s"
  by (auto simp: ends_ws_def str_simps dest: unicode_ws_not_graphic)

lemma trim_graphic: "s \<noteq> [] \<Longrightarrow> graphic (hd s) \<Longrightarrow> graphic (last s) \<Longrightarrow> trim s = s"
  using starts_ws_graphic [of "hd s" "tl s"] ends_ws_graphic [of s] by (simp add: trim_id)

section \<open>Decimal numbers\<close>

lemma of_digit_char: "d < 10 \<Longrightarrow> of_char (digit_char d) = (48 + d :: nat)"
  by (simp add: digit_char_def)

lemma digit_char_digit: "d < 10 \<Longrightarrow> is_ascii_digit (digit_char d)"
  by (simp add: is_ascii_digit_def of_digit_char)

lemma show_nat_digits: "list_all is_ascii_digit (show_nat n)"
  by (induction n rule: show_nat.induct) (subst show_nat.simps, auto simp: digit_char_digit)

lemma show_nat_nonempty: "show_nat n \<noteq> []"
  by (subst show_nat.simps) simp

lemma show_nat_value: "foldl (\<lambda>acc c. acc * 10 + (of_char c - 48)) 0 (show_nat n) = n"
  by (induction n rule: show_nat.induct) (subst show_nat.simps, auto simp: of_digit_char)

end
