(* ===== verification/Sse.thy ===== *)
theory Sse
  imports Rust_Str
begin

text \<open>
  \<open>src/src/sse.rs\<close>: the incremental parser for server-sent events.  The parser
  is fed arbitrary chunks of the response body, so the property that matters is
  that the events do not depend on where the chunks were cut.
\<close>

record SseEvent =
  sse_event :: "string option"
  sse_data :: string

record SseParser =
  buffer :: string
  event_name :: "string option"
  data_lines :: "string list"

definition sse_default :: SseParser where
  "sse_default = \<lparr>buffer = [], event_name = None, data_lines = []\<rparr>"

definition finish_event :: "SseParser \<Rightarrow> SseParser \<times> SseEvent option" where
  "finish_event p =
     (if data_lines p = [] \<and> event_name p = None then (p, None)
      else (p\<lparr>event_name := None, data_lines := []\<rparr>,
            Some \<lparr>sse_event = event_name p, sse_data = join_with [CHR 0x0A] (data_lines p)\<rparr>))"

text \<open>\<open>value.strip_prefix(' ').unwrap_or(value)\<close>\<close>

definition strip_space :: "string \<Rightarrow> string" where
  "strip_space v = (case strip_prefix '' '' v of Some r \<Rightarrow> r | None \<Rightarrow> v)"

text \<open>The body of the loop in \<open>push\<close>, for one complete line.\<close>

definition push_line :: "SseParser \<Rightarrow> string \<Rightarrow> SseParser \<times> SseEvent list" where
  "push_line p raw =
     (let line = strip_cr raw in
      if line = [] then
        (case finish_event p of
           (p', Some e) \<Rightarrow> (p', [e])
         | (p', None) \<Rightarrow> (p', []))
      else if starts_with '':'' line then (p, [])
      else
        let (field, value) = (case split_once '':'' line of
              Some (f, v) \<Rightarrow> (f, strip_space v)
            | None \<Rightarrow> (line, []))
        in if field = ''event'' then (p\<lparr>event_name := Some value\<rparr>, [])
           else if field = ''data'' then (p\<lparr>data_lines := data_lines p @ [value]\<rparr>, [])
           else (p, []))"

lemma push_line_buffer [simp]: "buffer (fst (push_line p l)) = buffer p"
  by (simp add: push_line_def finish_event_def Let_def split: option.splits prod.splits)

lemma push_line_frame: "push_line (p\<lparr>buffer := b\<rparr>) l =
    (case push_line p l of (p', es) \<Rightarrow> (p'\<lparr>buffer := b\<rparr>, es))"
  by (simp add: push_line_def finish_event_def Let_def split: option.splits prod.splits)

text \<open>The loop \<open>while let Some(newline) = self.buffer.find(...)\<close>.\<close>

function drain_buffer :: "SseParser \<Rightarrow> SseParser \<times> SseEvent list" where
  "drain_buffer p =
     (case split_byte (CHR 0x0A) (buffer p) of
        None \<Rightarrow> (p, [])
      | Some (line, rest) \<Rightarrow>
          let (p1, es) = push_line (p\<lparr>buffer := rest\<rparr>) line;
              (p2, es') = drain_buffer p1
          in (p2, es @ es'))"
  by pat_completeness auto
termination
proof (relation "measure (\<lambda>p. length (buffer p))")
  fix p x line rest a p1 es
  assume split: "split_byte (CHR 0x0A) (buffer p) = Some x" "(line, rest) = x"
    and step: "a = push_line (p\<lparr>buffer := rest\<rparr>) line" "(p1, es) = a"
  from step have "buffer p1 = rest"
    using push_line_buffer [of "p\<lparr>buffer := rest\<rparr>" line] by (metis fst_conv select_convs(1) surjective update_convs(1))
  moreover from split have "length rest < length (buffer p)"
    using split_byte_length by blast
  ultimately show "(p1, p) \<in> measure (\<lambda>p. length (buffer p))" by simp
qed simp

declare drain_buffer.simps [simp del]

definition push :: "SseParser \<Rightarrow> string \<Rightarrow> SseParser \<times> SseEvent list" where
  "push p chunk = drain_buffer (p\<lparr>buffer := buffer p @ chunk\<rparr>)"

definition finish :: "SseParser \<Rightarrow> SseEvent option" where
  "finish p =
     (let p1 = (if buffer p \<noteq> [] then
                  (case strip_prefix ''data:'' (buffer p) of
                     Some v \<Rightarrow> p\<lparr>buffer := [], data_lines := data_lines p @ [strip_space v]\<rparr>
                   | None \<Rightarrow> p\<lparr>buffer := []\<rparr>)
                else p)
      in snd (finish_event p1))"

text \<open>A response body, as the sequence of chunks the transport produced.\<close>

fun push_all :: "SseParser \<Rightarrow> string list \<Rightarrow> SseParser \<times> SseEvent list" where
  "push_all p [] = (p, [])"
| "push_all p (c # cs) =
     (let (p1, es) = push p c; (p2, es') = push_all p1 cs in (p2, es @ es'))"

section \<open>Fragmentation\<close>

lemma drain_none: "CHR 0x0A \<notin> set (buffer p) \<Longrightarrow> drain_buffer p = (p, [])"
  by (simp add: drain_buffer.simps [of p] split_byte_None [THEN iffD2])

lemma drain_buffer_append:
  "drain_buffer (p\<lparr>buffer := buffer p @ b\<rparr>) =
     (let (p1, es) = drain_buffer p;
          (p2, es') = drain_buffer (p1\<lparr>buffer := buffer p1 @ b\<rparr>)
      in (p2, es @ es'))"
proof (induction p rule: drain_buffer.induct)
  case (1 p)
  show ?case
  proof (cases "split_byte (CHR 0x0A) (buffer p)")
    case None
    then show ?thesis by (simp add: drain_none)
  next
    case (Some lr)
    obtain line rest where lr: "lr = (line, rest)" by fastforce
    obtain p1 es where s1: "push_line (p\<lparr>buffer := rest\<rparr>) line = (p1, es)" by fastforce
    have buf: "buffer p1 = rest"
      using push_line_buffer [of "p\<lparr>buffer := rest\<rparr>" line] s1 by simp
    have s1b: "push_line (p\<lparr>buffer := rest @ b\<rparr>) line = (p1\<lparr>buffer := rest @ b\<rparr>, es)"
      using push_line_frame [of "rest @ b" "p\<lparr>buffer := rest\<rparr>" line] s1 by simp
    have split2: "split_byte (CHR 0x0A) (buffer p @ b) = Some (line, rest @ b)"
      using Some lr by (simp add: split_byte_append)
    have IH: "drain_buffer (p1\<lparr>buffer := buffer p1 @ b\<rparr>) =
       (let (p1, es) = drain_buffer p1;
            (p2, es') = drain_buffer (p1\<lparr>buffer := buffer p1 @ b\<rparr>) in (p2, es @ es'))"
      using "1.IH" Some lr s1 by simp
    show ?thesis
      using IH
      by (simp add: drain_buffer.simps [of p] drain_buffer.simps [of "p\<lparr>buffer := buffer p @ b\<rparr>"]
          Some lr split2 s1 s1b buf Let_def split: prod.splits)
  qed
qed

lemma push_append: "push p (a @ b) =
    (let (p1, es) = push p a; (p2, es') = push p1 b in (p2, es @ es'))"
  using drain_buffer_append [of "p\<lparr>buffer := buffer p @ a\<rparr>" b] by (simp add: push_def)

lemma drain_buffer_clean: "CHR 0x0A \<notin> set (buffer (fst (drain_buffer p)))"
proof (induction p rule: drain_buffer.induct)
  case (1 p)
  show ?case
  proof (cases "split_byte (CHR 0x0A) (buffer p)")
    case None
    then show ?thesis by (simp add: drain_none)
  next
    case (Some lr)
    obtain line rest where lr: "lr = (line, rest)" by fastforce
    obtain p1 es where s1: "push_line (p\<lparr>buffer := rest\<rparr>) line = (p1, es)" by fastforce
    have "CHR 0x0A \<notin> set (buffer (fst (drain_buffer p1)))"
      using "1.IH" Some lr s1 by simp
    then show ?thesis
      by (auto simp: drain_buffer.simps [of p] Some lr s1 split: prod.splits)
  qed
qed

lemma push_all_concat:
  assumes "CHR 0x0A \<notin> set (buffer p)"
  shows "push_all p chunks = push p (concat chunks)"
  using assms
proof (induction chunks arbitrary: p)
  case Nil
  then show ?case by (simp add: push_def drain_none)
next
  case (Cons c cs)
  obtain p1 es where p1: "push p c = (p1, es)" by fastforce
  have "CHR 0x0A \<notin> set (buffer (fst (push p c)))"
    by (simp add: push_def drain_buffer_clean)
  then have "push_all p1 cs = push p1 (concat cs)" by (simp add: p1 Cons.IH)
  then show ?case by (simp add: p1 push_append)
qed

text \<open>
  C2.  The events a response body produces, and the state the parser is left in,
  depend only on the bytes: cutting the body into chunks in any way (in the
  middle of a field name, of a value or of a line ending) changes nothing.
\<close>

theorem chunking_is_irrelevant:
  assumes "CHR 0x0A \<notin> set (buffer p)"
  shows "push_all p chunks = push p (concat chunks)"
  using assms by (rule push_all_concat)

theorem chunking_is_irrelevant_witness:
  "push_all sse_default [''event: tool.start'' @ [CHR 0x0A] @ ''da'', ''ta: x'' @ [CHR 0x0A, CHR 0x0A]] =
     push sse_default (''event: tool.start'' @ [CHR 0x0A] @ ''data: x'' @ [CHR 0x0A, CHR 0x0A])"
  using chunking_is_irrelevant
    [of sse_default "[''event: tool.start'' @ [CHR 0x0A] @ ''da'', ''ta: x'' @ [CHR 0x0A, CHR 0x0A]]"]
  by (simp add: sse_default_def)

end
