(* ===== verification/Run_Policy.thy ===== *)
theory Run_Policy
  imports Prelude
begin

text \<open>
  \<open>src/src/runpolicy.rs\<close>: how the approval requests of one run are answered.
\<close>

datatype RunApprovalPolicy = Manual | AllowAllForRun

fun policy_as_str :: "RunApprovalPolicy \<Rightarrow> string" where
  "policy_as_str Manual = ''manual''"
| "policy_as_str AllowAllForRun = ''allow_all_for_run''"

datatype policy_error = UnknownApprovalPolicy string

definition policy_parse :: "string \<Rightarrow> (policy_error, RunApprovalPolicy) result" where
  "policy_parse value =
     (if value = ''manual'' then Inr Manual
      else if value = ''allow_all_for_run'' then Inr AllowAllForRun
      else Inl (UnknownApprovalPolicy value))"

fun bypasses_approval :: "RunApprovalPolicy \<Rightarrow> bool" where
  "bypasses_approval AllowAllForRun = True"
| "bypasses_approval Manual = False"

record RunPolicyState =
  rp_policy :: RunApprovalPolicy
  rp_enabled_by :: "string option"
  rp_enabled_at :: "int option"
  rp_updated_at :: "int option"

definition run_policy_default :: RunPolicyState where
  "run_policy_default =
     \<lparr>rp_policy = Manual, rp_enabled_by = None, rp_enabled_at = None, rp_updated_at = None\<rparr>"

interpretation run_policy: string_enum policy_as_str policy_parse
proof
  fix x show "policy_parse (policy_as_str x) = Inr x"
    by (cases x) (simp_all add: policy_parse_def)
next
  fix s x show "policy_parse s = Inr x \<Longrightarrow> policy_as_str x = s"
    by (auto simp: policy_parse_def split: if_splits)
qed

lemma policy_parse_fails_closed: "policy_parse s = Inr p \<Longrightarrow> bypasses_approval p \<Longrightarrow> s = ''allow_all_for_run''"
  by (auto simp: policy_parse_def split: if_splits)

end
