(* ===== verification/Json.thy ===== *)
theory Json
  imports Rust_Str
begin

text \<open>
  The JSON values of \<open>serde_json\<close> as the sources use them.  An object is the
  sorted association list of its \<open>BTreeMap\<close>; \<open>obj_insert\<close> is \<open>Map::insert\<close>.
  The printer and the parser of \<open>serde_json\<close> are third-party code: they are the
  two fields of the parameter \<open>codec\<close>.
\<close>

datatype number = PosInt nat | NegInt int | Float "64 word"

datatype json =
    JNull
  | JBool bool
  | JNumber number
  | JString string
  | JArray "json list"
  | JObject "(string \<times> json) list"

type_synonym obj = "(string \<times> json) list"

record codec =
  to_string :: "json \<Rightarrow> string"
  from_str :: "string \<Rightarrow> json option"

section \<open>Objects\<close>

fun obj_insert :: "string \<Rightarrow> json \<Rightarrow> obj \<Rightarrow> obj" where
  "obj_insert k v [] = [(k, v)]"
| "obj_insert k v ((k', v') # m) =
     (if k = k' then (k, v) # m
      else if k < k' then (k, v) # (k', v') # m
      else (k', v') # obj_insert k v m)"

lemma map_of_obj_insert [simp]: "map_of (obj_insert k v m) = (map_of m)(k \<mapsto> v)"
  by (induction m) (auto simp: fun_eq_iff)

lemma keys_obj_insert: "fst ` set (obj_insert k v m) = insert k (fst ` set m)"
proof (induction m)
  case (Cons kv m)
  then show ?case by (cases kv) auto
qed simp

lemma set_obj_insert: "set (obj_insert k v m) \<subseteq> insert (k, v) (set m)"
proof (induction m)
  case (Cons kv m)
  then show ?case by (cases kv) (auto split: if_splits)
qed simp

definition sorted_keys :: "obj \<Rightarrow> bool" where
  "sorted_keys m = sorted_wrt (<) (map fst m)"

lemma sorted_keys_simps [simp]:
  "sorted_keys []"
  "sorted_keys ((k, v) # m) \<longleftrightarrow> (\<forall>k' \<in> fst ` set m. k < k') \<and> sorted_keys m"
  by (auto simp: sorted_keys_def)

lemma sorted_keys_obj_insert: "sorted_keys m \<Longrightarrow> sorted_keys (obj_insert k v m)"
proof (induction m)
  case (Cons kv m)
  obtain k' v' where kv: "kv = (k', v')" by fastforce
  consider "k = k'" | "k < k'" | "k' < k" using less_linear by blast
  then show ?case
    using Cons by cases (auto simp: kv keys_obj_insert intro: order.strict_trans)
qed simp

lemma sorted_keys_distinct: "sorted_keys m \<Longrightarrow> distinct (map fst m)"
  by (simp add: sorted_keys_def strict_sorted_iff)

text \<open>The \<open>json!\<close> macro inserts its entries into an empty map, in order.\<close>

definition obj_of :: "obj \<Rightarrow> obj" where
  "obj_of kvs = foldl (\<lambda>m (k, v). obj_insert k v m) [] kvs"

definition json_object :: "obj \<Rightarrow> json" where
  "json_object kvs = JObject (obj_of kvs)"

lemma foldl_obj_insert_map_of:
  "map_of (foldl (\<lambda>m (k, v). obj_insert k v m) m kvs) = map_of m ++ map_of (rev kvs)"
  by (induction kvs arbitrary: m) (auto simp: map_add_def fun_eq_iff split: option.splits)

lemma map_of_obj_of: "map_of (obj_of kvs) = map_of (rev kvs)"
  by (simp add: obj_of_def foldl_obj_insert_map_of)

lemma sorted_keys_foldl:
  "sorted_keys m \<Longrightarrow> sorted_keys (foldl (\<lambda>m (k, v). obj_insert k v m) m kvs)"
  by (induction kvs arbitrary: m) (auto simp: sorted_keys_obj_insert)

lemma sorted_keys_obj_of: "sorted_keys (obj_of kvs)"
  by (simp add: obj_of_def sorted_keys_foldl)

lemma set_foldl_obj_insert:
  "set (foldl (\<lambda>m (k, v). obj_insert k v m) m kvs) \<subseteq> set m \<union> set kvs"
proof (induction kvs arbitrary: m)
  case (Cons kv kvs)
  obtain k v where kv: "kv = (k, v)" by fastforce
  have "set (foldl (\<lambda>m (k, v). obj_insert k v m) (obj_insert k v m) kvs) \<subseteq> set (obj_insert k v m) \<union> set kvs"
    by (rule Cons.IH)
  also have "\<dots> \<subseteq> set m \<union> set (kv # kvs)" using set_obj_insert [of k v m] kv by auto
  finally show ?case by (simp add: kv)
qed simp

lemma set_obj_of: "set (obj_of kvs) \<subseteq> set kvs"
  using set_foldl_obj_insert [of "[]" kvs] by (simp add: obj_of_def)

section \<open>Accessors\<close>

fun json_get :: "string \<Rightarrow> json \<Rightarrow> json option" where
  "json_get k (JObject m) = map_of m k"
| "json_get k _ = None"

fun json_set :: "string \<Rightarrow> json \<Rightarrow> json \<Rightarrow> json" where
  "json_set k v (JObject m) = JObject (obj_insert k v m)"
| "json_set k v j = j"

fun as_str :: "json \<Rightarrow> string option" where
  "as_str (JString s) = Some s"
| "as_str _ = None"

fun as_array :: "json \<Rightarrow> json list option" where
  "as_array (JArray xs) = Some xs"
| "as_array _ = None"

fun as_object :: "json \<Rightarrow> obj option" where
  "as_object (JObject m) = Some m"
| "as_object _ = None"

fun as_u64 :: "json \<Rightarrow> nat option" where
  "as_u64 (JNumber (PosInt n)) = Some n"
| "as_u64 _ = None"

fun as_i64 :: "json \<Rightarrow> int option" where
  "as_i64 (JNumber (PosInt n)) = (if int n < 2 ^ 63 then Some (int n) else None)"
| "as_i64 (JNumber (NegInt i)) = Some i"
| "as_i64 _ = None"

fun as_bool :: "json \<Rightarrow> bool option" where
  "as_bool (JBool b) = Some b"
| "as_bool _ = None"

definition get_str :: "string \<Rightarrow> json \<Rightarrow> string option" where
  "get_str k j = Option.bind (json_get k j) as_str"

lemma as_str_Some [simp]: "as_str j = Some s \<longleftrightarrow> j = JString s"
  by (cases j) auto

text \<open>\<open>json!(x)\<close> for integers and options.\<close>

definition json_of_int :: "int \<Rightarrow> json" where
  "json_of_int i = JNumber (if i < 0 then NegInt i else PosInt (nat i))"

definition json_of_nat :: "nat \<Rightarrow> json" where
  "json_of_nat n = JNumber (PosInt n)"

definition json_of_opt :: "string option \<Rightarrow> json" where
  "json_of_opt x = (case x of None \<Rightarrow> JNull | Some s \<Rightarrow> JString s)"

section \<open>Exact values\<close>

text \<open>
  The values \<open>serde_json\<close> prints and reads back unchanged: objects in key order,
  integers in the range of \<open>u64\<close> and \<open>i64\<close>, no floating-point numbers.
\<close>

fun exact_number :: "number \<Rightarrow> bool" where
  "exact_number (PosInt n) = (n < 2 ^ 64)"
| "exact_number (NegInt i) = (- (2 ^ 63) \<le> i \<and> i < 0)"
| "exact_number (Float _) = False"

fun exact_json :: "json \<Rightarrow> bool" and exact_list :: "json list \<Rightarrow> bool" and exact_obj :: "obj \<Rightarrow> bool" where
  "exact_json (JArray xs) = exact_list xs"
| "exact_json (JObject m) = (sorted_keys m \<and> exact_obj m)"
| "exact_json (JNumber n) = exact_number n"
| "exact_json _ = True"
| "exact_list [] = True"
| "exact_list (x # xs) = (exact_json x \<and> exact_list xs)"
| "exact_obj [] = True"
| "exact_obj ((k, v) # m) = (exact_json v \<and> exact_obj m)"

lemma exact_obj_iff: "exact_obj m \<longleftrightarrow> (\<forall>(k, v) \<in> set m. exact_json v)"
  by (induction m) auto

lemma exact_obj_insert: "exact_obj m \<Longrightarrow> exact_json v \<Longrightarrow> exact_obj (obj_insert k v m)"
  using set_obj_insert [of k v m] by (auto simp: exact_obj_iff)

lemma exact_json_set: "exact_json j \<Longrightarrow> exact_json v \<Longrightarrow> exact_json (json_set k v j)"
  by (cases j) (simp_all add: exact_obj_insert sorted_keys_obj_insert)

lemma exact_json_object:
  assumes "\<forall>(k, v) \<in> set kvs. exact_json v"
  shows "exact_json (json_object kvs)"
  using assms set_obj_of [of kvs] by (auto simp: json_object_def exact_obj_iff sorted_keys_obj_of)

lemma exact_json_get: "json_get k j = Some v \<Longrightarrow> exact_json j \<Longrightarrow> exact_json v"
  by (cases j) (auto simp: exact_obj_iff dest: map_of_SomeD)

end
