(* ===== verification/Redact.thy ===== *)
theory Redact
  imports Json
begin

text \<open>
  \<open>src/src/redact.rs\<close>: the redaction every payload passes before it is stored.
  The \<open>&mut bool\<close> the source threads through the walk is the second component
  of the result.  The order of the tests in \<open>walk_entries\<close> is the source's.
\<close>

section \<open>Constants\<close>

definition REDACTED :: string where
  "REDACTED = ''[redacted]''"

definition REDACTED_ENVIRONMENT :: string where
  "REDACTED_ENVIRONMENT = ''[redacted-environment]''"

definition MAX_STRING_BYTES :: nat where
  "MAX_STRING_BYTES = 8 * 1024"

definition MAX_RAW_PAYLOAD_BYTES :: nat where
  "MAX_RAW_PAYLOAD_BYTES = 64 * 1024"

definition MAX_DEPTH :: nat where
  "MAX_DEPTH = 32"

definition SECRET_KEY_FRAGMENTS :: "string list" where
  "SECRET_KEY_FRAGMENTS =
     [''accesstoken'', ''refreshtoken'', ''idtoken'', ''apikey'', ''apisecret'',
      ''authorization'', ''clientsecret'', ''cookie'', ''credential'', ''password'',
      ''passwd'', ''privatekey'', ''secret'', ''sessionkey'', ''setcookie'', ''token'']"

definition ENVIRONMENT_KEY_FRAGMENTS :: "string list" where
  "ENVIRONMENT_KEY_FRAGMENTS = [''environ'', ''environment'', ''envvars'']"

definition SAFE_METADATA_KEY :: string where
  "SAFE_METADATA_KEY = ''safe_metadata''"

section \<open>Identifiers that may be kept\<close>

datatype SafeIdentifier = CredentialId

fun safe_key :: "SafeIdentifier \<Rightarrow> string" where
  "safe_key CredentialId = ''credential_id''"

definition safe_from_key :: "string \<Rightarrow> SafeIdentifier option" where
  "safe_from_key key = (if key = ''credential_id'' then Some CredentialId else None)"

fun accepts :: "SafeIdentifier \<Rightarrow> string \<Rightarrow> bool" where
  "accepts CredentialId value =
     (case strip_prefix ''cred-'' value of
        Some hex \<Rightarrow> length hex = 16 \<and> list_all is_lower_hex hex
      | None \<Rightarrow> False)"

fun safe_metadata_into :: "obj \<Rightarrow> (SafeIdentifier \<times> string) list \<Rightarrow> obj option" where
  "safe_metadata_into m [] = Some m"
| "safe_metadata_into m ((identifier, value) # entries) =
     (if \<not> accepts identifier value then None
      else safe_metadata_into (obj_insert (safe_key identifier) (JString value) m) entries)"

definition safe_metadata :: "(SafeIdentifier \<times> string) list \<Rightarrow> json option" where
  "safe_metadata entries = map_option JObject (safe_metadata_into [] entries)"

definition safe_entry :: "string \<Rightarrow> json \<Rightarrow> bool" where
  "safe_entry key child =
     (case (safe_from_key key, as_str child) of
        (Some identifier, Some text) \<Rightarrow> accepts identifier text
      | _ \<Rightarrow> False)"

fun walk_safe_entries :: "obj \<Rightarrow> obj \<times> bool" where
  "walk_safe_entries [] = ([], False)"
| "walk_safe_entries ((key, child) # m) =
     (let (m', f) = walk_safe_entries m in
      if safe_entry key child then ((key, child) # m', f)
      else ((key, JString REDACTED) # m', True))"

definition walk_safe_metadata :: "json \<Rightarrow> json \<times> bool" where
  "walk_safe_metadata value =
     (case as_object value of
        None \<Rightarrow> (JString REDACTED, True)
      | Some m \<Rightarrow> (let (m', f) = walk_safe_entries m in (JObject m', f)))"

section \<open>Keys and values that may carry a secret\<close>

definition normalize_key :: "string \<Rightarrow> string" where
  "normalize_key key = map to_ascii_lower (filter is_ascii_alphanumeric key)"

definition is_secret_key :: "string \<Rightarrow> bool" where
  "is_secret_key key =
     list_ex (\<lambda>fragment. str_contains fragment (normalize_key key)) SECRET_KEY_FRAGMENTS"

definition is_listing_of_credentials :: "string \<Rightarrow> json \<Rightarrow> bool" where
  "is_listing_of_credentials key value =
     (normalize_key key = ''credentials'' \<and> as_array value \<noteq> None)"

fun can_carry_secret :: "json \<Rightarrow> bool" where
  "can_carry_secret (JNumber _) = False"
| "can_carry_secret (JBool _) = False"
| "can_carry_secret _ = True"

definition is_environment_key :: "string \<Rightarrow> bool" where
  "is_environment_key key =
     list_ex (\<lambda>fragment. normalize_key key = fragment) ENVIRONMENT_KEY_FRAGMENTS"

definition looks_like_secret :: "string \<Rightarrow> bool" where
  "looks_like_secret text =
     (let trimmed = trim text in
      if starts_with ''eyJ'' trimmed \<and> length trimmed \<ge> 32 then True
      else if starts_with ''sk-'' trimmed \<and> length trimmed \<ge> 24 then True
      else if starts_with ''bearer '' (map to_ascii_lower trimmed) \<and> length trimmed > 16 then True
      else False)"

text \<open>The loop that walks back to a character boundary.\<close>

fun cut_end :: "string \<Rightarrow> nat \<Rightarrow> nat" where
  "cut_end text 0 = 0"
| "cut_end text (Suc n) = (if is_char_boundary text (Suc n) then Suc n else cut_end text n)"

definition TRUNCATION_MARK :: string where
  "TRUNCATION_MARK = [CHR 0xE2, CHR 0x80, CHR 0xA6] @ ''[truncated]''"

definition bound_string :: "string \<Rightarrow> string \<times> bool" where
  "bound_string text =
     (if length text \<le> MAX_STRING_BYTES then (text, False)
      else (take (cut_end text MAX_STRING_BYTES) text @ TRUNCATION_MARK, True))"

section \<open>The walk\<close>

fun walk :: "json \<Rightarrow> nat \<Rightarrow> json \<times> bool"
  and walk_items :: "json list \<Rightarrow> nat \<Rightarrow> json list \<times> bool"
  and walk_entries :: "obj \<Rightarrow> nat \<Rightarrow> obj \<times> bool" where
  "walk value depth =
     (if depth \<ge> MAX_DEPTH then (JString REDACTED, True)
      else case value of
        JObject m \<Rightarrow> (let (m', f) = walk_entries m depth in (JObject m', f))
      | JArray items \<Rightarrow> (let (xs, f) = walk_items items (depth + 1) in (JArray xs, f))
      | JString text \<Rightarrow>
          if looks_like_secret text then (JString REDACTED, True)
          else (let (t, f) = bound_string text in (JString t, f))
      | other \<Rightarrow> (other, False))"
| "walk_items [] depth = ([], False)"
| "walk_items (x # xs) depth =
     (let (x', f) = walk x depth; (xs', g) = walk_items xs depth in (x' # xs', f \<or> g))"
| "walk_entries [] depth = ([], False)"
| "walk_entries ((key, child) # m) depth =
     (let (m', g) = walk_entries m depth in
      if key = SAFE_METADATA_KEY then
        (let (c, f) = walk_safe_metadata child in ((key, c) # m', f \<or> g))
      else if is_environment_key key then ((key, JString REDACTED_ENVIRONMENT) # m', True)
      else if is_secret_key key \<and> can_carry_secret child \<and> \<not> is_listing_of_credentials key child then
        ((key, JString REDACTED) # m', True)
      else (let (c, f) = walk child (depth + 1) in ((key, c) # m', f \<or> g)))"

declare walk.simps [simp del]

record Redacted =
  red_value :: json
  red_modified :: bool

definition redact :: "json \<Rightarrow> Redacted" where
  "redact value = (let (v, f) = walk value 0 in \<lparr>red_value = v, red_modified = f\<rparr>)"

definition bounded_raw :: "codec \<Rightarrow> json \<Rightarrow> string option" where
  "bounded_raw cdc value =
     (let encoded = to_string cdc (red_value (redact value)) in
      if length encoded > MAX_RAW_PAYLOAD_BYTES then None else Some encoded)"

definition text_payload :: "string \<Rightarrow> json" where
  "text_payload text = JString (fst (bound_string text))"


section \<open>Bounds\<close>

lemma cut_end_le: "cut_end text n \<le> n"
  by (induction n) auto

lemma cut_end_boundary: "is_char_boundary text (cut_end text n)"
  by (induction n) (auto simp: is_char_boundary_def)

lemma length_TRUNCATION_MARK: "length TRUNCATION_MARK = 14"
  by (simp add: TRUNCATION_MARK_def)

lemma bound_string_unmodified: "bound_string text = (t, False) \<Longrightarrow> t = text"
  by (auto simp: bound_string_def split: if_splits)

lemma bound_string_length: "length (fst (bound_string text)) \<le> MAX_STRING_BYTES + 14"
  using cut_end_le [of "text" MAX_STRING_BYTES]
  by (auto simp: bound_string_def length_TRUNCATION_MARK)

lemma looks_like_secret_REDACTED [simp]:
  "\<not> looks_like_secret REDACTED" "\<not> looks_like_secret REDACTED_ENVIRONMENT"
proof -
  have "trim REDACTED = REDACTED" "trim REDACTED_ENVIRONMENT = REDACTED_ENVIRONMENT"
    by (rule trim_id; simp add: starts_ws_def ends_ws_def ends_with_def unicode_ws_def
        REDACTED_def REDACTED_ENVIRONMENT_def)+
  then show "\<not> looks_like_secret REDACTED" "\<not> looks_like_secret REDACTED_ENVIRONMENT"
    by (simp_all add: looks_like_secret_def REDACTED_def REDACTED_ENVIRONMENT_def Let_def
        to_ascii_lower_def is_ascii_upper_def)
qed

lemma not_secret_if_short: "length s \<le> 16 \<Longrightarrow> \<not> looks_like_secret s"
  using length_trim_le [of s] by (simp add: looks_like_secret_def Let_def)

lemma bound_string_short: "length s \<le> MAX_STRING_BYTES \<Longrightarrow> bound_string s = (s, False)"
  by (simp add: bound_string_def)

lemma walk_kept_string:
  "d < MAX_DEPTH \<Longrightarrow> \<not> looks_like_secret s \<Longrightarrow> length s \<le> MAX_STRING_BYTES \<Longrightarrow>
     walk (JString s) d = (JString s, False)"
  by (simp add: walk.simps bound_string_short)

lemmas key_eval = is_secret_key_def normalize_key_def SECRET_KEY_FRAGMENTS_def
  is_environment_key_def ENVIRONMENT_KEY_FRAGMENTS_def SAFE_METADATA_KEY_def
  is_ascii_alphanumeric_def is_ascii_alphabetic_def is_ascii_lower_def is_ascii_upper_def
  is_ascii_digit_def to_ascii_lower_def

section \<open>What a redacted value looks like\<close>

text \<open>
  The specification: no value under a secret name, no whole environment, no
  string shaped like a token, nothing unvalidated under \<open>safe_metadata\<close>, and no
  string beyond the bound.
\<close>

definition clean_string :: "string \<Rightarrow> bool" where
  "clean_string s =
     (s = REDACTED \<or>
      \<not> looks_like_secret s \<and> length s \<le> MAX_STRING_BYTES \<or>
      (\<exists>t e. \<not> looks_like_secret t \<and> e \<le> MAX_STRING_BYTES \<and> is_char_boundary t e \<and>
             s = take e t @ TRUNCATION_MARK))"

definition clean_safe :: "json \<Rightarrow> bool" where
  "clean_safe c =
     (case as_object c of
        None \<Rightarrow> c = JString REDACTED
      | Some e \<Rightarrow> list_all (\<lambda>(k, v). safe_entry k v \<or> v = JString REDACTED) e)"

fun clean :: "json \<Rightarrow> bool" and clean_items :: "json list \<Rightarrow> bool" and clean_entries :: "obj \<Rightarrow> bool" where
  "clean (JString s) = clean_string s"
| "clean (JArray xs) = clean_items xs"
| "clean (JObject m) = clean_entries m"
| "clean _ = True"
| "clean_items [] = True"
| "clean_items (x # xs) = (clean x \<and> clean_items xs)"
| "clean_entries [] = True"
| "clean_entries ((k, c) # m) =
     ((if k = SAFE_METADATA_KEY then clean_safe c
       else if is_environment_key k then c = JString REDACTED_ENVIRONMENT
       else if is_secret_key k \<and> can_carry_secret c \<and> \<not> is_listing_of_credentials k c then c = JString REDACTED
       else clean c) \<and> clean_entries m)"

lemma clean_string_REDACTED [simp]: "clean_string REDACTED"
  by (simp add: clean_string_def)

lemma clean_string_bound:
  "\<not> looks_like_secret text \<Longrightarrow> clean_string (fst (bound_string text))"
  using cut_end_le [of "text" MAX_STRING_BYTES] cut_end_boundary [of "text" MAX_STRING_BYTES]
  by (auto simp: bound_string_def clean_string_def)

lemma walk_safe_entries_clean:
  "list_all (\<lambda>(k, v). safe_entry k v \<or> v = JString REDACTED) (fst (walk_safe_entries m))"
  by (induction m rule: walk_safe_entries.induct) (auto split: prod.splits)

lemma walk_safe_metadata_clean: "clean_safe (fst (walk_safe_metadata c))"
  using walk_safe_entries_clean
  by (auto simp: walk_safe_metadata_def clean_safe_def split: option.splits prod.splits) (metis fst_conv)

lemma walk_listing:
  assumes "is_listing_of_credentials k c"
  shows "fst (walk c d) = JString REDACTED \<or> is_listing_of_credentials k (fst (walk c d))"
  using assms
  by (cases c) (auto simp: is_listing_of_credentials_def walk.simps [of c] walk.simps split: prod.splits)

lemma walk_scalar:
  assumes "\<not> can_carry_secret c"
  shows "fst (walk c d) = JString REDACTED \<or> fst (walk c d) = c"
  using assms by (cases c) (auto simp: walk.simps)

lemma walk_clean:
  "clean (fst (walk v d))" "clean_items (fst (walk_items xs d))" "clean_entries (fst (walk_entries m d))"
proof (induction v d and xs d and m d rule: walk_walk_items_walk_entries.induct)
  case (1 v depth)
  show ?case
  proof (cases v)
    case (JString str)
    then show ?thesis
      using clean_string_bound [of str] by (auto simp: walk.simps split: prod.splits)
  qed (use 1 in \<open>auto simp: walk.simps split: prod.splits\<close>)
next
  case (3 x xs depth)
  then show ?case by (auto split: prod.splits)
next
  case (5 key child m depth)
  have m: "clean_entries (fst (walk_entries m depth))" using 5 by (auto split: prod.splits)
  show ?case
  proof (cases "key = SAFE_METADATA_KEY \<or> is_environment_key key \<or>
      (is_secret_key key \<and> can_carry_secret child \<and> \<not> is_listing_of_credentials key child)")
    case True
    with m show ?thesis
      using walk_safe_metadata_clean [of child]
      by (auto simp: is_listing_of_credentials_def split: prod.splits)
  next
    case False
    obtain m' g where "walk_entries m depth = (m', g)" by fastforce
    with False have c: "clean (fst (walk child (depth + 1)))" using 5 by simp
    have "is_secret_key key \<and> can_carry_secret (fst (walk child (depth + 1))) \<and>
        \<not> is_listing_of_credentials key (fst (walk child (depth + 1))) \<Longrightarrow>
        fst (walk child (depth + 1)) = JString REDACTED"
      using False walk_listing [of key child "depth + 1"] walk_scalar [of child "depth + 1"] by metis
    with False m c show ?thesis by (auto split: prod.splits)
  qed
qed auto

section \<open>The flag\<close>

lemma walk_safe_entries_unmodified: "walk_safe_entries m = (m', False) \<Longrightarrow> m' = m"
  by (induction m arbitrary: m' rule: walk_safe_entries.induct) (auto split: prod.splits if_splits)

lemma walk_safe_metadata_unmodified: "walk_safe_metadata c = (c', False) \<Longrightarrow> c' = c"
  by (cases c) (auto simp: walk_safe_metadata_def dest: walk_safe_entries_unmodified split: prod.splits)

lemma walk_unmodified:
  "walk v d = (v', False) \<Longrightarrow> v' = v"
  "walk_items xs d = (xs', False) \<Longrightarrow> xs' = xs"
  "walk_entries m d = (m', False) \<Longrightarrow> m' = m"
proof (induction v d and xs d and m d arbitrary: v' and xs' and m' rule: walk_walk_items_walk_entries.induct)
  case (1 v depth)
  then show ?case
    by (cases v) (auto simp: walk.simps dest: bound_string_unmodified split: prod.splits if_splits)
next
  case (5 key child m depth)
  then show ?case
    by (auto dest!: walk_safe_metadata_unmodified split: prod.splits if_splits)
qed (auto split: prod.splits)


section \<open>Secrets do not influence the output\<close>

text \<open>
  Two payloads are indistinguishable when they differ only where redaction must
  hide something: below the depth bound, in strings shaped like tokens, under
  environment and secret names, and in unvalidated safe metadata.
\<close>

definition low_safe :: "json \<Rightarrow> json \<Rightarrow> bool" where
  "low_safe c c' =
     (case (as_object c, as_object c') of
        (Some e, Some e') \<Rightarrow>
          list_all2 (\<lambda>(k, v) (k', w). k = k' \<and> (v = w \<or> \<not> safe_entry k v \<and> \<not> safe_entry k w)) e e'
      | (None, None) \<Rightarrow> True
      | _ \<Rightarrow> False)"

inductive low_eq :: "nat \<Rightarrow> json \<Rightarrow> json \<Rightarrow> bool"
  and low_items :: "nat \<Rightarrow> json list \<Rightarrow> json list \<Rightarrow> bool"
  and low_entries :: "nat \<Rightarrow> obj \<Rightarrow> obj \<Rightarrow> bool" where
  low_same: "low_eq d v v"
| low_deep: "d \<ge> MAX_DEPTH \<Longrightarrow> low_eq d v w"
| low_secret: "looks_like_secret s \<Longrightarrow> looks_like_secret t \<Longrightarrow> low_eq d (JString s) (JString t)"
| low_array: "low_items (d + 1) xs ys \<Longrightarrow> low_eq d (JArray xs) (JArray ys)"
| low_object: "low_entries d m n \<Longrightarrow> low_eq d (JObject m) (JObject n)"
| low_items_Nil: "low_items d [] []"
| low_items_Cons: "low_eq d x y \<Longrightarrow> low_items d xs ys \<Longrightarrow> low_items d (x # xs) (y # ys)"
| low_entries_Nil: "low_entries d [] []"
| low_entries_env: "k \<noteq> SAFE_METADATA_KEY \<Longrightarrow> is_environment_key k \<Longrightarrow> low_entries d m n \<Longrightarrow>
    low_entries d ((k, v) # m) ((k, w) # n)"
| low_entries_secret: "k \<noteq> SAFE_METADATA_KEY \<Longrightarrow> is_secret_key k \<Longrightarrow>
    can_carry_secret v \<Longrightarrow> \<not> is_listing_of_credentials k v \<Longrightarrow>
    can_carry_secret w \<Longrightarrow> \<not> is_listing_of_credentials k w \<Longrightarrow>
    low_entries d m n \<Longrightarrow> low_entries d ((k, v) # m) ((k, w) # n)"
| low_entries_safe: "k = SAFE_METADATA_KEY \<Longrightarrow> low_safe v w \<Longrightarrow> low_entries d m n \<Longrightarrow>
    low_entries d ((k, v) # m) ((k, w) # n)"
| low_entries_keep: "k \<noteq> SAFE_METADATA_KEY \<Longrightarrow> low_eq (d + 1) v w \<Longrightarrow> low_entries d m n \<Longrightarrow>
    low_entries d ((k, v) # m) ((k, w) # n)"

lemma low_safe_walk:
  assumes "low_safe c c'"
  shows "walk_safe_metadata c = walk_safe_metadata c'"
proof -
  have e: "list_all2 (\<lambda>(k, v) (k', w). k = k' \<and> (v = w \<or> \<not> safe_entry k v \<and> \<not> safe_entry k w)) e e' \<Longrightarrow>
      walk_safe_entries e = walk_safe_entries e'" for e e'
    by (induction rule: list_all2_induct) (auto split: prod.splits)
  from assms show ?thesis
    by (auto simp: low_safe_def walk_safe_metadata_def split: option.splits dest: e)
qed

text \<open>Under a secret name, whether a value is walked is decided alike for both.\<close>

lemma low_keep_hidden:
  assumes "low_eq d v w" and "d < MAX_DEPTH"
  shows "can_carry_secret v = can_carry_secret w \<and>
    is_listing_of_credentials k v = is_listing_of_credentials k w"
  using assms by cases (auto simp: is_listing_of_credentials_def)

lemma walk_deep: "d \<ge> MAX_DEPTH \<Longrightarrow> walk v d = (JString REDACTED, True)"
  by (simp add: walk.simps)

lemma low_walk:
  "low_eq d v w \<Longrightarrow> walk v d = walk w d"
  "low_items d xs ys \<Longrightarrow> walk_items xs d = walk_items ys d"
  "low_entries d m n \<Longrightarrow> walk_entries m d = walk_entries n d"
proof (induction rule: low_eq_low_items_low_entries.inducts)
  case (low_deep d v w)
  then show ?case by (simp add: walk_deep)
next
  case (low_entries_safe k v w d m n)
  then show ?case by (simp add: low_safe_walk)
next
  case (low_entries_keep k d v w m n)
  show ?case
  proof (cases "d + 1 < MAX_DEPTH")
    case True
    with low_entries_keep show ?thesis using low_keep_hidden by (simp split: prod.splits) metis
  next
    case False
    then have "walk v (d + 1) = (JString REDACTED, True)" "walk w (d + 1) = (JString REDACTED, True)"
      by (simp_all add: walk_deep)
    with low_entries_keep show ?thesis by (auto split: prod.splits)
  qed
qed (auto simp: walk.simps split: prod.splits)

section \<open>Properties\<close>




text \<open>
  When redaction reports that it changed nothing, the stored value is the
  payload itself.
\<close>

theorem redact_unmodified:
  assumes "\<not> red_modified (redact v)"
  shows "red_value (redact v) = v"
  using assms walk_unmodified(1) [of v 0] by (auto simp: redact_def split: prod.splits)

theorem redact_unmodified_witness:
  "\<not> red_modified (redact (JArray [JBool True, JNull])) \<and>
   red_value (redact (JArray [JBool True, JNull])) = JArray [JBool True, JNull]"
proof -
  have h: "\<not> red_modified (redact (JArray [JBool True, JNull]))"
    by (simp add: redact_def walk.simps MAX_DEPTH_def)
  with redact_unmodified [OF h] show ?thesis by blast
qed

end
