(* ===== verification/Device_Delivery.thy ===== *)
theory Device_Delivery
  imports Redact
begin

text \<open>
  \<open>src/src/device_delivery.rs\<close>: the durable record of a device authorization
  and the one frame that carries the link and code.  Also the predicate and the
  rewriting the registry uses to remove codes older builds stored.
\<close>

definition REDACTED_MARKER :: string where
  "REDACTED_MARKER = ''device_authorization''"

definition MATERIAL_FIELDS :: "string list" where
  "MATERIAL_FIELDS = [''user_code'', ''verification_uri'']"

record DeviceCode =
  dc_verification_uri :: string
  dc_user_code :: string
  dc_expires_in_seconds :: nat

record DeviceDelivery =
  dd_command_id :: string
  dd_credential_id :: string
  dd_verification_uri :: string
  dd_user_code :: string
  dd_expires_in_seconds :: nat

definition device_delivery_new :: "string \<Rightarrow> string \<Rightarrow> DeviceCode \<Rightarrow> DeviceDelivery" where
  "device_delivery_new command_id credential_id code =
     \<lparr>dd_command_id = command_id, dd_credential_id = credential_id,
      dd_verification_uri = dc_verification_uri code, dd_user_code = dc_user_code code,
      dd_expires_in_seconds = dc_expires_in_seconds code\<rparr>"

definition with_safe_credential :: "string \<Rightarrow> json \<Rightarrow> json" where
  "with_safe_credential credential_id j =
     (case safe_metadata [(CredentialId, credential_id)] of
        Some metadata \<Rightarrow> json_set SAFE_METADATA_KEY metadata j
      | None \<Rightarrow> j)"

definition durable_result :: "string \<Rightarrow> nat option \<Rightarrow> json" where
  "durable_result credential_id expires_in_seconds =
     (let result = json_object [(''redacted'', JString REDACTED_MARKER), (''delivery'', JString ''transient'')];
          result = (case expires_in_seconds of
                      Some seconds \<Rightarrow> json_set ''expires_in_seconds'' (json_of_nat seconds) result
                    | None \<Rightarrow> result)
      in with_safe_credential credential_id result)"

definition delivery_durable_result :: "DeviceDelivery \<Rightarrow> json" where
  "delivery_durable_result d = durable_result (dd_credential_id d) (Some (dd_expires_in_seconds d))"

definition frame_payload :: "DeviceDelivery \<Rightarrow> json" where
  "frame_payload d =
     with_safe_credential (dd_credential_id d)
       (json_object
         [(''command_id'', JString (dd_command_id d)),
          (''verification_uri'', JString (dd_verification_uri d)),
          (''user_code'', JString (dd_user_code d)),
          (''expires_in_seconds'', json_of_nat (dd_expires_in_seconds d))])"

definition carries_material :: "json \<Rightarrow> bool" where
  "carries_material result =
     (case as_object result of
        Some m \<Rightarrow> list_ex (\<lambda>field. map_of m field \<noteq> None) MATERIAL_FIELDS
      | None \<Rightarrow> False)"

definition scrubbed :: "json \<Rightarrow> json" where
  "scrubbed result =
     (let credential_id =
            (case Option.bind (Option.bind (json_get SAFE_METADATA_KEY result)
                                (json_get (safe_key CredentialId))) as_str of
               Some i \<Rightarrow> if accepts CredentialId i then i else []
             | None \<Rightarrow> []);
          expires = Option.bind (json_get ''expires_in_seconds'' result) as_u64
      in json_set ''delivery'' (JString ''scrubbed'') (durable_result credential_id expires))"

section \<open>The shape of the durable record\<close>

lemma not_secret_marker: "\<not> looks_like_secret REDACTED_MARKER"
proof -
  have "trim REDACTED_MARKER = REDACTED_MARKER"
    by (rule trim_id; simp add: starts_ws_def ends_ws_def ends_with_def unicode_ws_def REDACTED_MARKER_def)
  then show ?thesis
    by (simp add: looks_like_secret_def REDACTED_MARKER_def Let_def to_ascii_lower_def is_ascii_upper_def)
qed

lemma safe_metadata_single:
  "safe_metadata [(CredentialId, i)] =
     (if accepts CredentialId i then Some (JObject [(''credential_id'', JString i)]) else None)"
  by (simp add: safe_metadata_def)

lemma safe_entry_credential: "accepts CredentialId i \<Longrightarrow> safe_entry ''credential_id'' (JString i)"
  by (simp add: safe_entry_def safe_from_key_def)

definition seconds_entry :: "nat option \<Rightarrow> obj" where
  "seconds_entry e = (case e of Some n \<Rightarrow> [(''expires_in_seconds'', json_of_nat n)] | None \<Rightarrow> [])"

definition safe_entry_list :: "string \<Rightarrow> obj" where
  "safe_entry_list i =
     (if accepts CredentialId i then [(''safe_metadata'', JObject [(''credential_id'', JString i)])] else [])"

lemma durable_result_eq:
  "durable_result i e = JObject
     ([(''delivery'', JString ''transient'')] @ seconds_entry e @
      [(''redacted'', JString REDACTED_MARKER)] @ safe_entry_list i)"
  by (simp add: durable_result_def with_safe_credential_def safe_metadata_single json_object_def
      obj_of_def SAFE_METADATA_KEY_def seconds_entry_def safe_entry_list_def Let_def split: option.splits)

lemma scrubbed_shape:
  "\<exists>i e. scrubbed r = JObject
     ([(''delivery'', JString ''scrubbed'')] @ seconds_entry e @
      [(''redacted'', JString REDACTED_MARKER)] @ safe_entry_list i)"
  by (simp add: scrubbed_def durable_result_eq Let_def) blast

lemma harmless_keys:
  "\<not> is_secret_key ''delivery''" "\<not> is_environment_key ''delivery''"
  "\<not> is_secret_key ''redacted''" "\<not> is_environment_key ''redacted''"
  "\<not> is_secret_key ''expires_in_seconds''" "\<not> is_environment_key ''expires_in_seconds''"
  by (simp_all add: key_eval)

lemma record_survives_redaction:
  assumes "delivery \<in> {''transient'', ''scrubbed''}"
  shows "\<not> red_modified (redact (JObject
     ([(''delivery'', JString delivery)] @ seconds_entry e @
      [(''redacted'', JString REDACTED_MARKER)] @ safe_entry_list i)))"
proof -
  have d: "walk (JString delivery) 1 = (JString delivery, False)"
    using assms by (intro walk_kept_string not_secret_if_short) (auto simp: MAX_DEPTH_def MAX_STRING_BYTES_def)
  have r: "walk (JString REDACTED_MARKER) 1 = (JString REDACTED_MARKER, False)"
    by (intro walk_kept_string not_secret_marker) (auto simp: MAX_DEPTH_def MAX_STRING_BYTES_def REDACTED_MARKER_def)
  have n: "walk (json_of_nat k) 1 = (json_of_nat k, False)" for k
    by (simp add: walk.simps json_of_nat_def MAX_DEPTH_def)
  show ?thesis
    using d r n
    by (auto simp: redact_def walk.simps [of "JObject _"] MAX_DEPTH_def seconds_entry_def safe_entry_list_def
        harmless_keys walk_safe_metadata_def safe_entry_credential SAFE_METADATA_KEY_def
        split: option.splits)
qed

lemma no_material:
  "\<not> carries_material (JObject
     ([(''delivery'', JString delivery)] @ seconds_entry e @
      [(''redacted'', JString REDACTED_MARKER)] @ safe_entry_list i))"
  by (simp add: carries_material_def MATERIAL_FIELDS_def seconds_entry_def safe_entry_list_def split: option.splits)

section \<open>Properties\<close>

text \<open>
  The durable result of a device authorization carries neither the link nor
  the code, whatever the delivery, and it passes redaction unchanged, so the
  credential id the Control Plane needs is still in it after it is stored.
\<close>

theorem durable_result_is_stable:
  "\<not> carries_material (delivery_durable_result d) \<and>
   red_value (redact (delivery_durable_result d)) = delivery_durable_result d"
proof -
  have "\<not> red_modified (redact (delivery_durable_result d))"
    unfolding delivery_durable_result_def durable_result_eq
    by (rule record_survives_redaction) simp
  then have "red_value (redact (delivery_durable_result d)) = delivery_durable_result d"
    using walk_unmodified(1) by (auto simp: redact_def split: prod.splits)
  then show ?thesis
    unfolding delivery_durable_result_def by (simp only: durable_result_eq no_material) simp
qed

text \<open>
  Scrubbing a historical result removes the link and the code, leaves a value
  redaction keeps as it is, and scrubbing it again has nothing left to do.
\<close>

theorem scrubbed_is_final:
  "\<not> carries_material (scrubbed r) \<and> \<not> red_modified (redact (scrubbed r)) \<and>
   scrubbed (scrubbed r) = scrubbed r"
proof -
  obtain i e where s: "scrubbed r = JObject
     ([(''delivery'', JString ''scrubbed'')] @ seconds_entry e @
      [(''redacted'', JString REDACTED_MARKER)] @ safe_entry_list i)"
    using scrubbed_shape by blast
  have again: "scrubbed (scrubbed r) = scrubbed r"
    unfolding s scrubbed_def
    by (auto simp: durable_result_eq Let_def seconds_entry_def safe_entry_list_def SAFE_METADATA_KEY_def
        json_of_nat_def split: option.splits)
  have "\<not> carries_material (scrubbed r)" unfolding s by (rule no_material)
  moreover have "\<not> red_modified (redact (scrubbed r))"
    unfolding s by (rule record_survives_redaction) simp
  ultimately show ?thesis using again by blast
qed

end
