(* ===== verification/Attachments.thy ===== *)
theory Attachments
  imports Redact
begin

text \<open>
  \<open>src/src/attachments.rs\<close>: the image attachments of a chat turn, parsed from
  the request, stored with the run, parsed again when the run is executed, and
  named in the history of later turns.
\<close>

definition MAX_ATTACHMENTS :: nat where "MAX_ATTACHMENTS = 4"
definition MAX_URL_BYTES :: nat where "MAX_URL_BYTES = 2048"
definition MAX_ALT_BYTES :: nat where "MAX_ALT_BYTES = 200"

datatype AttachmentKind = ImageUrl

fun kind_as_str :: "AttachmentKind \<Rightarrow> string" where
  "kind_as_str ImageUrl = ''image_url''"

record Attachment =
  at_kind :: AttachmentKind
  at_url :: string
  at_alt :: "string option"

datatype attachment_error =
    NotAnArray | TooManyAttachments nat | UnsupportedType string | UrlRequired
  | LabelTooLong | UrlTooLong | NotAbsolute | BadScheme string | NoHost
  | EmbedsCredentials | HasWhitespace

definition url_authority :: "string \<Rightarrow> string" where
  "url_authority rest = takeWhile (\<lambda>c. c \<notin> {CHR ''/'', CHR ''?'', CHR ''#''}) rest"

definition contains_ws :: "string \<Rightarrow> bool" where
  "contains_ws s = list_ex (\<lambda>p. str_contains p s) unicode_ws"

definition validate_url :: "string \<Rightarrow> (attachment_error, unit) result" where
  "validate_url url =
     (if length url > MAX_URL_BYTES then Inl UrlTooLong
      else case split_once ''://'' url of
        None \<Rightarrow> Inl NotAbsolute
      | Some (scheme, rest) \<Rightarrow>
          if scheme \<noteq> ''http'' \<and> scheme \<noteq> ''https'' then Inl (BadScheme scheme)
          else let authority = url_authority rest in
            if authority = [] then Inl NoHost
            else if CHR ''@'' \<in> set authority then Inl EmbedsCredentials
            else if contains_ws url then Inl HasWhitespace
            else Inr ())"

definition trimmed_field :: "string \<Rightarrow> json \<Rightarrow> string option" where
  "trimmed_field key item =
     (case map_option trim (get_str key item) of
        Some s \<Rightarrow> if s = [] then None else Some s
      | None \<Rightarrow> None)"

definition parse_one :: "json \<Rightarrow> (attachment_error, Attachment) result" where
  "parse_one item =
     (let kind = (case get_str ''type'' item of Some k \<Rightarrow> k | None \<Rightarrow> []) in
      if kind \<noteq> kind_as_str ImageUrl then Inl (UnsupportedType kind)
      else rbind (ok_or UrlRequired (trimmed_field ''url'' item)) (\<lambda>url.
        rbind (validate_url url) (\<lambda>_.
          let alt = trimmed_field ''alt'' item in
          if (case alt of Some a \<Rightarrow> length a > MAX_ALT_BYTES | None \<Rightarrow> False) then Inl LabelTooLong
          else Inr \<lparr>at_kind = ImageUrl, at_url = url, at_alt = alt\<rparr>)))"

definition parse :: "json option \<Rightarrow> (attachment_error, Attachment list) result" where
  "parse value =
     (case value of
        None \<Rightarrow> Inr []
      | Some v \<Rightarrow>
          if v = JNull then Inr []
          else case as_array v of
            None \<Rightarrow> Inl NotAnArray
          | Some items \<Rightarrow>
              if length items > MAX_ATTACHMENTS then Inl (TooManyAttachments (length items))
              else map_result parse_one items)"

definition redact_url :: "string \<Rightarrow> string" where
  "redact_url url =
     (case split_once ''://'' url of
        None \<Rightarrow> ''<invalid-url>''
      | Some (scheme, rest) \<Rightarrow>
          let path = takeWhile (\<lambda>c. c \<notin> {CHR ''?'', CHR ''#''}) rest;
              truncated = (if length rest > length path then path @ ''?<redacted>'' else path)
          in scheme @ ''://'' @ truncated)"

definition hermes_input :: "string \<Rightarrow> Attachment list \<Rightarrow> json" where
  "hermes_input t attachments =
     (if attachments = [] then JString t
      else JArray [json_object
        [(''role'', JString ''user''),
         (''content'', JArray
           (json_object [(''type'', JString ''text''), (''text'', JString t)] #
            map (\<lambda>a. json_object
              [(''type'', JString ''image_url''),
               (''image_url'', json_object [(''url'', JString (at_url a))])]) attachments))]])"

definition suffix_item :: "Attachment \<Rightarrow> string" where
  "suffix_item a =
     (case at_alt a of
        Some alt \<Rightarrow> alt @ '' <'' @ at_url a @ ''>''
      | None \<Rightarrow> ''<'' @ at_url a @ ''>'')"

definition history_suffix :: "Attachment list \<Rightarrow> string" where
  "history_suffix attachments =
     (if attachments = [] then []
      else [CHR 0x0A] @ ''[attached images: '' @ join_with '', '' (map suffix_item attachments) @ '']'')"

text \<open>The derived \<open>Serialize\<close>: field \<open>kind\<close> is written as \<open>type\<close>, an absent label is left out.\<close>

definition attachment_json :: "Attachment \<Rightarrow> json" where
  "attachment_json a = JObject
     ((case at_alt a of Some alt \<Rightarrow> [(''alt'', JString alt)] | None \<Rightarrow> []) @
      [(''type'', JString (kind_as_str (at_kind a))), (''url'', JString (at_url a))])"

section \<open>Validity\<close>

text \<open>What a validated attachment promises to everything downstream.\<close>

definition valid_url :: "string \<Rightarrow> bool" where
  "valid_url url \<longleftrightarrow>
     length url \<le> MAX_URL_BYTES \<and> \<not> contains_ws url \<and>
     (\<exists>scheme rest. split_once ''://'' url = Some (scheme, rest) \<and> scheme \<in> {''http'', ''https''} \<and>
        url_authority rest \<noteq> [] \<and> CHR ''@'' \<notin> set (url_authority rest))"

definition valid_attachment :: "Attachment \<Rightarrow> bool" where
  "valid_attachment a \<longleftrightarrow> valid_url (at_url a) \<and>
     (\<forall>alt. at_alt a = Some alt \<longrightarrow> alt \<noteq> [] \<and> trim alt = alt \<and> length alt \<le> MAX_ALT_BYTES)"

lemma validate_url_iff: "validate_url url = Inr () \<longleftrightarrow> valid_url url"
  by (auto simp: validate_url_def valid_url_def Let_def not_less split: option.splits prod.splits)

lemma trimmed_field_Some: "trimmed_field key item = Some s \<Longrightarrow> s \<noteq> [] \<and> trim s = s"
  by (auto simp: trimmed_field_def split: option.splits if_splits)

lemma parse_one_valid: "parse_one item = Inr a \<Longrightarrow> valid_attachment a"
  by (auto simp: parse_one_def Let_def rbind_eq_Inr valid_attachment_def validate_url_iff
      dest: trimmed_field_Some split: if_splits option.splits)

lemma valid_url_nonempty: "valid_url url \<Longrightarrow> url \<noteq> []"
  by (auto simp: valid_url_def)

lemma valid_url_trim: "valid_url url \<Longrightarrow> trim url = url"
proof -
  assume v: "valid_url url"
  then have n: "\<not> contains_ws url" by (simp add: valid_url_def)
  have "\<not> starts_ws url"
    using n by (auto simp: contains_ws_def starts_ws_def list_ex_iff str_simps) (metis append_Nil)
  moreover have "\<not> ends_ws url"
    using n by (auto simp: contains_ws_def ends_ws_def list_ex_iff str_simps) (metis append_Nil2)
  ultimately show ?thesis by (rule trim_id)
qed

lemma valid_url_http: "valid_url url \<Longrightarrow> starts_with ''http'' url"
  unfolding valid_url_def by (auto dest!: split_once_Some)

lemma valid_url_not_secret: "valid_url url \<Longrightarrow> \<not> looks_like_secret url"
  using valid_url_http [of url] valid_url_trim [of url]
  by (auto simp: looks_like_secret_def starts_with_iff Let_def to_ascii_lower_def is_ascii_upper_def)

lemma valid_url_kept: "valid_url url \<Longrightarrow> d < MAX_DEPTH \<Longrightarrow> walk (JString url) d = (JString url, False)"
  by (simp add: walk.simps valid_url_not_secret bound_string_def valid_url_def MAX_URL_BYTES_def MAX_STRING_BYTES_def)

section \<open>Storage\<close>

lemma attachment_json_type: "get_str ''type'' (attachment_json a) = Some ''image_url''"
  by (cases "at_kind a") (auto simp: get_str_def attachment_json_def split: option.splits)

lemma attachment_json_url: "get_str ''url'' (attachment_json a) = Some (at_url a)"
  by (auto simp: get_str_def attachment_json_def split: option.splits)

lemma attachment_json_alt: "get_str ''alt'' (attachment_json a) = at_alt a"
  by (auto simp: get_str_def attachment_json_def split: option.splits)

lemma parse_one_attachment_json:
  assumes "valid_attachment a"
  shows "parse_one (attachment_json a) = Inr a"
proof -
  have url: "trimmed_field ''url'' (attachment_json a) = Some (at_url a)"
    using assms valid_url_trim valid_url_nonempty
    by (auto simp: trimmed_field_def attachment_json_url valid_attachment_def)
  have alt: "trimmed_field ''alt'' (attachment_json a) = at_alt a"
    using assms by (auto simp: trimmed_field_def attachment_json_alt valid_attachment_def split: option.splits)
  have ok: "validate_url (at_url a) = Inr ()"
    using assms by (simp add: validate_url_iff valid_attachment_def)
  have a: "\<lparr>at_kind = ImageUrl, at_url = at_url a, at_alt = at_alt a\<rparr> = a"
    by (cases a, cases "at_kind a") simp
  have len: "\<not> (case at_alt a of Some alt \<Rightarrow> length alt > MAX_ALT_BYTES | None \<Rightarrow> False)"
    using assms by (auto simp: valid_attachment_def not_less split: option.splits)
  show ?thesis
    by (simp add: parse_one_def attachment_json_type url alt ok len a)
qed

text \<open>What redaction does to one stored attachment: the label may be destroyed, the rest stays.\<close>

definition redact_alt :: "Attachment \<Rightarrow> Attachment" where
  "redact_alt a = (case at_alt a of
      Some alt \<Rightarrow> a\<lparr>at_alt := Some (if looks_like_secret alt then REDACTED else alt)\<rparr>
    | None \<Rightarrow> a)"

lemma attachment_keys:
  "\<not> is_secret_key ''alt''" "\<not> is_environment_key ''alt''"
  "\<not> is_secret_key ''type''" "\<not> is_environment_key ''type''"
  "\<not> is_secret_key ''url''" "\<not> is_environment_key ''url''"
  by (simp_all add: key_eval)

lemma walk_attachment_json:
  assumes "valid_attachment a" and "d + 1 < MAX_DEPTH"
  shows "fst (walk (attachment_json a) d) = attachment_json (redact_alt a)"
proof -
  have k: "at_kind a = ImageUrl" by (cases "at_kind a")
  have t: "walk (JString ''image_url'') (Suc d) = (JString ''image_url'', False)"
    using assms(2) by (simp add: walk.simps not_secret_if_short bound_string_def MAX_STRING_BYTES_def)
  have u: "walk (JString (at_url a)) (Suc d) = (JString (at_url a), False)"
    using assms by (intro valid_url_kept) (auto simp: valid_attachment_def)
  have alt: "fst (walk (JString alt) (Suc d)) = JString (if looks_like_secret alt then REDACTED else alt)"
    if "at_alt a = Some alt" for alt
    using that assms
    by (auto simp: walk.simps bound_string_def valid_attachment_def MAX_ALT_BYTES_def MAX_STRING_BYTES_def)
  show ?thesis
    using k t u alt assms(2)
    by (auto simp: attachment_json_def redact_alt_def walk.simps [of "JObject _"] attachment_keys SAFE_METADATA_KEY_def
        split: option.splits prod.splits)
qed

lemma redact_alt_valid: "valid_attachment a \<Longrightarrow> valid_attachment (redact_alt a)"
proof -
  have "trim REDACTED = REDACTED"
    by (rule trim_id; simp add: starts_ws_def ends_ws_def ends_with_def unicode_ws_def REDACTED_def)
  then show "valid_attachment a \<Longrightarrow> valid_attachment (redact_alt a)"
    by (auto simp: valid_attachment_def redact_alt_def REDACTED_def MAX_ALT_BYTES_def split: option.splits)
qed

lemma at_url_redact_alt [simp]: "at_url (redact_alt a) = at_url a"
  by (simp add: redact_alt_def split: option.splits)

lemma walk_items_attachments:
  assumes "list_all valid_attachment as" and "d + 1 < MAX_DEPTH"
  shows "fst (walk_items (map attachment_json as) d) = map attachment_json (map redact_alt as)"
  using assms(1)
proof (induction as)
  case (Cons a as)
  then show ?case using walk_attachment_json [of a d] assms(2) by (auto split: prod.splits)
qed simp

lemma map_result_attachment_json:
  "list_all valid_attachment as \<Longrightarrow> map_result parse_one (map attachment_json as) = Inr as"
  by (induction as) (auto simp: parse_one_attachment_json)

definition one_image :: Attachment where
  "one_image = \<lparr>at_kind = ImageUrl, at_url = ''https://h/i'', at_alt = Some ''sk-0123456789abcdef012345''\<rparr>"

lemma one_image_valid: "valid_attachment one_image"
proof -
  have "trim ''sk-0123456789abcdef012345'' = ''sk-0123456789abcdef012345''"
    by (rule trim_id; simp add: starts_ws_def ends_ws_def ends_with_def unicode_ws_def)
  then show ?thesis
    by (simp add: valid_attachment_def one_image_def valid_url_def MAX_URL_BYTES_def MAX_ALT_BYTES_def
        contains_ws_def unicode_ws_def url_authority_def)
qed

section \<open>Properties\<close>

text \<open>
  Every attachment the parser accepts is one the rest of the system may
  forward: at most four of them, each an absolute http or https URL of at most
  2048 bytes with a host, with no user information and no white space in it, and
  with a trimmed label of at most 200 bytes.
\<close>

theorem parse_accepts_only_valid:
  assumes "parse v = Inr as"
  shows "length as \<le> MAX_ATTACHMENTS \<and> list_all valid_attachment as"
proof -
  consider "as = []" | items where "as_array (the v) = Some items" "length items \<le> MAX_ATTACHMENTS"
      "map_result parse_one items = Inr as"
    using assms by (auto simp: parse_def not_less split: option.splits if_splits)
  then show ?thesis
  proof cases
    case 2
    then have all2: "list_all2 (\<lambda>x y. parse_one x = Inr y) items as" by (simp add: map_result_Inr)
    then have "list_all valid_attachment as"
      by (auto simp: list_all_length list_all2_conv_all_nth intro: parse_one_valid)
    with 2 all2 show ?thesis by (simp add: list_all2_lengthD)
  qed simp
qed

theorem parse_accepts_only_valid_witness:
  "parse (Some (JArray [attachment_json one_image])) = Inr [one_image] \<and> list_all valid_attachment [one_image]"
proof -
  have h: "parse (Some (JArray [attachment_json one_image])) = Inr [one_image]"
    by (simp add: parse_def MAX_ATTACHMENTS_def parse_one_attachment_json one_image_valid)
  from parse_accepts_only_valid [OF h] h show ?thesis by blast
qed

text \<open>
  Attachments survive storage: whatever else the request payload holds, what
  the registry keeps of valid attachments after redaction parses again when the run is executed, to the same URLs in the
  same order; only a label that itself looks like a token is replaced.
\<close>

theorem attachments_survive_storage:
  assumes "list_all valid_attachment as" and "length as \<le> MAX_ATTACHMENTS"
  shows "parse (json_get ''attachments''
           (red_value (redact (JObject ((''attachments'', JArray (map attachment_json as)) # rest))))) =
         Inr (map redact_alt as)"
proof -
  have key: "\<not> is_secret_key ''attachments''" "\<not> is_environment_key ''attachments''"
    by (simp_all add: key_eval)
  have items: "fst (walk_items (map attachment_json as) 2) = map attachment_json (map redact_alt as)"
    using walk_items_attachments [OF assms(1), of 2] by (simp add: MAX_DEPTH_def)
  have arr: "fst (walk (JArray (map attachment_json as)) 1) = JArray (map attachment_json (map redact_alt as))"
    using items by (auto simp: walk.simps MAX_DEPTH_def numeral_2_eq_2 split: prod.splits)
  have "json_get ''attachments''
      (red_value (redact (JObject ((''attachments'', JArray (map attachment_json as)) # rest)))) =
      Some (JArray (map attachment_json (map redact_alt as)))"
    using arr by (auto simp: redact_def walk.simps [of "JObject _"] MAX_DEPTH_def key SAFE_METADATA_KEY_def
        split: prod.splits)
  moreover have "list_all valid_attachment (map redact_alt as)"
    using assms(1) by (auto simp: list_all_iff redact_alt_valid)
  ultimately show ?thesis
    using assms(2) map_result_attachment_json [of "map redact_alt as"] by (simp add: parse_def)
qed


theorem attachments_survive_storage_witness:
  "list_all valid_attachment [one_image] \<and>
   parse (json_get ''attachments''
     (red_value (redact (JObject [(''attachments'', JArray [attachment_json one_image]), (''input'', JString ''hi'')])))) =
   Inr [redact_alt one_image]"
proof -
  have h: "list_all valid_attachment [one_image]" by (simp add: one_image_valid)
  from attachments_survive_storage [OF h, of "[(''input'', JString ''hi'')]"] h show ?thesis by (simp add: MAX_ATTACHMENTS_def)
qed

end
