(* ===== verification/Registry.thy ===== *)
theory Registry
  imports Redact Run_State Run_Policy
begin

text \<open>
  \<open>src/src/registry.rs\<close>: the durable run registry and the append-only event
  journal.  The SQLite tables \<open>runs\<close>, \<open>run_events\<close> and \<open>run_approvals\<close> are lists
  of rows in row-id order; each SQL statement of the source is the table
  operation it denotes, with the constraints of the migrations.  A transaction
  that fails is rolled back, so an error carries no new state.  The clock, the
  random run id and \<open>serde_json\<close> are arguments.
\<close>

section \<open>Rows and records\<close>

record RunRow =
  r_run_id :: string
  r_project_id :: string
  r_session_id :: "string option"
  r_idempotency_key :: "string option"
  r_runtime_kind :: string
  r_provider :: "string option"
  r_model :: "string option"
  r_status :: string
  r_created_at :: int
  r_started_at :: "int option"
  r_updated_at :: int
  r_finished_at :: "int option"
  r_last_event_seq :: int
  r_terminal_reason :: "string option"
  r_error_code :: "string option"
  r_error_message :: "string option"
  r_hermes_run_id :: "string option"
  r_request_payload :: string
  r_result_payload :: "string option"
  r_recovery_note :: "string option"
  r_request_fingerprint :: string
  r_retry_of_run_id :: "string option"
  r_approval_policy :: string
  r_policy_enabled_by :: "string option"
  r_policy_enabled_at :: "int option"
  r_policy_updated_at :: "int option"

record RunRecord =
  run_id :: string
  project_id :: string
  session_id :: "string option"
  idempotency_key :: "string option"
  runtime_kind :: string
  provider :: "string option"
  model :: "string option"
  status :: string
  created_at :: int
  started_at :: "int option"
  updated_at :: int
  finished_at :: "int option"
  last_event_seq :: int
  terminal_reason :: "string option"
  error_code :: "string option"
  error_message :: "string option"
  hermes_run_id :: "string option"
  request_payload :: json
  result_payload :: "json option"
  recovery_note :: "string option"
  retry_of_run_id :: "string option"

record NewRun =
  n_project_id :: string
  n_session_id :: "string option"
  n_idempotency_key :: "string option"
  n_runtime_kind :: string
  n_provider :: "string option"
  n_model :: "string option"
  n_request_payload :: json
  n_retry_of_run_id :: "string option"

datatype RunCreation = NewlyCreated RunRecord | Existing RunRecord

fun creation_record :: "RunCreation \<Rightarrow> RunRecord" where
  "creation_record (NewlyCreated r) = r"
| "creation_record (Existing r) = r"

fun creation_is_new :: "RunCreation \<Rightarrow> bool" where
  "creation_is_new (NewlyCreated _) = True"
| "creation_is_new (Existing _) = False"

record RunUpdate =
  u_status :: "RunStatus option"
  u_hermes_run_id :: "string option"
  u_terminal_reason :: "string option"
  u_error_code :: "string option"
  u_error_message :: "string option"
  u_result_payload :: "json option"
  u_recovery_note :: "string option"

definition update_default :: RunUpdate where
  "update_default =
     \<lparr>u_status = None, u_hermes_run_id = None, u_terminal_reason = None, u_error_code = None,
      u_error_message = None, u_result_payload = None, u_recovery_note = None\<rparr>"

definition update_status :: "RunStatus \<Rightarrow> RunUpdate" where
  "update_status s = update_default\<lparr>u_status := Some s\<rparr>"

definition with_hermes_run_id :: "string \<Rightarrow> RunUpdate \<Rightarrow> RunUpdate" where
  "with_hermes_run_id i u = u\<lparr>u_hermes_run_id := Some i\<rparr>"

definition with_error :: "string \<Rightarrow> string \<Rightarrow> RunUpdate \<Rightarrow> RunUpdate" where
  "with_error code message u = u\<lparr>u_error_code := Some code, u_error_message := Some message\<rparr>"

definition with_terminal_reason :: "string \<Rightarrow> RunUpdate \<Rightarrow> RunUpdate" where
  "with_terminal_reason reason u = u\<lparr>u_terminal_reason := Some reason\<rparr>"

definition with_result :: "json \<Rightarrow> RunUpdate \<Rightarrow> RunUpdate" where
  "with_result payload u = u\<lparr>u_result_payload := Some payload\<rparr>"

definition with_recovery_note :: "string \<Rightarrow> RunUpdate \<Rightarrow> RunUpdate" where
  "with_recovery_note note_text u = u\<lparr>u_recovery_note := Some note_text\<rparr>"

record JournalEvent =
  j_event_type :: string
  j_source :: string
  j_payload :: json
  j_raw :: "json option"
  j_dedupe_key :: "string option"

definition SOURCE_ASTERISM :: string where "SOURCE_ASTERISM = ''asterism''"
definition SOURCE_HERMES :: string where "SOURCE_HERMES = ''hermes''"

definition journal_asterism :: "string \<Rightarrow> json \<Rightarrow> JournalEvent" where
  "journal_asterism event_type payload =
     \<lparr>j_event_type = event_type, j_source = SOURCE_ASTERISM, j_payload = payload,
      j_raw = None, j_dedupe_key = None\<rparr>"

record EventRow =
  e_run_id :: string
  e_seq :: int
  e_event_type :: string
  e_recorded_at :: int
  e_source :: string
  e_payload :: string
  e_raw_payload :: "string option"
  e_redacted :: bool
  e_dedupe_key :: "string option"

record StoredEvent =
  se_run_id :: string
  se_seq :: int
  se_event_type :: string
  se_recorded_at :: int
  se_source :: string
  se_payload :: json
  se_raw_payload :: "json option"
  se_redacted :: bool

datatype AppendOutcome = Appended int | Duplicate int

fun outcome_seq :: "AppendOutcome \<Rightarrow> int" where
  "outcome_seq (Appended s) = s"
| "outcome_seq (Duplicate s) = s"

record ApprovalRow =
  a_run_id :: string
  a_request_seq :: int
  a_requested_at :: int
  a_command :: "string option"
  a_choices :: "string option"
  a_decision :: "string option"
  a_decided_at :: "int option"
  a_resolution_seq :: "int option"

record Registry =
  runs :: "RunRow list"
  run_events :: "EventRow list"
  run_approvals :: "ApprovalRow list"

definition empty_registry :: Registry where
  "empty_registry = \<lparr>runs = [], run_events = [], run_approvals = []\<rparr>"

datatype registry_error =
    IdempotencyConflict string string string
  | UnknownRun string
  | UnknownRunForEvent string
  | BadTransition InvalidTransition
  | CorruptStatus status_error
  | CorruptPolicy policy_error
  | TerminalPolicy string
  | ConstraintViolation string

section \<open>Fingerprints\<close>

definition FNV_OFFSET :: "64 word" where "FNV_OFFSET = 0xcbf29ce484222325"
definition FNV_PRIME :: "64 word" where "FNV_PRIME = 0x100000001b3"

definition fnv1a :: "string \<Rightarrow> 64 word" where
  "fnv1a bytes =
     foldl (\<lambda>hash byte. (xor hash (of_nat (of_char byte))) * FNV_PRIME) FNV_OFFSET bytes"

definition fingerprint_value :: "codec \<Rightarrow> json \<Rightarrow> string" where
  "fingerprint_value cdc v = show_hex 16 (unat (fnv1a (to_string cdc v)))"

definition request_fingerprint :: "codec \<Rightarrow> NewRun \<Rightarrow> string" where
  "request_fingerprint cdc request =
     fingerprint_value cdc (json_object
       [(''project_id'', JString (n_project_id request)),
        (''session_id'', json_of_opt (n_session_id request)),
        (''runtime_kind'', JString (n_runtime_kind request)),
        (''request'', red_value (redact (n_request_payload request)))])"

section \<open>Loading\<close>

definition from_str_or_null :: "codec \<Rightarrow> string \<Rightarrow> json" where
  "from_str_or_null cdc s = (case from_str cdc s of Some v \<Rightarrow> v | None \<Rightarrow> JNull)"

definition map_run :: "codec \<Rightarrow> RunRow \<Rightarrow> RunRecord" where
  "map_run cdc r =
     \<lparr>run_id = r_run_id r, project_id = r_project_id r, session_id = r_session_id r,
      idempotency_key = r_idempotency_key r, runtime_kind = r_runtime_kind r,
      provider = r_provider r, model = r_model r, status = r_status r,
      created_at = r_created_at r, started_at = r_started_at r, updated_at = r_updated_at r,
      finished_at = r_finished_at r, last_event_seq = r_last_event_seq r,
      terminal_reason = r_terminal_reason r, error_code = r_error_code r,
      error_message = r_error_message r, hermes_run_id = r_hermes_run_id r,
      request_payload = from_str_or_null cdc (r_request_payload r),
      result_payload = Option.bind (r_result_payload r) (from_str cdc),
      recovery_note = r_recovery_note r, retry_of_run_id = r_retry_of_run_id r\<rparr>"

definition map_event :: "codec \<Rightarrow> EventRow \<Rightarrow> StoredEvent" where
  "map_event cdc e =
     \<lparr>se_run_id = e_run_id e, se_seq = e_seq e, se_event_type = e_event_type e,
      se_recorded_at = e_recorded_at e, se_source = e_source e,
      se_payload = from_str_or_null cdc (e_payload e),
      se_raw_payload = Option.bind (e_raw_payload e) (from_str cdc),
      se_redacted = e_redacted e\<rparr>"

abbreviation run_row :: "string \<Rightarrow> Registry \<Rightarrow> RunRow option" where
  "run_row rid reg \<equiv> row_by r_run_id rid (runs reg)"

definition load_run :: "codec \<Rightarrow> string \<Rightarrow> Registry \<Rightarrow> RunRecord option" where
  "load_run cdc rid reg = map_option (map_run cdc) (run_row rid reg)"

definition record_status :: "RunRecord \<Rightarrow> (status_error, RunStatus) result" where
  "record_status r = run_status_parse (status r)"

definition run_by_hermes_id :: "codec \<Rightarrow> string \<Rightarrow> Registry \<Rightarrow> RunRecord option" where
  "run_by_hermes_id cdc hid reg =
     (case find (\<lambda>r. r_hermes_run_id r = Some hid) (runs reg) of
        Some r \<Rightarrow> load_run cdc (r_run_id r) reg
      | None \<Rightarrow> None)"

text \<open>\<open>LIMIT n\<close>: SQLite treats a negative limit as no limit.\<close>

definition sql_limit :: "int \<Rightarrow> 'a list \<Rightarrow> 'a list" where
  "sql_limit n xs = (if n < 0 then xs else take (nat n) xs)"

definition list_runs :: "codec \<Rightarrow> string \<Rightarrow> int \<Rightarrow> Registry \<Rightarrow> RunRecord list" where
  "list_runs cdc pid n reg =
     (let ids = map r_run_id (sql_limit n
            (rev (sort_key r_created_at (filter (\<lambda>r. r_project_id r = pid) (runs reg)))))
      in List.map_filter (\<lambda>i. load_run cdc i reg) ids)"

definition active_runs :: "codec \<Rightarrow> string \<Rightarrow> Registry \<Rightarrow> RunRecord list" where
  "active_runs cdc pid reg =
     rev (filter (\<lambda>r. case record_status r of Inr s \<Rightarrow> is_active s | Inl _ \<Rightarrow> False)
            (list_runs cdc pid 1000 reg))"

section \<open>Creating runs\<close>

definition find_idempotent :: "NewRun \<Rightarrow> Registry \<Rightarrow> RunRow option" where
  "find_idempotent request reg =
     (case n_idempotency_key request of
        None \<Rightarrow> None
      | Some key \<Rightarrow> find (\<lambda>r. r_project_id r = n_project_id request \<and>
                             r_idempotency_key r = Some key) (runs reg))"

definition new_row :: "codec \<Rightarrow> int \<Rightarrow> string \<Rightarrow> NewRun \<Rightarrow> RunRow" where
  "new_row cdc now fresh request =
     \<lparr>r_run_id = fresh, r_project_id = n_project_id request,
      r_session_id = n_session_id request, r_idempotency_key = n_idempotency_key request,
      r_runtime_kind = n_runtime_kind request, r_provider = n_provider request,
      r_model = n_model request, r_status = run_status_as_str Created,
      r_created_at = now, r_started_at = None, r_updated_at = now, r_finished_at = None,
      r_last_event_seq = 0, r_terminal_reason = None, r_error_code = None,
      r_error_message = None, r_hermes_run_id = None,
      r_request_payload = to_string cdc (red_value (redact (n_request_payload request))),
      r_result_payload = None, r_recovery_note = None,
      r_request_fingerprint = request_fingerprint cdc request,
      r_retry_of_run_id = n_retry_of_run_id request,
      r_approval_policy = policy_as_str Manual, r_policy_enabled_by = None,
      r_policy_enabled_at = None, r_policy_updated_at = None\<rparr>"

definition create_run ::
  "codec \<Rightarrow> int \<Rightarrow> string \<Rightarrow> NewRun \<Rightarrow> Registry \<Rightarrow> (registry_error, RunCreation \<times> Registry) result" where
  "create_run cdc now fresh request reg =
     (case find_idempotent request reg of
        Some row \<Rightarrow>
          if r_request_fingerprint row \<noteq> request_fingerprint cdc request then
            Inl (IdempotencyConflict (n_project_id request) (the (n_idempotency_key request)) (r_run_id row))
          else (case load_run cdc (r_run_id row) reg of
              None \<Rightarrow> Inl (UnknownRun (r_run_id row))
            | Some rec \<Rightarrow> Inr (Existing rec, reg))
      | None \<Rightarrow>
          if run_row fresh reg \<noteq> None then Inl (ConstraintViolation ''runs.run_id'')
          else if (case n_retry_of_run_id request of Some p \<Rightarrow> run_row p reg = None | None \<Rightarrow> False)
          then Inl (ConstraintViolation ''runs.retry_of_run_id'')
          else
            let row = new_row cdc now fresh request
            in Inr (NewlyCreated (map_run cdc row), reg\<lparr>runs := runs reg @ [row]\<rparr>))"

section \<open>Changing runs\<close>

text \<open>The \<open>UPDATE runs SET ...\<close> of \<open>apply_update\<close>, for the row it selects.\<close>

definition updated_row :: "codec \<Rightarrow> int \<Rightarrow> RunUpdate \<Rightarrow> RunStatus \<Rightarrow> RunRow \<Rightarrow> RunRow" where
  "updated_row cdc now u target r =
     r\<lparr>r_status := run_status_as_str target,
       r_updated_at := now,
       r_started_at := (if r_started_at r = None \<and> target \<in> {Starting, Running} then Some now else r_started_at r),
       r_finished_at := (if is_terminal target then coalesce (r_finished_at r) (Some now) else r_finished_at r),
       r_hermes_run_id := coalesce (u_hermes_run_id u) (r_hermes_run_id r),
       r_terminal_reason := coalesce (u_terminal_reason u) (r_terminal_reason r),
       r_error_code := coalesce (u_error_code u) (r_error_code r),
       r_error_message := coalesce (u_error_message u) (r_error_message r),
       r_result_payload := coalesce (map_option (\<lambda>v. to_string cdc (red_value (redact v))) (u_result_payload u))
                             (r_result_payload r),
       r_recovery_note := coalesce (u_recovery_note u) (r_recovery_note r)\<rparr>"

definition apply_update ::
  "codec \<Rightarrow> int \<Rightarrow> string \<Rightarrow> RunUpdate \<Rightarrow> Registry \<Rightarrow> (registry_error, Registry) result" where
  "apply_update cdc now rid u reg =
     (case run_row rid reg of
        None \<Rightarrow> Inl (UnknownRun rid)
      | Some row \<Rightarrow>
          (case run_status_parse (r_status row) of
             Inl e \<Rightarrow> Inl (CorruptStatus e)
           | Inr current \<Rightarrow>
               let target = (case u_status u of Some s \<Rightarrow> s | None \<Rightarrow> current) in
               (case validate_transition current target of
                  Inl e \<Rightarrow> Inl (BadTransition e)
                | Inr _ \<Rightarrow>
                    if (\<exists>r \<in> set (runs reg). r_run_id r \<noteq> rid \<and> u_hermes_run_id u \<noteq> None \<and>
                          r_hermes_run_id r = u_hermes_run_id u)
                    then Inl (ConstraintViolation ''runs.hermes_run_id'')
                    else Inr (reg\<lparr>runs := update_where (\<lambda>r. r_run_id r = rid)
                                            (updated_row cdc now u target) (runs reg)\<rparr>))))"

definition update_run ::
  "codec \<Rightarrow> int \<Rightarrow> string \<Rightarrow> RunUpdate \<Rightarrow> Registry \<Rightarrow> (registry_error, RunRecord \<times> Registry) result" where
  "update_run cdc now rid u reg =
     rbind (apply_update cdc now rid u reg) (\<lambda>reg'.
       rbind (ok_or (UnknownRun rid) (load_run cdc rid reg')) (\<lambda>rec. Inr (rec, reg')))"

section \<open>The journal\<close>

text \<open>The row \<open>append_event\<close> inserts, and the insertion together with the counter update.\<close>

definition event_row :: "codec \<Rightarrow> int \<Rightarrow> string \<Rightarrow> int \<Rightarrow> JournalEvent \<Rightarrow> EventRow" where
  "event_row cdc now rid next_seq ev =
     (let payload = redact (j_payload ev);
          raw_encoded = Option.bind (j_raw ev) (bounded_raw cdc)
      in \<lparr>e_run_id = rid, e_seq = next_seq, e_event_type = j_event_type ev,
          e_recorded_at = now, e_source = j_source ev,
          e_payload = to_string cdc (red_value payload), e_raw_payload = raw_encoded,
          e_redacted = (red_modified payload \<or> (j_raw ev \<noteq> None \<and> raw_encoded = None)),
          e_dedupe_key = j_dedupe_key ev\<rparr>)"

definition insert_event :: "codec \<Rightarrow> (nat \<Rightarrow> int) \<Rightarrow> string \<Rightarrow> int \<Rightarrow> JournalEvent \<Rightarrow> Registry \<Rightarrow> Registry" where
  "insert_event cdc now rid next_seq ev reg =
     reg\<lparr>run_events := run_events reg @ [event_row cdc (now 0) rid next_seq ev],
         runs := update_where (\<lambda>r. r_run_id r = rid)
                   (\<lambda>r. r\<lparr>r_last_event_seq := next_seq, r_updated_at := now 1\<rparr>) (runs reg)\<rparr>"

definition find_duplicate :: "string \<Rightarrow> JournalEvent \<Rightarrow> Registry \<Rightarrow> EventRow option" where
  "find_duplicate rid ev reg =
     (case j_dedupe_key ev of
        None \<Rightarrow> None
      | Some key \<Rightarrow> find (\<lambda>e. e_run_id e = rid \<and> e_dedupe_key e = Some key) (run_events reg))"

definition append_event ::
  "codec \<Rightarrow> (nat \<Rightarrow> int) \<Rightarrow> string \<Rightarrow> JournalEvent \<Rightarrow> RunUpdate option \<Rightarrow> Registry
     \<Rightarrow> (registry_error, AppendOutcome \<times> Registry) result" where
  "append_event cdc now rid ev upd reg =
     (case run_row rid reg of
        None \<Rightarrow> Inl (UnknownRunForEvent rid)
      | Some row \<Rightarrow>
          (case find_duplicate rid ev reg of
             Some e \<Rightarrow> Inr (Duplicate (e_seq e), reg)
           | None \<Rightarrow>
               let next_seq = r_last_event_seq row + 1;
                   reg1 = insert_event cdc now rid next_seq ev reg
               in if (\<exists>x \<in> set (run_events reg). e_run_id x = rid \<and> e_seq x = next_seq)
                  then Inl (ConstraintViolation ''run_events'')
                  else case upd of
                      None \<Rightarrow> Inr (Appended next_seq, reg1)
                    | Some u \<Rightarrow> rbind (apply_update cdc (now 2) rid u reg1) (\<lambda>reg2. Inr (Appended next_seq, reg2))))"

definition events_since :: "codec \<Rightarrow> string \<Rightarrow> int \<Rightarrow> int \<Rightarrow> Registry \<Rightarrow> StoredEvent list" where
  "events_since cdc rid after_seq n reg =
     map (map_event cdc) (sql_limit n
       (sort_key e_seq (filter (\<lambda>e. e_run_id e = rid \<and> e_seq e > after_seq) (run_events reg))))"

section \<open>Approvals\<close>

definition record_approval_request ::
  "codec \<Rightarrow> int \<Rightarrow> string \<Rightarrow> int \<Rightarrow> string option \<Rightarrow> json option \<Rightarrow> Registry
     \<Rightarrow> (registry_error, Registry) result" where
  "record_approval_request cdc now rid request_seq command choices reg =
     (if (\<exists>a \<in> set (run_approvals reg). a_run_id a = rid \<and> a_request_seq a = request_seq) then Inr reg
      else if run_row rid reg = None then Inl (ConstraintViolation ''run_approvals.run_id'')
      else Inr (reg\<lparr>run_approvals := run_approvals reg @
             [\<lparr>a_run_id = rid, a_request_seq = request_seq, a_requested_at = now, a_command = command,
               a_choices = map_option (to_string cdc) choices, a_decision = None, a_decided_at = None,
               a_resolution_seq = None\<rparr>]\<rparr>))"

definition undecided :: "string \<Rightarrow> int \<Rightarrow> ApprovalRow \<Rightarrow> bool" where
  "undecided rid request_seq a \<longleftrightarrow> a_run_id a = rid \<and> a_request_seq a = request_seq \<and> a_decision a = None"

definition record_approval_decision ::
  "int \<Rightarrow> string \<Rightarrow> int \<Rightarrow> string \<Rightarrow> Registry \<Rightarrow> bool \<times> Registry" where
  "record_approval_decision now rid request_seq decision reg =
     (count_where (undecided rid request_seq) (run_approvals reg) = 1,
      reg\<lparr>run_approvals := update_where (undecided rid request_seq)
             (\<lambda>a. a\<lparr>a_decision := Some decision, a_decided_at := Some now\<rparr>) (run_approvals reg)\<rparr>)"

definition record_approval_resolution :: "string \<Rightarrow> int \<Rightarrow> int \<Rightarrow> Registry \<Rightarrow> Registry" where
  "record_approval_resolution rid request_seq resolution_seq reg =
     reg\<lparr>run_approvals := update_where (\<lambda>a. a_run_id a = rid \<and> a_request_seq a = request_seq)
            (\<lambda>a. a\<lparr>a_resolution_seq := Some resolution_seq\<rparr>) (run_approvals reg)\<rparr>"

definition approvals :: "string \<Rightarrow> Registry \<Rightarrow> ApprovalRow list" where
  "approvals rid reg = sort_key a_request_seq (filter (\<lambda>a. a_run_id a = rid) (run_approvals reg))"

definition pending_approval :: "string \<Rightarrow> Registry \<Rightarrow> ApprovalRow option" where
  "pending_approval rid reg =
     (case rev (filter (\<lambda>a. a_decision a = None) (approvals rid reg)) of
        [] \<Rightarrow> None
      | a # _ \<Rightarrow> Some a)"

section \<open>The approval policy of a run\<close>

definition run_approval_policy :: "string \<Rightarrow> Registry \<Rightarrow> (registry_error, RunPolicyState) result" where
  "run_approval_policy rid reg =
     (case run_row rid reg of
        None \<Rightarrow> Inr run_policy_default
      | Some r \<Rightarrow>
          (case policy_parse (r_approval_policy r) of
             Inl e \<Rightarrow> Inl (CorruptPolicy e)
           | Inr p \<Rightarrow> Inr \<lparr>rp_policy = p, rp_enabled_by = r_policy_enabled_by r,
                           rp_enabled_at = r_policy_enabled_at r, rp_updated_at = r_policy_updated_at r\<rparr>))"

definition policy_row :: "int \<Rightarrow> RunApprovalPolicy \<Rightarrow> string option \<Rightarrow> RunRow \<Rightarrow> RunRow" where
  "policy_row now policy actor r =
     r\<lparr>r_approval_policy := policy_as_str policy,
       r_policy_enabled_by := (if bypasses_approval policy then actor else None),
       r_policy_enabled_at := (if bypasses_approval policy then Some now else None),
       r_policy_updated_at := Some now\<rparr>"

definition set_run_approval_policy ::
  "codec \<Rightarrow> int \<Rightarrow> string \<Rightarrow> RunApprovalPolicy \<Rightarrow> string option \<Rightarrow> Registry
     \<Rightarrow> (registry_error, bool \<times> Registry) result" where
  "set_run_approval_policy cdc now rid policy actor reg =
     (case load_run cdc rid reg of
        None \<Rightarrow> Inl (UnknownRun rid)
      | Some record \<Rightarrow>
          (case record_status record of
             Inl e \<Rightarrow> Inl (CorruptStatus e)
           | Inr s \<Rightarrow>
               if is_terminal s then Inl (TerminalPolicy rid)
               else rbind (run_approval_policy rid reg) (\<lambda>current.
                 if rp_policy current = policy then Inr (False, reg)
                 else Inr (True, reg\<lparr>runs := update_where (\<lambda>r. r_run_id r = rid)
                                        (policy_row now policy actor) (runs reg)\<rparr>))))"

section \<open>Migration\<close>

definition SCHEMA_VERSION :: int where "SCHEMA_VERSION = 11"

datatype migrate_error = NewerSchema int | NoMigration int

text \<open>The data repair of migration 2; the other migrations only add columns and tables.\<close>

definition migration_002_note :: string where
  "migration_002_note = ''reclassified by schema v2: interrupted and lost are terminal states''"

definition migration_002 :: "RunRow list \<Rightarrow> RunRow list" where
  "migration_002 rows =
     update_where (\<lambda>r. r_status r \<in> {''interrupted'', ''lost''} \<and> r_finished_at r = None)
       (\<lambda>r. r\<lparr>r_finished_at := coalesce (r_finished_at r) (Some (r_updated_at r)),
              r_recovery_note := coalesce (r_recovery_note r) (Some migration_002_note)\<rparr>) rows"

definition apply_migration :: "int \<Rightarrow> Registry \<Rightarrow> (migrate_error, Registry) result" where
  "apply_migration version reg =
     (if version = 2 then Inr (reg\<lparr>runs := migration_002 (runs reg)\<rparr>)
      else if 1 \<le> version \<and> version \<le> 11 then Inr reg
      else Inl (NoMigration version))"

function migrate_from :: "int \<Rightarrow> Registry \<Rightarrow> (migrate_error, int \<times> Registry) result" where
  "migrate_from version reg =
     (if version < SCHEMA_VERSION then
        rbind (apply_migration (version + 1) reg) (\<lambda>reg'. migrate_from (version + 1) reg')
      else Inr (version, reg))"
  by pat_completeness auto
termination
  by (relation "measure (\<lambda>(v, _). nat (SCHEMA_VERSION - v))") auto

declare migrate_from.simps [simp del]

definition migrate :: "int option \<Rightarrow> Registry \<Rightarrow> (migrate_error, int \<times> Registry) result" where
  "migrate current reg =
     (let version = (case current of Some v \<Rightarrow> v | None \<Rightarrow> 0) in
      if version > SCHEMA_VERSION then Inl (NewerSchema version)
      else migrate_from version reg)"

end
