(* ===== verification/Registry_Inv.thy ===== *)
theory Registry_Inv
  imports Registry
begin

text \<open>
  The invariant of the registry's tables (\<open>src/src/registry.rs\<close>) and that every
  operation keeps it: keys, the status and finish time of a run, the journal as a
  gap-free sequence per run, approvals, and the stored text.
\<close>

section \<open>The invariant\<close>

definition events_of :: "string \<Rightarrow> Registry \<Rightarrow> EventRow list" where
  "events_of rid reg = filter (\<lambda>e. e_run_id e = rid) (run_events reg)"

text \<open>One run row: a known status, finished exactly when terminal, a known policy.\<close>

definition row_ok :: "RunRow \<Rightarrow> bool" where
  "row_ok r \<longleftrightarrow>
     (\<exists>s. r_status r = run_status_as_str s \<and> (r_finished_at r \<noteq> None \<longleftrightarrow> is_terminal s)) \<and>
     (\<exists>p. r_approval_policy r = policy_as_str p \<and> (r_policy_enabled_by r \<noteq> None \<longrightarrow> bypasses_approval p))"

definition dedupe_ok :: "EventRow list \<Rightarrow> bool" where
  "dedupe_ok es \<longleftrightarrow> (\<forall>e \<in> set es. \<forall>e' \<in> set es.
     e_run_id e = e_run_id e' \<longrightarrow> e_dedupe_key e \<noteq> None \<longrightarrow> e_dedupe_key e = e_dedupe_key e' \<longrightarrow> e_seq e = e_seq e')"

definition journal_ok :: "Registry \<Rightarrow> bool" where
  "journal_ok reg \<longleftrightarrow>
     (\<forall>r \<in> set (runs reg). 0 \<le> r_last_event_seq r \<and>
        map e_seq (events_of (r_run_id r) reg) = [1..r_last_event_seq r]) \<and>
     (\<forall>e \<in> set (run_events reg). e_run_id e \<in> r_run_id ` set (runs reg)) \<and>
     dedupe_ok (run_events reg)"

definition keys_ok :: "Registry \<Rightarrow> bool" where
  "keys_ok reg \<longleftrightarrow>
     distinct (map r_run_id (runs reg)) \<and>
     (\<forall>r \<in> set (runs reg). \<forall>r' \<in> set (runs reg).
        r_project_id r = r_project_id r' \<longrightarrow> r_idempotency_key r \<noteq> None \<longrightarrow>
        r_idempotency_key r = r_idempotency_key r' \<longrightarrow> r_run_id r = r_run_id r') \<and>
     (\<forall>r \<in> set (runs reg). \<forall>r' \<in> set (runs reg).
        r_hermes_run_id r \<noteq> None \<longrightarrow> r_hermes_run_id r = r_hermes_run_id r' \<longrightarrow> r_run_id r = r_run_id r') \<and>
     (\<forall>r \<in> set (runs reg). \<forall>p. r_retry_of_run_id r = Some p \<longrightarrow> p \<in> r_run_id ` set (runs reg))"

definition approvals_ok :: "Registry \<Rightarrow> bool" where
  "approvals_ok reg \<longleftrightarrow>
     distinct (map (\<lambda>a. (a_run_id a, a_request_seq a)) (run_approvals reg)) \<and>
     (\<forall>a \<in> set (run_approvals reg). a_run_id a \<in> r_run_id ` set (runs reg) \<and>
        (a_decision a = None \<longleftrightarrow> a_decided_at a = None))"

text \<open>Every stored JSON text is the encoding of a redacted value.\<close>

definition clean_text :: "codec \<Rightarrow> string \<Rightarrow> bool" where
  "clean_text cdc s \<longleftrightarrow> (\<exists>v. s = to_string cdc v \<and> clean v)"

definition texts_ok :: "codec \<Rightarrow> Registry \<Rightarrow> bool" where
  "texts_ok cdc reg \<longleftrightarrow>
     (\<forall>r \<in> set (runs reg). clean_text cdc (r_request_payload r) \<and>
        (\<forall>t. r_result_payload r = Some t \<longrightarrow> clean_text cdc t)) \<and>
     (\<forall>e \<in> set (run_events reg). clean_text cdc (e_payload e) \<and>
        (\<forall>t. e_raw_payload e = Some t \<longrightarrow> clean_text cdc t \<and> length t \<le> MAX_RAW_PAYLOAD_BYTES))"

definition reg_inv :: "codec \<Rightarrow> Registry \<Rightarrow> bool" where
  "reg_inv cdc reg \<longleftrightarrow>
     keys_ok reg \<and> (\<forall>r \<in> set (runs reg). row_ok r) \<and> journal_ok reg \<and> approvals_ok reg \<and> texts_ok cdc reg"

lemma reg_inv_empty: "reg_inv cdc empty_registry"
  by (simp add: reg_inv_def keys_ok_def journal_ok_def dedupe_ok_def approvals_ok_def texts_ok_def empty_registry_def)

lemma clean_text_redact: "clean_text cdc (to_string cdc (red_value (redact v)))"
  using walk_clean(1) [of v 0] by (auto simp: clean_text_def redact_def split: prod.splits)

lemma bounded_raw_Some:
  "bounded_raw cdc v = Some t \<Longrightarrow> clean_text cdc t \<and> length t \<le> MAX_RAW_PAYLOAD_BYTES"
  using clean_text_redact [of cdc v] by (auto simp: bounded_raw_def Let_def split: if_splits)

lemma run_row_None: "run_row rid reg = None \<longleftrightarrow> rid \<notin> r_run_id ` set (runs reg)"
  by (rule row_by_None)

lemma run_row_unique:
  "keys_ok reg \<Longrightarrow> run_row rid reg = Some r \<longleftrightarrow> r \<in> set (runs reg) \<and> r_run_id r = rid"
  by (rule row_by_Some_iff) (simp add: keys_ok_def)

text \<open>Which tables a part of the invariant reads.\<close>

lemma keys_ok_cong: "runs a = runs b \<Longrightarrow> keys_ok a = keys_ok b"
  by (simp only: keys_ok_def)

lemma journal_ok_cong: "runs a = runs b \<Longrightarrow> run_events a = run_events b \<Longrightarrow> journal_ok a = journal_ok b"
  by (simp only: journal_ok_def events_of_def)

lemma approvals_ok_cong:
  "runs a = runs b \<Longrightarrow> run_approvals a = run_approvals b \<Longrightarrow> approvals_ok a = approvals_ok b"
  by (simp only: approvals_ok_def)

lemma texts_ok_cong:
  "runs a = runs b \<Longrightarrow> run_events a = run_events b \<Longrightarrow> texts_ok cdc a = texts_ok cdc b"
  by (simp only: texts_ok_def)

lemma keys_okI:
  assumes "distinct (map r_run_id (runs reg))"
    and "\<And>r r'. r \<in> set (runs reg) \<Longrightarrow> r' \<in> set (runs reg) \<Longrightarrow> r_project_id r = r_project_id r' \<Longrightarrow>
      r_idempotency_key r \<noteq> None \<Longrightarrow> r_idempotency_key r = r_idempotency_key r' \<Longrightarrow> r_run_id r = r_run_id r'"
    and "\<And>r r'. r \<in> set (runs reg) \<Longrightarrow> r' \<in> set (runs reg) \<Longrightarrow> r_hermes_run_id r \<noteq> None \<Longrightarrow>
      r_hermes_run_id r = r_hermes_run_id r' \<Longrightarrow> r_run_id r = r_run_id r'"
    and "\<And>r p. r \<in> set (runs reg) \<Longrightarrow> r_retry_of_run_id r = Some p \<Longrightarrow> p \<in> r_run_id ` set (runs reg)"
  shows "keys_ok reg"
  unfolding keys_ok_def using assms by (intro conjI ballI impI allI) assumption+

lemma keys_hermesD:
  "keys_ok reg \<Longrightarrow> r \<in> set (runs reg) \<Longrightarrow> r' \<in> set (runs reg) \<Longrightarrow> r_hermes_run_id r \<noteq> None \<Longrightarrow>
     r_hermes_run_id r = r_hermes_run_id r' \<Longrightarrow> r_run_id r = r_run_id r'"
  unfolding keys_ok_def by blast

lemma keys_idempotencyD:
  "keys_ok reg \<Longrightarrow> r \<in> set (runs reg) \<Longrightarrow> r' \<in> set (runs reg) \<Longrightarrow> r_project_id r = r_project_id r' \<Longrightarrow>
     r_idempotency_key r \<noteq> None \<Longrightarrow> r_idempotency_key r = r_idempotency_key r' \<Longrightarrow> r_run_id r = r_run_id r'"
  unfolding keys_ok_def by blast

lemma row_ok_parse: "row_ok r \<Longrightarrow> \<exists>s. run_status_parse (r_status r) = Inr s"
  by (auto simp: row_ok_def run_status.parse_as_str)

section \<open>Row updates\<close>

text \<open>
  Three operations rewrite the row of one run: a status update, the sequence
  counter, and the policy.  All of them keep the columns the keys and the stored
  request depend on.
\<close>

definition keeps_identity :: "(RunRow \<Rightarrow> RunRow) \<Rightarrow> bool" where
  "keeps_identity f \<longleftrightarrow> (\<forall>r. r_run_id (f r) = r_run_id r \<and> r_project_id (f r) = r_project_id r \<and>
     r_idempotency_key (f r) = r_idempotency_key r \<and> r_retry_of_run_id (f r) = r_retry_of_run_id r \<and>
     r_request_payload (f r) = r_request_payload r \<and> r_created_at (f r) = r_created_at r \<and>
     r_request_fingerprint (f r) = r_request_fingerprint r)"

lemma keeps_identity_updated_row [simp]: "keeps_identity (updated_row cdc now u target)"
  by (simp add: keeps_identity_def updated_row_def)

lemma run_ids_update [simp]:
  assumes "keeps_identity f"
  shows "map r_run_id (update_where p f t) = map r_run_id t"
  using assms by (intro map_key_update_where) (simp add: keeps_identity_def)

lemma run_id_set_update [simp]:
  "keeps_identity f \<Longrightarrow> r_run_id ` set (update_where p f t) = r_run_id ` set t"
  using run_ids_update by (metis list.set_map)

abbreviation upd_run :: "string \<Rightarrow> (RunRow \<Rightarrow> RunRow) \<Rightarrow> Registry \<Rightarrow> Registry" where
  "upd_run rid f reg \<equiv> reg\<lparr>runs := update_where (\<lambda>r. r_run_id r = rid) f (runs reg)\<rparr>"

lemma upd_run_fields:
  "runs (upd_run rid f reg) = update_where (\<lambda>r. r_run_id r = rid) f (runs reg)"
  "run_events (upd_run rid f reg) = run_events reg"
  "run_approvals (upd_run rid f reg) = run_approvals reg"
  by simp_all

lemma run_row_upd_run:
  assumes "keeps_identity f"
  shows "row_by r_run_id k (update_where (\<lambda>r. r_run_id r = rid) f t) =
    map_option (\<lambda>r. if r_run_id r = rid then f r else r) (row_by r_run_id k t)"
  using assms by (simp add: row_by_update_where keeps_identity_def)

lemma upd_row_cases:
  assumes "r \<in> set (update_where (\<lambda>r. r_run_id r = rid) f t)" and "keeps_identity f"
  obtains q where "q \<in> set t" "r = (if r_run_id q = rid then f q else q)"
    "r_run_id r = r_run_id q" "r_project_id r = r_project_id q" "r_idempotency_key r = r_idempotency_key q"
    "r_retry_of_run_id r = r_retry_of_run_id q" "r_request_payload r = r_request_payload q"
  using assms by (auto simp: set_update_where keeps_identity_def split: if_splits)

lemma keys_ok_upd_run:
  assumes k: "keys_ok reg" and f: "keeps_identity f"
    and h: "\<And>r r'. r \<in> set (runs reg) \<Longrightarrow> r_run_id r = rid \<Longrightarrow> r' \<in> set (runs reg) \<Longrightarrow> r_run_id r' \<noteq> rid \<Longrightarrow>
        r_hermes_run_id (f r) \<noteq> None \<Longrightarrow> r_hermes_run_id (f r) \<noteq> r_hermes_run_id r'"
  shows "keys_ok (upd_run rid f reg)"
proof -
  let ?T = "set (update_where (\<lambda>r. r_run_id r = rid) f (runs reg))"
  have hermes: "r_run_id r = r_run_id r'"
    if r: "r \<in> ?T" and r': "r' \<in> ?T" and eq: "r_hermes_run_id r \<noteq> None" "r_hermes_run_id r = r_hermes_run_id r'" for r r'
  proof -
    obtain q where q: "q \<in> set (runs reg)" "r = (if r_run_id q = rid then f q else q)" "r_run_id r = r_run_id q"
      using upd_row_cases [OF r f] by metis
    obtain q' where q': "q' \<in> set (runs reg)" "r' = (if r_run_id q' = rid then f q' else q')" "r_run_id r' = r_run_id q'"
      using upd_row_cases [OF r' f] by metis
    have "r_run_id q = r_run_id q'"
    proof (cases "r_run_id q = rid"; cases "r_run_id q' = rid")
      assume "r_run_id q = rid" "r_run_id q' \<noteq> rid"
      with h [OF q(1) _ q'(1)] q(2) q'(2) eq show ?thesis by simp
    next
      assume "r_run_id q \<noteq> rid" "r_run_id q' = rid"
      with h [OF q'(1) _ q(1)] q(2) q'(2) eq show ?thesis by simp
    next
      assume "r_run_id q \<noteq> rid" "r_run_id q' \<noteq> rid"
      with q(2) q'(2) eq have "r_hermes_run_id q \<noteq> None" "r_hermes_run_id q = r_hermes_run_id q'" by simp_all
      with q(1) q'(1) k show ?thesis unfolding keys_ok_def by blast
    qed simp
    then show ?thesis using q(3) q'(3) by simp
  qed
  have idem: "r_run_id r = r_run_id r'"
    if "r \<in> ?T" "r' \<in> ?T" "r_project_id r = r_project_id r'" "r_idempotency_key r \<noteq> None"
      "r_idempotency_key r = r_idempotency_key r'" for r r'
    using upd_row_cases [OF that(1) f] upd_row_cases [OF that(2) f] that(3-5) k
    unfolding keys_ok_def by metis
  have retry: "p \<in> r_run_id ` set (runs reg)" if "r \<in> ?T" "r_retry_of_run_id r = Some p" for r p
    using upd_row_cases [OF that(1) f] that(2) k unfolding keys_ok_def by metis
  have dist: "distinct (map r_run_id (runs reg))"
    using k by (simp add: keys_ok_def)
  show ?thesis
    unfolding keys_ok_def upd_run_fields run_ids_update [OF f] run_id_set_update [OF f]
    by (intro conjI ballI impI allI)
       (rule dist | rule idem; assumption | rule hermes; assumption | rule retry; assumption)+
qed

lemma row_ok_upd_run:
  assumes "\<forall>r \<in> set (runs reg). row_ok r" and "\<And>r. r \<in> set (runs reg) \<Longrightarrow> r_run_id r = rid \<Longrightarrow> row_ok (f r)"
  shows "\<forall>r \<in> set (runs (upd_run rid f reg)). row_ok r"
  using assms by (auto simp: set_update_where)

lemma approvals_ok_upd_run:
  "approvals_ok reg \<Longrightarrow> keeps_identity f \<Longrightarrow> approvals_ok (upd_run rid f reg)"
  by (simp add: approvals_ok_def)

lemma texts_ok_upd_run:
  assumes t: "texts_ok cdc reg" and f: "keeps_identity f"
    and p: "\<And>r t. r \<in> set (runs reg) \<Longrightarrow> r_result_payload (f r) = Some t \<Longrightarrow>
           r_result_payload r = Some t \<or> clean_text cdc t"
  shows "texts_ok cdc (upd_run rid f reg)"
proof -
  have "clean_text cdc (r_request_payload r) \<and> (\<forall>t. r_result_payload r = Some t \<longrightarrow> clean_text cdc t)"
    if "r \<in> set (update_where (\<lambda>r. r_run_id r = rid) f (runs reg))" for r
    using upd_row_cases [OF that f] p t unfolding texts_ok_def by metis
  then show ?thesis using t by (simp add: texts_ok_def)
qed

lemma journal_ok_upd_run:
  assumes j: "journal_ok reg" and f: "keeps_identity f" and "\<And>r. r_last_event_seq (f r) = r_last_event_seq r"
  shows "journal_ok (upd_run rid f reg)"
proof -
  have "0 \<le> r_last_event_seq r \<and> map e_seq (events_of (r_run_id r) reg) = [1..r_last_event_seq r]"
    if "r \<in> set (update_where (\<lambda>r. r_run_id r = rid) f (runs reg))" for r
    using upd_row_cases [OF that f] assms(3) j unfolding journal_ok_def by metis
  then show ?thesis
    using j unfolding journal_ok_def
    by (simp only: upd_run_fields run_id_set_update [OF f] events_of_def) blast
qed


text \<open>A successful status update, spelled out.\<close>

lemma apply_update_Inr:
  "apply_update cdc now rid u reg = Inr reg' \<longleftrightarrow>
     (\<exists>row current target. run_row rid reg = Some row \<and> run_status_parse (r_status row) = Inr current \<and>
        target = (case u_status u of Some s \<Rightarrow> s | None \<Rightarrow> current) \<and> can_go current target \<and>
        (\<forall>r \<in> set (runs reg). r_run_id r \<noteq> rid \<longrightarrow> u_hermes_run_id u \<noteq> None \<longrightarrow>
           r_hermes_run_id r \<noteq> u_hermes_run_id u) \<and>
        reg' = upd_run rid (updated_row cdc now u target) reg)"
  by (auto simp: apply_update_def Let_def is_ok_iff split: option.splits sum.splits if_splits)

lemma row_ok_updated_row:
  assumes "row_ok r" and "run_status_parse (r_status r) = Inr current" and "can_go current target"
  shows "row_ok (updated_row cdc now u target r)"
proof -
  from assms(1,2) have fin: "r_finished_at r \<noteq> None \<longleftrightarrow> is_terminal current"
    by (auto simp: row_ok_def run_status.parse_as_str)
  have "is_terminal current \<Longrightarrow> target = current"
    using assms(3) run_life.terminal_final by blast
  with fin have "(if is_terminal target then coalesce (r_finished_at r) (Some now) else r_finished_at r) \<noteq> None
      \<longleftrightarrow> is_terminal target"
    by (cases "r_finished_at r") auto
  then show ?thesis
    using assms(1) unfolding row_ok_def updated_row_def by auto
qed

lemma reg_inv_apply_update:
  assumes inv: "reg_inv cdc reg" and upd: "apply_update cdc now rid u reg = Inr reg'"
  shows "reg_inv cdc reg'"
proof -
  obtain row current target where row: "run_row rid reg = Some row" "run_status_parse (r_status row) = Inr current"
    and go: "can_go current target"
    and fresh: "\<forall>r \<in> set (runs reg). r_run_id r \<noteq> rid \<longrightarrow> u_hermes_run_id u \<noteq> None \<longrightarrow>
        r_hermes_run_id r \<noteq> u_hermes_run_id u"
    and reg': "reg' = upd_run rid (updated_row cdc now u target) reg"
    using upd unfolding apply_update_Inr by metis
  have k: "keys_ok reg" and ok: "\<forall>r \<in> set (runs reg). row_ok r" using inv by (simp_all add: reg_inv_def)
  have the_row: "r = row" if "r \<in> set (runs reg)" "r_run_id r = rid" for r
    using run_row_unique [OF k] that row(1) by (metis option.inject)
  have "keys_ok reg'"
    unfolding reg' proof (rule keys_ok_upd_run [OF k])
    fix r r' assume r: "r \<in> set (runs reg)" "r_run_id r = rid" and r': "r' \<in> set (runs reg)" "r_run_id r' \<noteq> rid"
      and "r_hermes_run_id (updated_row cdc now u target r) \<noteq> None"
    moreover have "r_hermes_run_id r \<noteq> r_hermes_run_id r'" if "r_hermes_run_id r \<noteq> None"
      using k r r' that unfolding keys_ok_def by metis
    ultimately show "r_hermes_run_id (updated_row cdc now u target r) \<noteq> r_hermes_run_id r'"
      using fresh r' by (cases "u_hermes_run_id u") (auto simp: updated_row_def)
  qed simp
  moreover have "\<forall>r \<in> set (runs reg'). row_ok r"
    unfolding reg' by (rule row_ok_upd_run [OF ok]) (use ok the_row row go row_ok_updated_row in metis)
  moreover have "journal_ok reg'" "approvals_ok reg'"
    unfolding reg' using inv
    by (auto simp: reg_inv_def updated_row_def [of cdc now u target] intro!: journal_ok_upd_run approvals_ok_upd_run)
  moreover have "texts_ok cdc reg'"
    unfolding reg' using inv clean_text_redact
    by (intro texts_ok_upd_run)
       (auto simp: reg_inv_def updated_row_def elim!: coalesce.elims)
  ultimately show ?thesis by (simp add: reg_inv_def)
qed

section \<open>Appending to the journal\<close>

lemma find_duplicate_Some:
  "find_duplicate rid ev reg = Some e \<Longrightarrow>
     e \<in> set (run_events reg) \<and> e_run_id e = rid \<and> j_dedupe_key ev \<noteq> None \<and> e_dedupe_key e = j_dedupe_key ev"
  by (auto simp: find_duplicate_def find_Some_iff split: option.splits)

lemma find_duplicate_None:
  "find_duplicate rid ev reg = None \<Longrightarrow> e \<in> set (run_events reg) \<Longrightarrow> e_run_id e = rid \<Longrightarrow>
     j_dedupe_key ev \<noteq> None \<Longrightarrow> e_dedupe_key e \<noteq> j_dedupe_key ev"
  by (auto simp: find_duplicate_def find_None_iff split: option.splits)

lemma event_row_fields [simp]:
  "e_run_id (event_row cdc now rid n ev) = rid"
  "e_seq (event_row cdc now rid n ev) = n"
  "e_dedupe_key (event_row cdc now rid n ev) = j_dedupe_key ev"
  "e_payload (event_row cdc now rid n ev) = to_string cdc (red_value (redact (j_payload ev)))"
  "e_raw_payload (event_row cdc now rid n ev) = Option.bind (j_raw ev) (bounded_raw cdc)"
  by (simp_all add: event_row_def Let_def)

text \<open>The counter of a run is exactly the number of its events.\<close>

lemma journal_seqs:
  "journal_ok reg \<Longrightarrow> run_row rid reg = Some row \<Longrightarrow>
     map e_seq (events_of rid reg) = [1..r_last_event_seq row] \<and> 0 \<le> r_last_event_seq row"
  by (auto simp: journal_ok_def dest!: row_by_SomeD)

lemma seq_in_journal:
  assumes "journal_ok reg" and "run_row rid reg = Some row" and "e \<in> set (run_events reg)" and "e_run_id e = rid"
  shows "1 \<le> e_seq e \<and> e_seq e \<le> r_last_event_seq row"
proof -
  have "e_seq e \<in> set (map e_seq (events_of rid reg))"
    using assms(3,4) by (simp add: events_of_def)
  then show ?thesis using journal_seqs [OF assms(1,2)] by simp
qed

abbreviation bump :: "(nat \<Rightarrow> int) \<Rightarrow> int \<Rightarrow> RunRow \<Rightarrow> RunRow" where
  "bump now n \<equiv> \<lambda>r. r\<lparr>r_last_event_seq := n, r_updated_at := now 1\<rparr>"

lemma keeps_identity_bump: "keeps_identity (bump now n)"
  by (simp add: keeps_identity_def)

lemma insert_event_upd:
  "insert_event cdc now rid n ev reg =
     (upd_run rid (bump now n) reg)\<lparr>run_events := run_events reg @ [event_row cdc (now 0) rid n ev]\<rparr>"
  by (simp add: insert_event_def)

lemma events_of_insert_event:
  "events_of k (insert_event cdc now rid n ev reg) =
     events_of k reg @ (if k = rid then [event_row cdc (now 0) rid n ev] else [])"
  by (simp add: events_of_def insert_event_def)

lemma journal_ok_insert_event:
  assumes j: "journal_ok reg" and row: "run_row rid reg = Some row"
    and dup: "find_duplicate rid ev reg = None"
  shows "journal_ok (insert_event cdc now rid (r_last_event_seq row + 1) ev reg)" (is "journal_ok ?reg'")
proof -
  let ?n = "r_last_event_seq row + 1"
  let ?e = "event_row cdc (now 0) rid ?n ev"
  have seqs: "map e_seq (events_of rid reg) = [1..r_last_event_seq row]" "0 \<le> r_last_event_seq row"
    using journal_seqs [OF j row] by simp_all
  have runs': "runs ?reg' = update_where (\<lambda>r. r_run_id r = rid) (bump now ?n) (runs reg)"
    by (simp add: insert_event_def)
  have events': "run_events ?reg' = run_events reg @ [?e]"
    by (simp add: insert_event_def)
  have ids: "r_run_id ` set (runs ?reg') = r_run_id ` set (runs reg)"
    unfolding runs' by (rule run_id_set_update [OF keeps_identity_bump [of now ?n]])
  have "0 \<le> r_last_event_seq r \<and> map e_seq (events_of (r_run_id r) ?reg') = [1..r_last_event_seq r]"
    if r: "r \<in> set (runs ?reg')" for r
  proof -
    obtain q where q: "q \<in> set (runs reg)" "r = (if r_run_id q = rid then bump now ?n q else q)"
        "r_run_id r = r_run_id q"
      using upd_row_cases [OF r [unfolded runs'] keeps_identity_bump [of now ?n]] by metis
    show ?thesis
    proof (cases "r_run_id q = rid")
      case True
      then show ?thesis using q seqs by (simp add: events_of_insert_event upto_rec2)
    next
      case False
      then show ?thesis using q j by (simp add: events_of_insert_event journal_ok_def)
    qed
  qed
  moreover have "\<forall>e \<in> set (run_events ?reg'). e_run_id e \<in> r_run_id ` set (runs ?reg')"
    unfolding ids events' using j row_by_SomeD [OF row] by (auto simp: journal_ok_def)
  moreover have "e_seq e = e_seq e'"
    if mem: "e \<in> set (run_events ?reg')" "e' \<in> set (run_events ?reg')" and same: "e_run_id e = e_run_id e'"
      "e_dedupe_key e \<noteq> None" "e_dedupe_key e = e_dedupe_key e'" for e e'
  proof -
    have old: "e_seq x = e_seq y" if "x \<in> set (run_events reg)" "y \<in> set (run_events reg)"
      "e_run_id x = e_run_id y" "e_dedupe_key x \<noteq> None" "e_dedupe_key x = e_dedupe_key y" for x y
      using j that unfolding journal_ok_def dedupe_ok_def by blast
    have new: "e_dedupe_key x \<noteq> j_dedupe_key ev"
      if "x \<in> set (run_events reg)" "e_run_id x = rid" "j_dedupe_key ev \<noteq> None" for x
      using find_duplicate_None [OF dup] that by blast
    consider "e \<in> set (run_events reg)" "e' \<in> set (run_events reg)" | "e \<in> set (run_events reg)" "e' = ?e"
      | "e = ?e" "e' \<in> set (run_events reg)" | "e = ?e" "e' = ?e"
      using mem unfolding events' by auto
    then show ?thesis
    proof cases
      case 1
      then show ?thesis using old same by blast
    next
      case 2
      then show ?thesis using new [of e] same by simp
    next
      case 3
      then show ?thesis using new [of e'] same by simp
    qed simp
  qed
  ultimately show ?thesis unfolding journal_ok_def dedupe_ok_def by blast
qed

lemma keys_ok_bump: "keys_ok reg \<Longrightarrow> keys_ok (upd_run rid (bump now n) reg)"
  by (rule keys_ok_upd_run [OF _ keeps_identity_bump]) (use keys_hermesD in fastforce)+

lemma reg_inv_insert_event:
  assumes inv: "reg_inv cdc reg" and row: "run_row rid reg = Some row" and dup: "find_duplicate rid ev reg = None"
  shows "reg_inv cdc (insert_event cdc now rid (r_last_event_seq row + 1) ev reg)" (is "reg_inv cdc ?reg'")
proof -
  let ?n = "r_last_event_seq row + 1"
  let ?m = "upd_run rid (bump now ?n) reg"
  have "keys_ok ?m"
    using inv keys_ok_bump unfolding reg_inv_def by blast
  then have "keys_ok ?reg'"
    by (subst keys_ok_cong [of _ ?m]) (simp_all add: insert_event_upd)
  moreover have "\<forall>r \<in> set (runs ?m). row_ok r"
    by (rule row_ok_upd_run) (use inv in \<open>auto simp: reg_inv_def row_ok_def\<close>)
  then have "\<forall>r \<in> set (runs ?reg'). row_ok r"
    by (simp add: insert_event_upd)
  moreover have "approvals_ok ?m"
    using inv unfolding reg_inv_def by (intro approvals_ok_upd_run keeps_identity_bump) blast
  then have "approvals_ok ?reg'"
    by (subst approvals_ok_cong [of _ ?m]) (simp_all add: insert_event_upd)
  moreover have "texts_ok cdc ?m"
    by (rule texts_ok_upd_run [OF _ keeps_identity_bump]) (use inv in \<open>simp_all add: reg_inv_def\<close>)
  then have "texts_ok cdc ?reg'"
    using clean_text_redact [of cdc "j_payload ev"]
    by (auto simp: texts_ok_def insert_event_upd bind_eq_Some_conv dest!: bounded_raw_Some)
  moreover have "journal_ok ?reg'"
    using inv journal_ok_insert_event [OF _ row dup] unfolding reg_inv_def by blast
  ultimately show ?thesis
    unfolding reg_inv_def by blast
qed

lemma append_event_Inr:
  "append_event cdc now rid ev upd reg = Inr (outcome, reg') \<longleftrightarrow>
     (\<exists>row. run_row rid reg = Some row \<and>
        ((\<exists>e. find_duplicate rid ev reg = Some e \<and> outcome = Duplicate (e_seq e) \<and> reg' = reg) \<or>
         (find_duplicate rid ev reg = None \<and> outcome = Appended (r_last_event_seq row + 1) \<and>
          (\<forall>x \<in> set (run_events reg). e_run_id x = rid \<longrightarrow> e_seq x \<noteq> r_last_event_seq row + 1) \<and>
          (case upd of
             None \<Rightarrow> reg' = insert_event cdc now rid (r_last_event_seq row + 1) ev reg
           | Some u \<Rightarrow> apply_update cdc (now 2) rid u
                          (insert_event cdc now rid (r_last_event_seq row + 1) ev reg) = Inr reg'))))"
  by (auto simp: append_event_def Let_def rbind_eq_Inr split: option.splits if_splits)

lemma reg_inv_append_event:
  assumes inv: "reg_inv cdc reg" and app: "append_event cdc now rid ev upd reg = Inr (outcome, reg')"
  shows "reg_inv cdc reg'"
proof (cases "find_duplicate rid ev reg")
  case (Some e)
  then show ?thesis using app inv by (auto simp: append_event_Inr)
next
  case None
  then obtain row where row: "run_row rid reg = Some row"
    and upd: "case upd of
             None \<Rightarrow> reg' = insert_event cdc now rid (r_last_event_seq row + 1) ev reg
           | Some u \<Rightarrow> apply_update cdc (now 2) rid u
                          (insert_event cdc now rid (r_last_event_seq row + 1) ev reg) = Inr reg'"
    using app by (auto simp: append_event_Inr)
  have mid: "reg_inv cdc (insert_event cdc now rid (r_last_event_seq row + 1) ev reg)"
    by (rule reg_inv_insert_event [OF inv row None])
  show ?thesis
  proof (cases upd)
    case (Some u)
    with upd show ?thesis using reg_inv_apply_update [OF mid] by simp
  qed (use upd mid in simp)
qed

section \<open>The other operations\<close>

lemma find_idempotent_Some:
  "find_idempotent request reg = Some r \<Longrightarrow>
     r \<in> set (runs reg) \<and> n_idempotency_key request \<noteq> None \<and> r_project_id r = n_project_id request \<and>
     r_idempotency_key r = n_idempotency_key request"
  by (auto simp: find_idempotent_def find_Some_iff split: option.splits)

lemma find_idempotent_None:
  "find_idempotent request reg = None \<Longrightarrow> r \<in> set (runs reg) \<Longrightarrow> n_idempotency_key request \<noteq> None \<Longrightarrow>
     r_project_id r = n_project_id request \<Longrightarrow> r_idempotency_key r \<noteq> n_idempotency_key request"
  by (auto simp: find_idempotent_def find_None_iff split: option.splits)

lemma new_row_fields [simp]:
  "r_run_id (new_row cdc now fresh request) = fresh"
  "r_project_id (new_row cdc now fresh request) = n_project_id request"
  "r_idempotency_key (new_row cdc now fresh request) = n_idempotency_key request"
  "r_status (new_row cdc now fresh request) = run_status_as_str Created"
  "r_last_event_seq (new_row cdc now fresh request) = 0"
  "r_hermes_run_id (new_row cdc now fresh request) = None"
  "r_request_payload (new_row cdc now fresh request) =
     to_string cdc (red_value (redact (n_request_payload request)))"
  "r_result_payload (new_row cdc now fresh request) = None"
  "r_request_fingerprint (new_row cdc now fresh request) = request_fingerprint cdc request"
  "r_retry_of_run_id (new_row cdc now fresh request) = n_retry_of_run_id request"
  by (simp_all add: new_row_def)

lemma row_ok_new_row: "row_ok (new_row cdc now fresh request)"
  unfolding row_ok_def new_row_def
  by (auto intro!: exI [of _ Created] exI [of _ Manual])

text \<open>The ways a creation succeeds: the stored run again, or one new row.\<close>

lemma create_run_cases:
  assumes "create_run cdc now fresh request reg = Inr (c, reg')"
  obtains
    (existing) row q where "reg' = reg" "find_idempotent request reg = Some row"
      "r_request_fingerprint row = request_fingerprint cdc request"
      "run_row (r_run_id row) reg = Some q" "c = Existing (map_run cdc q)"
  | (fresh) "find_idempotent request reg = None" "fresh \<notin> r_run_id ` set (runs reg)"
      "\<And>p. n_retry_of_run_id request = Some p \<Longrightarrow> p \<in> r_run_id ` set (runs reg)"
      "reg' = reg\<lparr>runs := runs reg @ [new_row cdc now fresh request]\<rparr>"
      "c = NewlyCreated (map_run cdc (new_row cdc now fresh request))"
proof (cases "find_idempotent request reg")
  case (Some row)
  with assms that(1) show ?thesis
    by (auto simp: create_run_def load_run_def split: option.splits if_splits)
next
  case None
  with assms have "run_row fresh reg = None"
    "\<And>p. n_retry_of_run_id request = Some p \<Longrightarrow> run_row p reg \<noteq> None"
    "reg' = reg\<lparr>runs := runs reg @ [new_row cdc now fresh request]\<rparr>"
    "c = NewlyCreated (map_run cdc (new_row cdc now fresh request))"
    by (auto simp: create_run_def Let_def split: option.splits if_splits)
  with that(2) None show ?thesis using run_row_None by metis
qed

lemma keys_ok_new_row:
  assumes k: "keys_ok reg" and idem: "find_idempotent request reg = None"
    and fresh: "fresh \<notin> r_run_id ` set (runs reg)"
    and retry: "\<And>p. n_retry_of_run_id request = Some p \<Longrightarrow> p \<in> r_run_id ` set (runs reg)"
  shows "keys_ok (reg\<lparr>runs := runs reg @ [new_row cdc now fresh request]\<rparr>)" (is "keys_ok ?reg'")
proof (rule keys_okI)
  let ?r = "new_row cdc now fresh request"
  have set': "set (runs ?reg') = insert ?r (set (runs reg))" by simp
  show "distinct (map r_run_id (runs ?reg'))"
    using k fresh by (simp add: keys_ok_def)
  show "r_run_id r = r_run_id r'" if "r \<in> set (runs ?reg')" "r' \<in> set (runs ?reg')" "r_project_id r = r_project_id r'"
      "r_idempotency_key r \<noteq> None" "r_idempotency_key r = r_idempotency_key r'" for r r'
    using that find_idempotent_None [OF idem, of r] find_idempotent_None [OF idem, of r']
      keys_idempotencyD [OF k, of r r'] unfolding set' by auto
  show "r_run_id r = r_run_id r'" if "r \<in> set (runs ?reg')" "r' \<in> set (runs ?reg')"
      "r_hermes_run_id r \<noteq> None" "r_hermes_run_id r = r_hermes_run_id r'" for r r'
    using that keys_hermesD [OF k, of r r'] unfolding set' by auto
  show "p \<in> r_run_id ` set (runs ?reg')" if "r \<in> set (runs ?reg')" "r_retry_of_run_id r = Some p" for r p
    using that retry k unfolding set' keys_ok_def by auto
qed

lemma reg_inv_create_run:
  assumes inv: "reg_inv cdc reg" and cr: "create_run cdc now fresh request reg = Inr (c, reg')"
  shows "reg_inv cdc reg'"
  using cr
proof (cases rule: create_run_cases)
  case existing
  then show ?thesis using inv by simp
next
  case fresh
  have "events_of fresh reg = []"
    using inv fresh(2) by (auto simp: reg_inv_def journal_ok_def events_of_def filter_empty_conv)
  then have "journal_ok reg'"
    using inv by (simp add: reg_inv_def journal_ok_def fresh(4) events_of_def)
  moreover have "keys_ok reg'"
    unfolding fresh(4) using inv fresh(1-3) by (intro keys_ok_new_row) (auto simp: reg_inv_def)
  moreover have "\<forall>r \<in> set (runs reg'). row_ok r"
    using inv row_ok_new_row unfolding reg_inv_def fresh(4) by auto
  moreover have "approvals_ok reg'"
    using inv unfolding reg_inv_def approvals_ok_def fresh(4) by auto
  moreover have "texts_ok cdc reg'"
    using inv clean_text_redact unfolding reg_inv_def texts_ok_def fresh(4) by auto
  ultimately show ?thesis by (simp add: reg_inv_def)
qed

text \<open>Operations on the approvals table keep the rest of the state.\<close>

lemma reg_inv_approvals:
  assumes "reg_inv cdc reg" and "approvals_ok (reg\<lparr>run_approvals := as\<rparr>)"
  shows "reg_inv cdc (reg\<lparr>run_approvals := as\<rparr>)"
proof -
  let ?reg' = "reg\<lparr>run_approvals := as\<rparr>"
  have "keys_ok ?reg' = keys_ok reg" "journal_ok ?reg' = journal_ok reg" "texts_ok cdc ?reg' = texts_ok cdc reg"
    by (simp_all add: keys_ok_cong [of ?reg' reg] journal_ok_cong [of ?reg' reg] texts_ok_cong [of ?reg' reg])
  then show ?thesis using assms by (simp add: reg_inv_def)
qed

lemma reg_inv_approval_request:
  assumes inv: "reg_inv cdc reg" and "record_approval_request cdc now rid n command choices reg = Inr reg'"
  shows "reg_inv cdc reg'"
proof (cases "\<exists>a \<in> set (run_approvals reg). a_run_id a = rid \<and> a_request_seq a = n")
  case True
  then show ?thesis using assms by (simp add: record_approval_request_def)
next
  case False
  with assms(2) obtain a where reg': "reg' = reg\<lparr>run_approvals := run_approvals reg @ [a]\<rparr>"
    and a: "a_run_id a = rid" "a_request_seq a = n" "a_decision a = None" "a_decided_at a = None"
    and "run_row rid reg \<noteq> None"
    by (auto simp: record_approval_request_def split: if_splits)
  then have "rid \<in> r_run_id ` set (runs reg)" using run_row_None by metis
  then have "approvals_ok reg'"
    using False inv unfolding reg' reg_inv_def approvals_ok_def by (auto simp: a)
  then show ?thesis using reg_inv_approvals [OF inv] unfolding reg' by simp
qed

lemma approvals_ok_update:
  assumes ok: "approvals_ok reg"
    and f: "\<And>a. a_run_id (f a) = a_run_id a" "\<And>a. a_request_seq (f a) = a_request_seq a"
      "\<And>a. a_decision a = None \<longleftrightarrow> a_decided_at a = None \<Longrightarrow> a_decision (f a) = None \<longleftrightarrow> a_decided_at (f a) = None"
  shows "approvals_ok (reg\<lparr>run_approvals := update_where p f (run_approvals reg)\<rparr>)"
proof -
  have "map (\<lambda>a. (a_run_id a, a_request_seq a)) (update_where p f (run_approvals reg)) =
        map (\<lambda>a. (a_run_id a, a_request_seq a)) (run_approvals reg)"
    by (rule map_key_update_where) (simp add: f)
  then show ?thesis using ok f(1,3) by (auto simp: approvals_ok_def set_update_where)
qed

lemma reg_inv_approval_decision:
  assumes "reg_inv cdc reg" and "record_approval_decision now rid n d reg = (b, reg')"
  shows "reg_inv cdc reg'"
proof -
  have reg': "reg' = reg\<lparr>run_approvals := update_where (undecided rid n)
             (\<lambda>a. a\<lparr>a_decision := Some d, a_decided_at := Some now\<rparr>) (run_approvals reg)\<rparr>"
    using assms(2) by (simp add: record_approval_decision_def)
  show ?thesis
    unfolding reg' using assms(1)
    by (intro reg_inv_approvals approvals_ok_update) (simp_all add: reg_inv_def)
qed

lemma reg_inv_approval_resolution:
  "reg_inv cdc reg \<Longrightarrow> reg_inv cdc (record_approval_resolution rid n k reg)"
  unfolding record_approval_resolution_def
  by (intro reg_inv_approvals approvals_ok_update) (simp_all add: reg_inv_def)

lemma keeps_identity_policy_row: "keeps_identity (policy_row now policy actor)"
  by (simp add: keeps_identity_def policy_row_def)

lemma set_policy_Inr:
  "set_run_approval_policy cdc now rid policy actor reg = Inr (changed, reg') \<longleftrightarrow>
     (\<exists>row s current. run_row rid reg = Some row \<and> run_status_parse (r_status row) = Inr s \<and> \<not> is_terminal s \<and>
        policy_parse (r_approval_policy row) = Inr current \<and> changed = (current \<noteq> policy) \<and>
        reg' = (if current = policy then reg else upd_run rid (policy_row now policy actor) reg))"
  by (auto simp: set_run_approval_policy_def load_run_def record_status_def map_run_def run_approval_policy_def
      Let_def split: option.splits sum.splits if_splits)

lemma reg_inv_set_policy:
  assumes inv: "reg_inv cdc reg" and set: "set_run_approval_policy cdc now rid policy actor reg = Inr (b, reg')"
  shows "reg_inv cdc reg'"
proof -
  let ?m = "upd_run rid (policy_row now policy actor) reg"
  have k: "keys_ok reg" and ok: "\<forall>r \<in> set (runs reg). row_ok r" and t: "texts_ok cdc reg"
    and j: "journal_ok reg" and a: "approvals_ok reg"
    using inv by (simp_all add: reg_inv_def)
  have "keys_ok ?m"
    by (rule keys_ok_upd_run [OF k keeps_identity_policy_row])
       (use keys_hermesD [OF k] in \<open>fastforce simp: policy_row_def\<close>)
  moreover have "\<forall>r \<in> set (runs ?m). row_ok r"
    by (rule row_ok_upd_run [OF ok]) (use ok in \<open>auto simp: row_ok_def policy_row_def\<close>)
  moreover have "journal_ok ?m"
    by (rule journal_ok_upd_run [OF j keeps_identity_policy_row]) (simp add: policy_row_def)
  moreover have "approvals_ok ?m"
    by (rule approvals_ok_upd_run [OF a keeps_identity_policy_row])
  moreover have "texts_ok cdc ?m"
    by (rule texts_ok_upd_run [OF t keeps_identity_policy_row]) (simp add: policy_row_def)
  ultimately have "reg_inv cdc ?m" unfolding reg_inv_def by blast
  then show ?thesis using set inv by (auto simp: set_policy_Inr)
qed

section \<open>The registry as a transition system\<close>

text \<open>One step is one call of a mutating operation of \<open>Registry\<close> that succeeds.\<close>

inductive reg_step :: "codec \<Rightarrow> Registry \<Rightarrow> Registry \<Rightarrow> bool" for cdc where
  create: "create_run cdc now fresh request reg = Inr (c, reg') \<Longrightarrow> reg_step cdc reg reg'"
| change: "update_run cdc now rid u reg = Inr (rec, reg') \<Longrightarrow> reg_step cdc reg reg'"
| append: "append_event cdc clock rid ev upd reg = Inr (outcome, reg') \<Longrightarrow> reg_step cdc reg reg'"
| request: "record_approval_request cdc now rid n command choices reg = Inr reg' \<Longrightarrow> reg_step cdc reg reg'"
| decide: "record_approval_decision now rid n d reg = (b, reg') \<Longrightarrow> reg_step cdc reg reg'"
| resolve: "reg_step cdc reg (record_approval_resolution rid n k reg)"
| policy: "set_run_approval_policy cdc now rid pol actor reg = Inr (b, reg') \<Longrightarrow> reg_step cdc reg reg'"

lemma update_run_apply: "update_run cdc now rid u reg = Inr (rec, reg') \<Longrightarrow> apply_update cdc now rid u reg = Inr reg'"
  by (auto simp: update_run_def rbind_eq_Inr)

lemma reg_inv_step: "reg_step cdc reg reg' \<Longrightarrow> reg_inv cdc reg \<Longrightarrow> reg_inv cdc reg'"
  by (induction rule: reg_step.induct)
     (blast intro: reg_inv_create_run reg_inv_apply_update [OF _ update_run_apply] reg_inv_append_event
        reg_inv_approval_request reg_inv_approval_decision reg_inv_approval_resolution reg_inv_set_policy)+

interpretation reg_sys: guarded_system "reg_step cdc" empty_registry "reg_inv cdc" for cdc
  by unfold_locales (auto intro: reg_inv_empty reg_inv_step)

end
