(* ===== verification/Registry_History.thy ===== *)
theory Registry_History
  imports Registry_Inv
begin

text \<open>
  What the registry promises over time: a run's identity, its settled status and
  its journal only ever grow, creation and journalling are idempotent, a cursor
  reads a contiguous page, an approval is decided once, and the approval bypass
  is only ever switched on explicitly.
\<close>

section \<open>Growth\<close>

definition row_le :: "RunRow \<Rightarrow> RunRow \<Rightarrow> bool" where
  "row_le r r' \<longleftrightarrow>
     r_run_id r' = r_run_id r \<and> r_project_id r' = r_project_id r \<and>
     r_idempotency_key r' = r_idempotency_key r \<and> r_request_fingerprint r' = r_request_fingerprint r \<and>
     r_request_payload r' = r_request_payload r \<and> r_retry_of_run_id r' = r_retry_of_run_id r \<and>
     r_created_at r' = r_created_at r \<and> r_last_event_seq r \<le> r_last_event_seq r' \<and>
     (r_finished_at r \<noteq> None \<longrightarrow> r_finished_at r' = r_finished_at r) \<and>
     (\<exists>s s'. r_status r = run_status_as_str s \<and> r_status r' = run_status_as_str s' \<and>
        (\<lambda>a b. can_go a b)\<^sup>*\<^sup>* s s')"

definition approval_le :: "ApprovalRow \<Rightarrow> ApprovalRow \<Rightarrow> bool" where
  "approval_le a a' \<longleftrightarrow>
     a_run_id a' = a_run_id a \<and> a_request_seq a' = a_request_seq a \<and>
     (a_decision a \<noteq> None \<longrightarrow> a_decision a' = a_decision a \<and> a_decided_at a' = a_decided_at a)"

definition reg_le :: "Registry \<Rightarrow> Registry \<Rightarrow> bool" where
  "reg_le reg reg' \<longleftrightarrow>
     (\<forall>rid r. run_row rid reg = Some r \<longrightarrow> (\<exists>r'. run_row rid reg' = Some r' \<and> row_le r r')) \<and>
     prefix (run_events reg) (run_events reg') \<and>
     (\<forall>a \<in> set (run_approvals reg). \<exists>a' \<in> set (run_approvals reg'). approval_le a a')"

text \<open>A small concrete history, to evaluate the theorems below on.\<close>

definition plain_codec :: codec where
  "plain_codec = \<lparr>to_string = (\<lambda>_. ''{}''), from_str = (\<lambda>_. None)\<rparr>"

definition demo_request :: NewRun where
  "demo_request = \<lparr>n_project_id = ''p'', n_session_id = None, n_idempotency_key = Some ''k'',
     n_runtime_kind = ''host'', n_provider = None, n_model = None, n_request_payload = JNull,
     n_retry_of_run_id = None\<rparr>"

definition demo_reg :: Registry where
  "demo_reg = empty_registry\<lparr>runs := [new_row plain_codec 5 ''run_1'' demo_request]\<rparr>"

definition demo_event :: JournalEvent where
  "demo_event = (journal_asterism ''run.started'' JNull)\<lparr>j_dedupe_key := Some ''e''\<rparr>"

definition demo_reg2 :: Registry where
  "demo_reg2 = insert_event plain_codec (\<lambda>_. 7) ''run_1'' 1 demo_event demo_reg"

definition demo_reg3 :: Registry where
  "demo_reg3 = demo_reg2\<lparr>run_approvals := [\<lparr>a_run_id = ''run_1'', a_request_seq = 1, a_requested_at = 8,
     a_command = None, a_choices = None, a_decision = None, a_decided_at = None, a_resolution_seq = None\<rparr>]\<rparr>"

lemma row_le_refl: "row_ok r \<Longrightarrow> row_le r r"
  by (auto simp: row_le_def row_ok_def)

lemma row_le_trans:
  assumes "row_le a b" and "row_le b c"
  shows "row_le a c"
proof -
  obtain s t where st: "r_status a = run_status_as_str s" "r_status b = run_status_as_str t"
    "(\<lambda>a b. can_go a b)\<^sup>*\<^sup>* s t" using assms(1) unfolding row_le_def by blast
  obtain t' u where tu: "r_status b = run_status_as_str t'" "r_status c = run_status_as_str u"
    "(\<lambda>a b. can_go a b)\<^sup>*\<^sup>* t' u" using assms(2) unfolding row_le_def by blast
  have "t' = t" using st(2) tu(1) run_status.as_str_inject by metis
  with st tu have "(\<lambda>a b. can_go a b)\<^sup>*\<^sup>* s u" by (meson rtranclp_trans)
  with st(1) tu(2) have "\<exists>s s'. r_status a = run_status_as_str s \<and> r_status c = run_status_as_str s' \<and>
      (\<lambda>a b. can_go a b)\<^sup>*\<^sup>* s s'" by blast
  moreover have "r_finished_at a \<noteq> None \<longrightarrow> r_finished_at c = r_finished_at a"
    using assms unfolding row_le_def by simp
  ultimately show ?thesis using assms unfolding row_le_def by simp
qed

lemma approval_le_refl: "approval_le a a"
  by (simp add: approval_le_def)

lemma approval_le_trans: "approval_le a b \<Longrightarrow> approval_le b c \<Longrightarrow> approval_le a c"
  by (auto simp: approval_le_def)

lemma run_row_ok: "reg_inv cdc reg \<Longrightarrow> run_row rid reg = Some r \<Longrightarrow> row_ok r"
  by (auto simp: reg_inv_def dest: row_by_SomeD)

lemma reg_le_refl: "reg_inv cdc reg \<Longrightarrow> reg_le reg reg"
  unfolding reg_le_def using row_le_refl run_row_ok approval_le_refl by blast

lemma reg_le_rowE:
  assumes "reg_le reg reg'" and "run_row rid reg = Some r"
  obtains r' where "run_row rid reg' = Some r'" "row_le r r'"
  using assms unfolding reg_le_def by blast

lemma reg_le_approvalE:
  assumes "reg_le reg reg'" and "a \<in> set (run_approvals reg)"
  obtains a' where "a' \<in> set (run_approvals reg')" "approval_le a a'"
  using assms unfolding reg_le_def by blast

lemma reg_le_events: "reg_le reg reg' \<Longrightarrow> prefix (run_events reg) (run_events reg')"
  by (simp add: reg_le_def)

lemma reg_le_trans:
  assumes "reg_le a b" and "reg_le b c"
  shows "reg_le a c"
  unfolding reg_le_def
proof (intro conjI allI impI ballI)
  show "\<exists>r'. run_row rid c = Some r' \<and> row_le r r'" if "run_row rid a = Some r" for rid r
    using that assms by (blast elim: reg_le_rowE intro: row_le_trans)
  show "prefix (run_events a) (run_events c)"
    using assms prefix_order.trans reg_le_events by blast
  show "\<exists>a'\<in>set (run_approvals c). approval_le x a'" if "x \<in> set (run_approvals a)" for x
    using that assms by (blast elim: reg_le_approvalE intro: approval_le_trans)
qed

lemma reg_le_upd_run:
  assumes inv: "reg_inv cdc reg" and f: "keeps_identity f"
    and g: "\<And>r. run_row rid reg = Some r \<Longrightarrow> row_le r (f r)"
  shows "reg_le reg (upd_run rid f reg)"
  unfolding reg_le_def
proof (intro conjI allI impI ballI)
  show "\<exists>r'. run_row k (upd_run rid f reg) = Some r' \<and> row_le r r'" if r: "run_row k reg = Some r" for k r
  proof (cases "r_run_id r = rid")
    case True
    then have "run_row rid reg = Some r" using r row_by_SomeD by metis
    then show ?thesis using g r True by (simp add: run_row_upd_run [OF f])
  next
    case False
    then show ?thesis using r row_le_refl [OF run_row_ok [OF inv r]] by (simp add: run_row_upd_run [OF f])
  qed
qed (auto intro: approval_le_refl)

lemma row_le_updated_row:
  assumes "row_ok r" and "run_status_parse (r_status r) = Inr current" and go: "can_go current target"
  shows "row_le r (updated_row cdc now u target r)"
proof -
  have fin: "r_finished_at r \<noteq> None \<longleftrightarrow> is_terminal current"
    using assms(1,2) by (auto simp: row_ok_def run_status.parse_as_str)
  have "r_status r = run_status_as_str current"
    using assms(2) run_status.as_str_parse by metis
  moreover have "(\<lambda>a b. can_go a b)\<^sup>*\<^sup>* current target" using go by auto
  ultimately show ?thesis
    using fin by (auto simp: row_le_def updated_row_def)
qed

lemma reg_le_apply_update:
  assumes inv: "reg_inv cdc reg" and upd: "apply_update cdc now rid u reg = Inr reg'"
  shows "reg_le reg reg'"
proof -
  obtain row current target where row: "run_row rid reg = Some row" "run_status_parse (r_status row) = Inr current"
    and go: "can_go current target" and reg': "reg' = upd_run rid (updated_row cdc now u target) reg"
    using upd unfolding apply_update_Inr by metis
  have "row_le row (updated_row cdc now u target row)"
    using row_le_updated_row [OF run_row_ok [OF inv row(1)] row(2) go] .
  then show ?thesis
    unfolding reg' using row(1) by (intro reg_le_upd_run [OF inv]) auto
qed

lemma reg_le_insert_event:
  assumes inv: "reg_inv cdc reg" and row: "run_row rid reg = Some row"
  shows "reg_le reg (insert_event cdc now rid (r_last_event_seq row + 1) ev reg)" (is "reg_le reg ?reg'")
proof -
  let ?m = "upd_run rid (bump now (r_last_event_seq row + 1)) reg"
  have "row_le row (bump now (r_last_event_seq row + 1) row)"
    using row_le_refl [OF run_row_ok [OF inv row]] by (auto simp: row_le_def)
  then have "reg_le reg ?m"
    using row by (intro reg_le_upd_run [OF inv keeps_identity_bump]) simp
  then show ?thesis by (auto simp: reg_le_def insert_event_upd prefix_def)
qed

lemma reg_le_append_event:
  assumes inv: "reg_inv cdc reg" and app: "append_event cdc now rid ev upd reg = Inr (outcome, reg')"
  shows "reg_le reg reg'"
proof (cases "find_duplicate rid ev reg")
  case (Some e)
  then show ?thesis using app inv by (auto simp: append_event_Inr intro: reg_le_refl)
next
  case None
  then obtain row where row: "run_row rid reg = Some row"
    and upd: "case upd of
             None \<Rightarrow> reg' = insert_event cdc now rid (r_last_event_seq row + 1) ev reg
           | Some u \<Rightarrow> apply_update cdc (now 2) rid u
                          (insert_event cdc now rid (r_last_event_seq row + 1) ev reg) = Inr reg'"
    using app by (auto simp: append_event_Inr)
  let ?m = "insert_event cdc now rid (r_last_event_seq row + 1) ev reg"
  have "reg_le reg ?m" "reg_inv cdc ?m"
    using reg_le_insert_event [OF inv row] reg_inv_insert_event [OF inv row None] by blast+
  then show ?thesis
    using upd reg_le_apply_update reg_le_trans by (cases upd) fastforce+
qed

lemma reg_le_create_run:
  assumes inv: "reg_inv cdc reg" and cr: "create_run cdc now fresh request reg = Inr (c, reg')"
  shows "reg_le reg reg'"
  using cr
proof (cases rule: create_run_cases)
  case existing
  then show ?thesis using reg_le_refl [OF inv] by simp
next
  case fresh
  then show ?thesis
    using row_le_refl [OF run_row_ok [OF inv]]
    by (auto simp: reg_le_def row_by_append intro: approval_le_refl)
qed

lemma reg_le_approvals:
  assumes "reg_inv cdc reg" and "\<And>a. a \<in> set (run_approvals reg) \<Longrightarrow> \<exists>a' \<in> set as. approval_le a a'"
  shows "reg_le reg (reg\<lparr>run_approvals := as\<rparr>)"
  unfolding reg_le_def using assms row_le_refl [OF run_row_ok [OF assms(1)]] by simp

lemma reg_le_update_approvals:
  assumes "reg_inv cdc reg" and "\<And>a. p a \<Longrightarrow> approval_le a (f a)"
  shows "reg_le reg (reg\<lparr>run_approvals := update_where p f (run_approvals reg)\<rparr>)"
proof (rule reg_le_approvals [OF assms(1)])
  fix a assume "a \<in> set (run_approvals reg)"
  then have "(if p a then f a else a) \<in> set (update_where p f (run_approvals reg))"
    by (rule in_update_where)
  moreover have "approval_le a (if p a then f a else a)" using assms(2) approval_le_refl by simp
  ultimately show "\<exists>a' \<in> set (update_where p f (run_approvals reg)). approval_le a a'" by blast
qed

lemma reg_le_step: "reg_step cdc reg reg' \<Longrightarrow> reg_inv cdc reg \<Longrightarrow> reg_le reg reg'"
proof (induction rule: reg_step.induct)
  case (request now rid n command choices reg reg')
  then show ?case
    by (auto simp: record_approval_request_def split: if_splits intro!: reg_le_refl reg_le_approvals
        intro: approval_le_refl)
next
  case (decide now rid n d reg b reg')
  then show ?case
    by (auto simp: record_approval_decision_def undecided_def approval_le_def intro!: reg_le_update_approvals)
next
  case (resolve reg rid n k)
  then show ?case
    by (auto simp: record_approval_resolution_def approval_le_def intro!: reg_le_update_approvals)
next
  case (policy now rid pol actor reg b reg')
  have "row_le r (policy_row now pol actor r)" if "run_row rid reg = Some r" for r
    using row_le_refl [OF run_row_ok [OF policy(2) that]] by (auto simp: row_le_def policy_row_def)
  then have "reg_le reg (upd_run rid (policy_row now pol actor) reg)"
    by (rule reg_le_upd_run [OF policy(2) keeps_identity_policy_row])
  then show ?case
    using policy reg_le_refl by (auto simp: set_policy_Inr)
qed (blast intro: reg_le_create_run reg_le_apply_update [OF _ update_run_apply] reg_le_append_event)+

lemma reg_le_steps:
  assumes "(reg_step cdc)\<^sup>*\<^sup>* reg reg'" and inv: "reg_inv cdc reg"
  shows "reg_le reg reg' \<and> reg_inv cdc reg'"
  using assms(1)
proof (induction rule: rtranclp_induct)
  case base
  then show ?case using reg_le_refl inv by blast
next
  case (step y z)
  then show ?case using reg_le_step reg_le_trans reg_inv_step by blast
qed

lemma demo_create:
  "create_run plain_codec 5 ''run_1'' demo_request empty_registry =
     Inr (NewlyCreated (map_run plain_codec (new_row plain_codec 5 ''run_1'' demo_request)), demo_reg)"
  by (simp add: create_run_def find_idempotent_def demo_request_def empty_registry_def demo_reg_def row_by_def Let_def)

lemma demo_append:
  "append_event plain_codec (\<lambda>_. 7) ''run_1'' demo_event None demo_reg = Inr (Appended 1, demo_reg2)"
  by (simp add: append_event_def find_duplicate_def demo_reg_def demo_event_def empty_registry_def row_by_def
      demo_reg2_def journal_asterism_def Let_def)

lemma demo_approval:
  "record_approval_request plain_codec 8 ''run_1'' 1 None None demo_reg2 = Inr demo_reg3"
  by (simp add: record_approval_request_def demo_reg2_def demo_reg_def demo_reg3_def insert_event_def
      empty_registry_def row_by_def update_where_def)

lemma demo_steps:
  "reg_step plain_codec empty_registry demo_reg" "reg_step plain_codec demo_reg demo_reg2"
  "reg_step plain_codec demo_reg2 demo_reg3"
  using reg_step.create [OF demo_create] reg_step.append [OF demo_append] reg_step.request [OF demo_approval] .

lemma demo_later: "(reg_step plain_codec)\<^sup>*\<^sup>* demo_reg demo_reg2" "(reg_step plain_codec)\<^sup>*\<^sup>* demo_reg2 demo_reg3"
  using demo_steps by blast+

lemma demo_inv: "reg_inv plain_codec demo_reg" "reg_inv plain_codec demo_reg2" "reg_inv plain_codec demo_reg3"
  using reg_inv_empty reg_inv_step demo_steps by blast+

lemma demo_row: "run_row ''run_1'' demo_reg = Some (new_row plain_codec 5 ''run_1'' demo_request)"
  by (simp add: demo_reg_def row_by_def)

section \<open>The registry over time\<close>

lemma run_status_determined:
  "row_le r r' \<Longrightarrow> r_status r = run_status_as_str s \<Longrightarrow> is_terminal s \<Longrightarrow> r_status r' = run_status_as_str s"
  using run_life.terminal_forever run_status.as_str_inject unfolding row_le_def by metis

text \<open>
  C5.  Whatever sequence of registry operations succeeds, starting from an empty
  database, the tables stay consistent: run ids, idempotency keys and Hermes ids
  identify one run, every status is known and a run is finished exactly when its
  status is terminal, the journal of every run is numbered 1, 2, 3 ... without a
  gap up to the run's counter with no deduplication key used twice, approvals
  belong to runs, and every stored payload is the encoding of a redacted value.
\<close>

theorem reachable_registry_consistent:
  assumes "(reg_step cdc)\<^sup>*\<^sup>* empty_registry reg"
  shows "reg_inv cdc reg"
  using assms by (rule reg_sys.inv_reachable)

theorem reachable_registry_consistent_witness: "reg_inv plain_codec demo_reg2"
proof -
  have "(reg_step plain_codec)\<^sup>*\<^sup>* empty_registry demo_reg2"
    using demo_steps by (meson converse_rtranclp_into_rtranclp rtranclp.rtrancl_refl)
  then show ?thesis by (rule reachable_registry_consistent)
qed

text \<open>
  C6.  History is append-only: from a consistent registry, no sequence of
  operations loses a run, changes its identity, request or a finish time, moves
  its counter back, or removes or rewrites a journal entry; its status only moves
  along allowed transitions, and a settled status stays what it is.
\<close>

theorem registry_history_is_stable:
  assumes "reg_inv cdc reg" and "(reg_step cdc)\<^sup>*\<^sup>* reg reg'" and "run_row rid reg = Some r"
  shows "prefix (events_of rid reg) (events_of rid reg') \<and>
    (\<exists>r'. run_row rid reg' = Some r' \<and> row_le r r' \<and>
       (\<forall>s. r_status r = run_status_as_str s \<longrightarrow> is_terminal s \<longrightarrow> r_status r' = run_status_as_str s))"
proof -
  have le: "reg_le reg reg'" using reg_le_steps [OF assms(2,1)] by simp
  have "prefix (events_of rid reg) (events_of rid reg')"
    unfolding events_of_def using reg_le_events [OF le] by (auto simp: prefix_def)
  moreover obtain r' where "run_row rid reg' = Some r'" "row_le r r'"
    using reg_le_rowE [OF le assms(3)] by blast
  ultimately show ?thesis using run_status_determined by blast
qed

theorem registry_history_is_stable_witness: "prefix (events_of ''run_1'' demo_reg) (events_of ''run_1'' demo_reg2)"
  using registry_history_is_stable [OF demo_inv(1) demo_later(1) demo_row] by blast

section \<open>Idempotent creation\<close>

lemma run_id_map_run [simp]: "run_id (map_run cdc r) = r_run_id r"
  by (simp add: map_run_def)

lemma created_row:
  assumes cr: "create_run cdc now fresh request reg = Inr (c, reg1)" and inv: "reg_inv cdc reg"
    and key: "n_idempotency_key request \<noteq> None"
  shows "\<exists>row. run_row (run_id (creation_record c)) reg1 = Some row \<and> r_project_id row = n_project_id request \<and>
    r_idempotency_key row = n_idempotency_key request \<and>
    r_request_fingerprint row = request_fingerprint cdc request"
  using cr
proof (cases rule: create_run_cases)
  case (existing row q)
  then have "run_row (r_run_id row) reg = Some row"
    using find_idempotent_Some inv run_row_unique unfolding reg_inv_def by blast
  with existing find_idempotent_Some [OF existing(2)] show ?thesis by (auto dest: row_by_SomeD)
next
  case fresh
  then have "run_row fresh reg = None" by (simp add: run_row_None)
  with fresh show ?thesis by (simp add: row_by_append row_by_Cons)
qed

lemma create_run_replay:
  assumes inv: "reg_inv cdc reg" and row: "run_row rid reg = Some row"
    and key: "n_idempotency_key request \<noteq> None" "r_project_id row = n_project_id request"
      "r_idempotency_key row = n_idempotency_key request"
  shows "create_run cdc now fresh request reg =
    (if request_fingerprint cdc request = r_request_fingerprint row then Inr (Existing (map_run cdc row), reg)
     else Inl (IdempotencyConflict (n_project_id request) (the (n_idempotency_key request)) rid))"
proof -
  have row': "row \<in> set (runs reg)" "r_run_id row = rid" using row_by_SomeD [OF row] by simp_all
  have k: "keys_ok reg" using inv by (simp add: reg_inv_def)
  have "find_idempotent request reg \<noteq> None"
    using find_idempotent_None [of request reg row] row'(1) key by blast
  then obtain x where x: "find_idempotent request reg = Some x" by blast
  have "r_run_id x = r_run_id row"
    using find_idempotent_Some [OF x] keys_idempotencyD [OF k _ row'(1)] key by metis
  then have "x = row"
    using find_idempotent_Some [OF x] run_row_unique [OF k] row row'(2) by (metis option.inject)
  with x row row'(2) show ?thesis by (simp add: create_run_def load_run_def)
qed

text \<open>
  C7.  A submission carrying an idempotency key runs at most once.  After it has
  been accepted and any further operations have happened, submitting under the
  same key in the same project creates nothing: the request that was accepted
  first is returned when the fingerprints agree, and a conflict naming that run is
  raised when they differ.
\<close>

theorem create_run_is_idempotent:
  assumes inv: "reg_inv cdc reg" and cr: "create_run cdc now fresh request reg = Inr (c, reg1)"
    and key: "n_idempotency_key request = Some key" and steps: "(reg_step cdc)\<^sup>*\<^sup>* reg1 reg2"
    and again: "n_project_id request' = n_project_id request" "n_idempotency_key request' = Some key"
  shows "\<exists>row. run_row (run_id (creation_record c)) reg2 = Some row \<and>
    create_run cdc now' fresh' request' reg2 =
      (if request_fingerprint cdc request' = request_fingerprint cdc request
       then Inr (Existing (map_run cdc row), reg2)
       else Inl (IdempotencyConflict (n_project_id request) key (run_id (creation_record c))))"
proof -
  have inv1: "reg_inv cdc reg1" by (rule reg_inv_create_run [OF inv cr])
  have inv2: "reg_inv cdc reg2" and le: "reg_le reg1 reg2" using reg_le_steps [OF steps inv1] by simp_all
  obtain row where row: "run_row (run_id (creation_record c)) reg1 = Some row"
      "r_project_id row = n_project_id request" "r_idempotency_key row = n_idempotency_key request"
      "r_request_fingerprint row = request_fingerprint cdc request"
    using created_row [OF cr inv] key by auto
  obtain row2 where row2: "run_row (run_id (creation_record c)) reg2 = Some row2" "row_le row row2"
    using reg_le_rowE [OF le row(1)] by blast
  then show ?thesis
    using create_run_replay [OF inv2 row2(1), of request' now' fresh'] row again key
    by (auto simp: row_le_def)
qed

theorem create_run_is_idempotent_witness:
  "\<exists>row. create_run plain_codec 9 ''run_2'' demo_request demo_reg2 = Inr (Existing (map_run plain_codec row), demo_reg2)"
  using create_run_is_idempotent [OF reg_inv_empty demo_create _ demo_later(1),
      of "''k''" demo_request 9 "''run_2''"]
  by (auto simp: demo_request_def)

section \<open>The journal\<close>

lemma map_upto_filter_drop:
  assumes "map f xs = [m..n]" and "m \<le> a + 1"
  shows "filter (\<lambda>x. f x > a) xs = drop (nat (a + 1 - m)) xs"
  using assms
proof (induction xs arbitrary: m)
  case (Cons x xs)
  then have "m \<le> n" by (cases "m \<le> n") auto
  with Cons.prems have x: "f x = m" "map f xs = [m + 1..n]" by (simp_all add: upto_rec1)
  show ?case
  proof (cases "m = a + 1")
    case True
    have "f y > a" if "y \<in> set xs" for y
    proof -
      have "f y \<in> set [m + 1..n]" using that x(2) by (metis imageI list.set_map)
      then show ?thesis using True by simp
    qed
    then show ?thesis using True x(1) by simp
  next
    case False
    then have "m + 1 \<le> a + 1" using Cons.prems(2) by simp
    then have "nat (a + 1 - m) = Suc (nat (a + 1 - (m + 1)))" by simp
    then show ?thesis using Cons.IH [OF x(2) \<open>m + 1 \<le> a + 1\<close>] x(1) \<open>m + 1 \<le> a + 1\<close> by simp
  qed
qed simp

lemma drop_upto: "drop k [m..n] = [m + int k..n]"
proof (induction k arbitrary: m)
  case (Suc k)
  show ?case
  proof (cases "m \<le> n")
    case True
    then show ?thesis using Suc [of "m + 1"] by (simp add: upto_rec1 algebra_simps)
  qed simp
qed simp

lemma take_upto: "take k [m..n] = [m..min n (m + int k - 1)]"
proof (induction k arbitrary: m)
  case (Suc k)
  show ?case
  proof (cases "m \<le> n")
    case True
    then have "m \<le> min n (m + int (Suc k) - 1)" by simp
    then show ?thesis using True Suc [of "m + 1"] by (simp add: upto_rec1 algebra_simps)
  qed simp
qed simp

lemma se_seq_map_event [simp]: "se_seq (map_event cdc e) = e_seq e"
  by (simp add: map_event_def)

lemma events_since_drop:
  assumes "journal_ok reg" and "run_row rid reg = Some row" and "0 \<le> a" and "0 \<le> n"
  shows "events_since cdc rid a n reg = map (map_event cdc) (take (nat n) (drop (nat a) (events_of rid reg)))"
proof -
  have seqs: "map e_seq (events_of rid reg) = [1..r_last_event_seq row]"
    using journal_seqs [OF assms(1,2)] by simp
  have "filter (\<lambda>e. e_run_id e = rid \<and> e_seq e > a) (run_events reg) = filter (\<lambda>e. e_seq e > a) (events_of rid reg)"
    by (simp add: events_of_def conj_commute)
  also have "\<dots> = drop (nat a) (events_of rid reg)"
    using map_upto_filter_drop [OF seqs, of a] assms(3) by simp
  finally have page: "filter (\<lambda>e. e_run_id e = rid \<and> e_seq e > a) (run_events reg) = drop (nat a) (events_of rid reg)" .
  have "sorted (map e_seq (drop (nat a) (events_of rid reg)))"
    unfolding drop_map [symmetric] seqs drop_upto by simp
  then show ?thesis
    using assms(4) by (simp add: events_since_def page sort_key_id_if_sorted sql_limit_def)
qed

text \<open>
  C8.  Reading the journal with a cursor returns exactly the next page: the
  events of that run directly after the cursor, at most the limit, numbered
  without a gap up to the run's counter.  Since the next cursor is the last number
  returned, consecutive reads miss nothing and repeat nothing.
\<close>

theorem events_since_is_next_page:
  assumes "reg_inv cdc reg" and "run_row rid reg = Some row" and "0 \<le> cursor" and "0 \<le> limit"
  shows "events_since cdc rid cursor limit reg =
      map (map_event cdc) (take (nat limit) (drop (nat cursor) (events_of rid reg))) \<and>
    map se_seq (events_since cdc rid cursor limit reg) =
      [cursor + 1..min (r_last_event_seq row) (cursor + limit)]"
proof -
  have j: "journal_ok reg" using assms(1) by (simp add: reg_inv_def)
  have "map se_seq (events_since cdc rid cursor limit reg) =
      take (nat limit) (drop (nat cursor) (map e_seq (events_of rid reg)))"
    by (simp add: events_since_drop [OF j assms(2-4)] take_map drop_map comp_def)
  also have "\<dots> = [cursor + 1..min (r_last_event_seq row) (cursor + limit)]"
    using journal_seqs [OF j assms(2)] assms(3,4) by (simp add: drop_upto take_upto add.commute)
  finally show ?thesis using events_since_drop [OF j assms(2-4)] by simp
qed

theorem events_since_is_next_page_witness: "map se_seq (events_since plain_codec ''run_1'' 0 5 demo_reg2) = [1]"
proof -
  obtain row where row: "run_row ''run_1'' demo_reg2 = Some row" "r_last_event_seq row = 1"
    by (simp add: demo_reg2_def insert_event_def demo_reg_def row_by_def update_where_def)
  from conjunct2 [OF events_since_is_next_page [OF demo_inv(2) row(1), of 0 5]] show ?thesis
    using row(2) by simp
qed

lemma journal_length:
  assumes "journal_ok reg" and "run_row rid reg = Some row"
  shows "length (events_of rid reg) = nat (r_last_event_seq row)"
proof -
  have "length (map e_seq (events_of rid reg)) = length [1..r_last_event_seq row]"
    using journal_seqs [OF assms] by simp
  then show ?thesis by simp
qed

lemma append_event_effect:
  assumes "append_event cdc now rid ev upd reg = Inr (Appended n, reg')"
  shows "\<exists>row. run_row rid reg = Some row \<and> n = r_last_event_seq row + 1 \<and>
    run_events reg' = run_events reg @ [event_row cdc (now 0) rid n ev]"
  using assms by (auto simp: append_event_Inr apply_update_Inr insert_event_def split: option.splits)

lemma appended_event:
  assumes "append_event cdc now rid ev upd reg = Inr (outcome, reg1)" and "j_dedupe_key ev \<noteq> None"
  shows "\<exists>e \<in> set (run_events reg1). e_run_id e = rid \<and> e_dedupe_key e = j_dedupe_key ev \<and> e_seq e = outcome_seq outcome"
proof (cases outcome)
  case (Appended n)
  then show ?thesis using append_event_effect [of cdc now rid ev upd reg n reg1] assms(1) by auto
next
  case (Duplicate n)
  then show ?thesis using assms by (auto simp: append_event_Inr dest!: find_duplicate_Some)
qed

text \<open>
  C9.  An event with a deduplication key is journalled exactly once.  After it
  has been appended, and whatever happened since, appending an event of the same
  run with the same key reports the number it was first stored under and changes
  nothing, not even through the status update that comes with it.
\<close>

theorem append_event_exactly_once:
  assumes inv: "reg_inv cdc reg" and app: "append_event cdc now rid ev upd reg = Inr (outcome, reg1)"
    and key: "j_dedupe_key ev = Some key" and steps: "(reg_step cdc)\<^sup>*\<^sup>* reg1 reg2"
    and again: "j_dedupe_key ev' = Some key"
  shows "append_event cdc now' rid ev' upd' reg2 = Inr (Duplicate (outcome_seq outcome), reg2)"
proof -
  have inv1: "reg_inv cdc reg1" by (rule reg_inv_append_event [OF inv app])
  have inv2: "reg_inv cdc reg2" and le: "reg_le reg1 reg2" using reg_le_steps [OF steps inv1] by simp_all
  obtain e where e: "e \<in> set (run_events reg1)" "e_run_id e = rid" "e_dedupe_key e = Some key"
      "e_seq e = outcome_seq outcome"
    using appended_event [OF app] key by auto
  then have e2: "e \<in> set (run_events reg2)"
    using reg_le_events [OF le] set_mono_prefix by blast
  then obtain x where x: "find_duplicate rid ev' reg2 = Some x"
    using find_duplicate_None [of rid ev' reg2 e] e again by fastforce
  have "e_seq x = e_seq e"
    using find_duplicate_Some [OF x] e e2 again inv2 unfolding reg_inv_def journal_ok_def dedupe_ok_def by metis
  moreover obtain row where "run_row rid reg2 = Some row"
    using inv2 e2 e(2) run_row_None [of rid reg2] unfolding reg_inv_def journal_ok_def by auto
  ultimately show ?thesis using x e(4) by (simp add: append_event_def)
qed

theorem append_event_exactly_once_witness:
  "append_event plain_codec (\<lambda>_. 11) ''run_1'' demo_event (Some (update_status Starting)) demo_reg3 = Inr (Duplicate 1, demo_reg3)"
  using append_event_exactly_once [OF demo_inv(1) demo_append _ demo_later(2),
      of "''e''" demo_event "\<lambda>_. 11" "Some (update_status Starting)"]
  by (simp add: demo_event_def)

text \<open>
  A new event is stored under the next number of its run, together with the
  status change it carries or not at all: on success the journal is the old one
  with this event at the end and the run's counter is its number, and the new
  journal entry is what a reader of the cursor just before it receives.
\<close>

theorem append_event_is_next:
  assumes inv: "reg_inv cdc reg" and app: "append_event cdc now rid ev upd reg = Inr (Appended n, reg')"
  shows "run_events reg' = run_events reg @ [event_row cdc (now 0) rid n ev] \<and>
    (\<exists>row'. run_row rid reg' = Some row' \<and> r_last_event_seq row' = n) \<and>
    events_since cdc rid (n - 1) 1 reg' = [map_event cdc (event_row cdc (now 0) rid n ev)]"
proof -
  obtain row where row: "run_row rid reg = Some row" "n = r_last_event_seq row + 1"
    and ev: "run_events reg' = run_events reg @ [event_row cdc (now 0) rid n ev]"
    using append_event_effect [OF app] by blast
  have inv': "reg_inv cdc reg'" by (rule reg_inv_append_event [OF inv app])
  obtain row' where row': "run_row rid reg' = Some row'"
    using reg_le_rowE [OF reg_le_append_event [OF inv app] row(1)] by blast
  have j: "journal_ok reg" "journal_ok reg'" using inv inv' by (simp_all add: reg_inv_def)
  have of': "events_of rid reg' = events_of rid reg @ [event_row cdc (now 0) rid n ev]"
    by (simp add: events_of_def ev)
  have len: "length (events_of rid reg) = nat (n - 1)" "0 \<le> n - 1"
    using journal_length [OF j(1) row(1)] journal_seqs [OF j(1) row(1)] row(2) by simp_all
  have "length (events_of rid reg') = nat (r_last_event_seq row')" "0 \<le> r_last_event_seq row'"
    using journal_length [OF j(2) row'] journal_seqs [OF j(2) row'] by simp_all
  then have "r_last_event_seq row' = n" using of' len by simp
  moreover have "events_since cdc rid (n - 1) 1 reg' = [map_event cdc (event_row cdc (now 0) rid n ev)]"
    using events_since_drop [OF j(2) row' len(2)] of' len(1) by simp
  ultimately show ?thesis using ev row' by blast
qed

theorem append_event_is_next_witness:
  "events_since plain_codec ''run_1'' 0 1 demo_reg2 = [map_event plain_codec (event_row plain_codec 7 ''run_1'' 1 demo_event)]"
  using append_event_is_next [OF demo_inv(1) demo_append] by simp

section \<open>Approvals\<close>

lemma approval_unique:
  assumes "approvals_ok reg" and "a \<in> set (run_approvals reg)" and "b \<in> set (run_approvals reg)"
    and "a_run_id a = a_run_id b" and "a_request_seq a = a_request_seq b"
  shows "a = b"
proof -
  have "inj_on (\<lambda>a. (a_run_id a, a_request_seq a)) (set (run_approvals reg))"
    using assms(1) by (simp add: approvals_ok_def distinct_map)
  then show ?thesis using assms(2-5) by (auto dest: inj_onD)
qed

lemma decided_stays_decided:
  assumes ok: "approvals_ok reg" and a: "a \<in> set (run_approvals reg)" "a_run_id a = rid" "a_request_seq a = n"
    and dec: "a_decision a \<noteq> None"
  shows "record_approval_decision now rid n d reg = (False, reg)"
proof -
  have none: "\<not> undecided rid n b" if "b \<in> set (run_approvals reg)" for b
    using approval_unique [OF ok a(1) that] a(2,3) dec unfolding undecided_def by metis
  have "update_where (undecided rid n) f (run_approvals reg) = run_approvals reg" for f
    by (rule update_where_none) (rule none)
  moreover have "count_where (undecided rid n) (run_approvals reg) = 0"
    using none by (simp add: count_where_def filter_empty_conv)
  ultimately show ?thesis by (simp add: record_approval_decision_def)
qed

lemma decision_recorded:
  assumes "record_approval_decision now rid n d reg = (True, reg1)"
  shows "\<exists>a \<in> set (run_approvals reg1). a_run_id a = rid \<and> a_request_seq a = n \<and>
    a_decision a = Some d \<and> a_decided_at a = Some now"
proof -
  have "filter (undecided rid n) (run_approvals reg) \<noteq> []"
    using assms by (auto simp: record_approval_decision_def count_where_def)
  then obtain a where a: "a \<in> set (run_approvals reg)" "undecided rid n a"
    by (auto simp: filter_empty_conv)
  let ?f = "\<lambda>a. a\<lparr>a_decision := Some d, a_decided_at := Some now\<rparr>"
  have "run_approvals reg1 = update_where (undecided rid n) ?f (run_approvals reg)"
    using assms by (auto simp: record_approval_decision_def)
  then have "(if undecided rid n a then ?f a else a) \<in> set (run_approvals reg1)"
    using in_update_where [OF a(1), of "undecided rid n" ?f] by simp
  then show ?thesis
    using a(2) by (intro bexI [of _ "?f a"]) (auto simp: undecided_def)
qed

lemma decision_is_final:
  assumes inv: "reg_inv cdc reg" and dec: "record_approval_decision now rid n d reg = (True, reg1)"
    and steps: "(reg_step cdc)\<^sup>*\<^sup>* reg1 reg2"
  shows "record_approval_decision now' rid n d' reg2 = (False, reg2) \<and>
    (\<exists>a \<in> set (approvals rid reg2). a_request_seq a = n \<and> a_decision a = Some d \<and> a_decided_at a = Some now)"
proof -
  have inv1: "reg_inv cdc reg1" by (rule reg_inv_approval_decision [OF inv dec])
  have inv2: "reg_inv cdc reg2" and le: "reg_le reg1 reg2" using reg_le_steps [OF steps inv1] by simp_all
  obtain a where a: "a \<in> set (run_approvals reg1)" "a_run_id a = rid" "a_request_seq a = n"
      "a_decision a = Some d" "a_decided_at a = Some now"
    using decision_recorded [OF dec] by blast
  obtain b where b: "b \<in> set (run_approvals reg2)" "approval_le a b"
    using reg_le_approvalE [OF le a(1)] by blast
  have ok2: "approvals_ok reg2" using inv2 by (simp add: reg_inv_def)
  have "record_approval_decision now' rid n d' reg2 = (False, reg2)"
    by (rule decided_stays_decided [OF ok2 b(1)]) (use a b(2) in \<open>auto simp: approval_le_def\<close>)
  then show ?thesis using a b by (auto simp: approvals_def approval_le_def)
qed

text \<open>
  C10.  An approval is decided at most once.  When recording a decision reports
  success, every later attempt on the same request, by whichever of several
  concurrent operators and after any other operations, reports failure and changes
  nothing, and the first decision and its time stay on record.
\<close>

theorem approval_decided_once:
  assumes inv: "reg_inv cdc reg" and dec: "record_approval_decision now rid n d reg = (True, reg1)"
    and steps: "(reg_step cdc)\<^sup>*\<^sup>* reg1 reg2"
  shows "record_approval_decision now' rid n d' reg2 = (False, reg2) \<and>
    (\<exists>a \<in> set (approvals rid reg2). a_request_seq a = n \<and> a_decision a = Some d \<and> a_decided_at a = Some now)"
  using assms by (rule decision_is_final)

theorem approval_decided_once_witness:
  "fst (record_approval_decision 20 ''run_1'' 1 ''deny''
     (snd (record_approval_decision 10 ''run_1'' 1 ''approve'' demo_reg3))) = False"
proof -
  have "record_approval_decision 10 ''run_1'' 1 ''approve'' demo_reg3 =
      (True, snd (record_approval_decision 10 ''run_1'' 1 ''approve'' demo_reg3))"
    by (simp add: record_approval_decision_def demo_reg3_def count_where_def undecided_def)
  from approval_decided_once [OF demo_inv(3) this rtranclp.rtrancl_refl] show ?thesis by simp
qed

section \<open>The approval bypass\<close>

lemma policy_upd_run:
  assumes "run_row k (upd_run rid f reg) = Some r'" and "keeps_identity f"
    and "\<And>r. r_approval_policy (f r) = r_approval_policy r"
  shows "\<exists>r. run_row k reg = Some r \<and> r_approval_policy r = r_approval_policy r'"
  using assms by (auto simp: run_row_upd_run)

lemma policy_apply_update:
  assumes "apply_update cdc now rid u reg = Inr reg'" and "run_row k reg' = Some r'"
  shows "\<exists>r. run_row k reg = Some r \<and> r_approval_policy r = r_approval_policy r'"
proof -
  obtain target where "reg' = upd_run rid (updated_row cdc now u target) reg"
    using assms(1) unfolding apply_update_Inr by metis
  then show ?thesis
    using policy_upd_run [of k rid "updated_row cdc now u target" reg r'] assms(2)
    by (simp add: updated_row_def)
qed

lemma policy_insert_event:
  assumes "run_row k (insert_event cdc now rid n ev reg) = Some r'"
  shows "\<exists>r. run_row k reg = Some r \<and> r_approval_policy r = r_approval_policy r'"
  using policy_upd_run [OF _ keeps_identity_bump, of k rid now n reg r'] assms by (simp add: insert_event_upd)

lemma policy_append_event:
  assumes "append_event cdc now rid ev upd reg = Inr (outcome, reg')" and "run_row k reg' = Some r'"
  shows "\<exists>r. run_row k reg = Some r \<and> r_approval_policy r = r_approval_policy r'"
proof -
  obtain n where "reg' = reg \<or> reg' = insert_event cdc now rid n ev reg \<or>
      (\<exists>u. apply_update cdc (now 2) rid u (insert_event cdc now rid n ev reg) = Inr reg')"
    using assms(1) unfolding append_event_Inr by (cases upd) auto
  then show ?thesis
    using assms(2) policy_insert_event policy_apply_update by metis
qed

lemma policy_create_run:
  assumes "create_run cdc now fresh request reg = Inr (c, reg')" and "run_row k reg' = Some r'"
  shows "(\<exists>r. run_row k reg = Some r \<and> r_approval_policy r = r_approval_policy r') \<or>
    r_approval_policy r' = policy_as_str Manual"
  using assms(1)
proof (cases rule: create_run_cases)
  case existing
  then show ?thesis using assms(2) by simp
next
  case fresh
  then show ?thesis using assms(2)
    by (auto simp: row_by_append row_by_Cons row_by_Nil new_row_def split: option.splits if_splits)
qed

lemma set_policy_enables:
  assumes set: "set_run_approval_policy cdc now rid' pol actor reg = Inr (b, reg')"
    and after: "run_row rid reg' = Some r'" and bypass: "r_approval_policy r' = policy_as_str AllowAllForRun"
    and new: "\<not> (\<exists>r. run_row rid reg = Some r \<and> r_approval_policy r = r_approval_policy r')"
  shows "\<exists>row s. set_run_approval_policy cdc now rid AllowAllForRun actor reg = Inr (True, reg') \<and>
    run_row rid reg = Some row \<and> run_status_parse (r_status row) = Inr s \<and> is_active s \<and>
    r_policy_enabled_by r' = actor"
proof -
  obtain row s current where row: "run_row rid' reg = Some row" "run_status_parse (r_status row) = Inr s"
      "\<not> is_terminal s" "policy_parse (r_approval_policy row) = Inr current" "b = (current \<noteq> pol)"
    and reg': "reg' = (if current = pol then reg else upd_run rid' (policy_row now pol actor) reg)"
    using set unfolding set_policy_Inr by blast
  then have b: b and upd: "reg' = upd_run rid' (policy_row now pol actor) reg"
    using new after by (cases "current = pol"; simp)+
  obtain r where r: "run_row rid reg = Some r" "r' = (if r_run_id r = rid' then policy_row now pol actor r else r)"
    using after unfolding upd by (auto simp: run_row_upd_run keeps_identity_policy_row)
  have same: "r_run_id r = rid'"
    using new r by (auto split: if_splits)
  then have rid: "rid' = rid" using r(1) row_by_SomeD by metis
  have "policy_as_str pol = policy_as_str AllowAllForRun"
    using r(2) same bypass by (simp add: policy_row_def)
  then have pol: "pol = AllowAllForRun" by (simp only: run_policy.as_str_inject)
  have "r_policy_enabled_by r' = actor" using r(2) same pol by (simp add: policy_row_def)
  then show ?thesis
    using set row(1-3) b rid pol by (intro exI [of _ row] exI [of _ s]) (simp add: is_active_def)
qed

text \<open>
  C11.  The approval bypass fails closed.  A run that starts to bypass approval
  in some step does so because that step was the explicit request to enable it,
  made while the run was still active and recorded with the actor who made it; no
  creation, status change, journal entry or approval ever enables it.
\<close>

theorem bypass_only_by_request:
  assumes step: "reg_step cdc reg reg'" and after: "run_row rid reg' = Some r'"
    and bypass: "r_approval_policy r' = policy_as_str AllowAllForRun"
    and before: "\<And>r. run_row rid reg = Some r \<Longrightarrow> r_approval_policy r \<noteq> policy_as_str AllowAllForRun"
  shows "\<exists>now actor row s. set_run_approval_policy cdc now rid AllowAllForRun actor reg = Inr (True, reg') \<and>
    run_row rid reg = Some row \<and> run_status_parse (r_status row) = Inr s \<and> is_active s \<and>
    r_policy_enabled_by r' = actor"
proof -
  have new: "\<not> (\<exists>r. run_row rid reg = Some r \<and> r_approval_policy r = r_approval_policy r')"
    using before bypass by force
  from step show ?thesis
  proof cases
    case (policy now rid' pol actor b)
    then show ?thesis using set_policy_enables [OF policy after bypass new] by blast
  next
    case (create now fresh request c)
    then show ?thesis using policy_create_run [OF create after] new bypass by simp
  next
    case (change now rid' u rec)
    then show ?thesis using policy_apply_update [OF update_run_apply [OF change] after] new by blast
  next
    case (append clock rid' ev upd outcome)
    then show ?thesis using policy_append_event [OF append after] new by blast
  next
    case (request now rid' n command choices)
    then have "runs reg' = runs reg" by (auto simp: record_approval_request_def split: if_splits)
    then show ?thesis using after new by simp
  next
    case (decide now rid' n d b)
    then have "runs reg' = runs reg" by (auto simp: record_approval_decision_def)
    then show ?thesis using after new by simp
  next
    case (resolve rid' n k)
    then show ?thesis using after new by (simp add: record_approval_resolution_def)
  qed
qed

theorem bypass_only_by_request_witness:
  "\<exists>now actor reg'. set_run_approval_policy plain_codec now ''run_1'' AllowAllForRun actor demo_reg = Inr (True, reg')"
proof -
  let ?reg' = "upd_run ''run_1'' (policy_row 9 AllowAllForRun (Some ''ana'')) demo_reg"
  have "set_run_approval_policy plain_codec 9 ''run_1'' AllowAllForRun (Some ''ana'') demo_reg = Inr (True, ?reg')"
    unfolding set_policy_Inr demo_row
    by (intro exI [of _ "new_row plain_codec 5 ''run_1'' demo_request"] exI [of _ Created] exI [of _ Manual])
       (simp add: new_row_def run_status_parse_def policy_parse_def)
  then have step: "reg_step plain_codec demo_reg ?reg'" by (rule reg_step.policy)
  have after: "run_row ''run_1'' ?reg' =
      Some (policy_row 9 AllowAllForRun (Some ''ana'') (new_row plain_codec 5 ''run_1'' demo_request))"
    using demo_row by (simp add: run_row_upd_run keeps_identity_policy_row)
  show ?thesis
    using bypass_only_by_request [OF step after] demo_row by (auto simp: policy_row_def new_row_def)
qed

section \<open>Migration\<close>

lemma migrate_from_2: "2 \<le> v \<Longrightarrow> v \<le> SCHEMA_VERSION \<Longrightarrow> migrate_from v reg = Inr (SCHEMA_VERSION, reg)"
proof (induction "nat (SCHEMA_VERSION - v)" arbitrary: v)
  case 0
  then have "v = SCHEMA_VERSION" by simp
  then show ?case by (simp add: migrate_from.simps [of SCHEMA_VERSION])
next
  case (Suc k)
  then have v: "v < SCHEMA_VERSION" by simp
  then have "migrate_from (v + 1) reg = Inr (SCHEMA_VERSION, reg)"
    using Suc by (intro Suc.hyps(1)) simp_all
  then show ?case using v Suc.prems by (simp add: migrate_from.simps [of v] apply_migration_def SCHEMA_VERSION_def)
qed

text \<open>
  Opening a database always ends at the current schema or refuses a newer one;
  the only migration that rewrites rows is the second, and it leaves no run in the
  statuses it reclassifies without a finish time.
\<close>

lemma migrate_result:
  "0 \<le> v \<Longrightarrow> v \<le> SCHEMA_VERSION \<Longrightarrow>
     migrate (Some v) reg = Inr (SCHEMA_VERSION, if v < 2 then reg\<lparr>runs := migration_002 (runs reg)\<rparr> else reg)"
proof -
  assume v: "0 \<le> v" "v \<le> SCHEMA_VERSION"
  then consider "v = 0" | "v = 1" | "2 \<le> v" by linarith
  then show ?thesis
  proof cases
    case 3
    then show ?thesis using v by (simp add: migrate_def migrate_from_2)
  qed (use migrate_from_2 [of 2] in
        \<open>simp_all add: migrate_def migrate_from.simps [of 0] migrate_from.simps [of 1] apply_migration_def SCHEMA_VERSION_def\<close>)
qed

lemma migrate_newer: "v > SCHEMA_VERSION \<Longrightarrow> migrate (Some v) reg = Inl (NewerSchema v)"
  by (simp add: migrate_def)

lemma migration_002_finishes:
  "r \<in> set (migration_002 rows) \<Longrightarrow> r_status r \<in> {''interrupted'', ''lost''} \<Longrightarrow> r_finished_at r \<noteq> None"
  by (auto simp: migration_002_def set_update_where split: if_splits)

section \<open>The size of a stored request\<close>

lemma cut_end_cong:
  assumes "take (Suc n) s = take (Suc n) t" and "n < length s" and "n < length t"
  shows "cut_end s n = cut_end t n"
  using assms
proof (induction n)
  case (Suc n)
  have nth: "s ! Suc n = t ! Suc n"
    using Suc.prems by (metis lessI nth_take)
  have "take (Suc n) s = take (Suc n) t"
    using arg_cong [where f = "take (Suc n)", OF Suc.prems(1)] by (simp add: min_def)
  then have "cut_end s n = cut_end t n" using Suc by simp
  moreover have "is_char_boundary s (Suc n) = is_char_boundary t (Suc n)"
    using Suc.prems nth by (simp add: is_char_boundary_def)
  ultimately show ?case by simp
qed simp

lemma bound_string_long:
  assumes "take (Suc MAX_STRING_BYTES) s = take (Suc MAX_STRING_BYTES) t"
    and "MAX_STRING_BYTES < length s" and "MAX_STRING_BYTES < length t"
  shows "bound_string s = bound_string t"
proof -
  have cut: "cut_end s MAX_STRING_BYTES = cut_end t MAX_STRING_BYTES"
    by (rule cut_end_cong [OF assms])
  have "take (cut_end t MAX_STRING_BYTES) (take (Suc MAX_STRING_BYTES) s) =
        take (cut_end t MAX_STRING_BYTES) (take (Suc MAX_STRING_BYTES) t)"
    using assms(1) by simp
  then have "take (cut_end t MAX_STRING_BYTES) s = take (cut_end t MAX_STRING_BYTES) t"
    using cut_end_le [of t MAX_STRING_BYTES] by (simp add: min_def split: if_splits)
  then show ?thesis using cut assms(2,3) by (simp add: bound_string_def)
qed

lemma redact_prompt:
  assumes "\<not> looks_like_secret s"
  shows "red_value (redact (JObject [(''attachments'', a), (''input'', JString s), (''instructions'', i)])) =
    JObject [(''attachments'', fst (walk a 1)), (''input'', JString (fst (bound_string s))),
             (''instructions'', fst (walk i 1))]"
proof -
  have key: "\<not> is_environment_key k" "\<not> is_secret_key k" "k \<noteq> SAFE_METADATA_KEY"
    if "k \<in> {''attachments'', ''input'', ''instructions''}" for k
    using that by (auto simp: key_eval)
  obtain a' f where "walk a 1 = (a', f)" by force
  moreover obtain i' g where "walk i 1 = (i', g)" by force
  moreover obtain t h where "bound_string s = (t, h)" by force
  ultimately show ?thesis
    using assms by (simp add: redact_def key walk.simps [of _ 0] walk.simps [of "JString s"] MAX_DEPTH_def)
qed

text \<open>
  C12.  The registry stores and fingerprints the redacted request, in which every
  string is cut at the bound for journalled strings.  Two prompts that agree up to
  that bound are therefore one request: a submission of the second under the
  idempotency key of the first is answered with the run of the first, and the
  stored request holds only the cut prompt.
\<close>

theorem long_prompts_are_one_request:
  assumes "take (Suc MAX_STRING_BYTES) s = take (Suc MAX_STRING_BYTES) t"
    and "MAX_STRING_BYTES < length s" and "MAX_STRING_BYTES < length t"
    and "\<not> looks_like_secret s" and "\<not> looks_like_secret t"
    and "n_request_payload q = JObject [(''attachments'', a), (''input'', JString s), (''instructions'', i)]"
  shows "request_fingerprint cdc
      (q\<lparr>n_request_payload := JObject [(''attachments'', a), (''input'', JString t), (''instructions'', i)]\<rparr>) =
    request_fingerprint cdc q \<and>
    get_str ''input'' (red_value (redact (n_request_payload q))) =
      Some (take (cut_end s MAX_STRING_BYTES) s @ TRUNCATION_MARK)"
  using bound_string_long [OF assms(1-3)] assms(2-6)
  by (simp add: request_fingerprint_def redact_prompt bound_string_def get_str_def)

lemma looks_like_secret_chars:
  assumes "CHR ''y'' \<notin> set s" and "CHR ''-'' \<notin> set s" and "CHR '' '' \<notin> set s"
  shows "\<not> looks_like_secret s"
proof -
  obtain a b where "s = a @ trim s @ b" using trim_infix by blast
  then have "set (trim s) \<subseteq> set s" by (metis Un_iff set_append subsetI)
  with assms have no: "CHR ''y'' \<notin> set (trim s)" "CHR ''-'' \<notin> set (trim s)" "CHR '' '' \<notin> set (trim s)" by blast+
  have "\<not> starts_with ''eyJ'' (trim s)" "\<not> starts_with ''sk-'' (trim s)"
    using no by (auto simp: starts_with_iff)
  moreover have "\<not> starts_with ''bearer '' (map to_ascii_lower (trim s))"
  proof
    assume "starts_with ''bearer '' (map to_ascii_lower (trim s))"
    then have "CHR '' '' \<in> set (map to_ascii_lower (trim s))" by (auto simp: starts_with_iff)
    then obtain c where c: "c \<in> set (trim s)" "to_ascii_lower c = CHR '' ''" by auto
    show False
    proof (cases "is_ascii_upper c")
      case True
      then have "(of_char (to_ascii_lower c) :: nat) = of_char c + 32"
        by (simp add: to_ascii_lower_def is_ascii_upper_def)
      then show False using c(2) True by (simp add: is_ascii_upper_def)
    next
      case False
      then show False using c no(3) by (simp add: to_ascii_lower_def)
    qed
  qed
  ultimately show ?thesis by (simp add: looks_like_secret_def Let_def)
qed

theorem long_prompts_are_one_request_witness:
  "request_fingerprint plain_codec (demo_request\<lparr>n_request_payload :=
      JObject [(''attachments'', JNull), (''input'', JString (replicate 9000 (CHR ''a''))), (''instructions'', JNull)]\<rparr>) =
   request_fingerprint plain_codec (demo_request\<lparr>n_request_payload :=
      JObject [(''attachments'', JNull), (''input'', JString (replicate 9001 (CHR ''a''))), (''instructions'', JNull)]\<rparr>)"
  using long_prompts_are_one_request [of "replicate 9001 (CHR ''a'')" "replicate 9000 (CHR ''a'')"
      "demo_request\<lparr>n_request_payload :=
      JObject [(''attachments'', JNull), (''input'', JString (replicate 9001 (CHR ''a''))), (''instructions'', JNull)]\<rparr>"
      JNull JNull plain_codec]
  by (simp add: MAX_STRING_BYTES_def looks_like_secret_chars)

end
