(* ===== verification/Json_Codec.thy ===== *)
theory Json_Codec
  imports Json
begin

text \<open>
  What the sources rely on of \<open>serde_json\<close>: a value without floating-point
  numbers is read back as it was printed.  The printer and the parser stay parameters; the small self-delimiting
  format below is one pair that satisfies the assumption.
\<close>

definition lossless :: "codec \<Rightarrow> bool" where
  "lossless cdc \<longleftrightarrow> (\<forall>v. exact_json v \<longrightarrow> from_str cdc (to_string cdc v) = Some v)"

section \<open>A lossless pair\<close>

fun enc_str :: "string \<Rightarrow> string" where
  "enc_str [] = ''!''"
| "enc_str (c # s) = CHR ''.'' # c # enc_str s"

fun dec_str :: "string \<Rightarrow> (string \<times> string) option" where
  "dec_str (x # y # r) =
     (if x = CHR ''.'' then map_option (\<lambda>(s, t). (y # s, t)) (dec_str r)
      else if x = CHR ''!'' then Some ([], y # r) else None)"
| "dec_str [x] = (if x = CHR ''!'' then Some ([], []) else None)"
| "dec_str [] = None"

lemma dec_enc_str [simp]: "dec_str (enc_str s @ r) = Some (s, r)"
proof (induction s)
  case Nil
  then show ?case by (cases r) simp_all
qed simp

text \<open>Numbers in unary: the bytes are irrelevant.\<close>

definition enc_nat :: "nat \<Rightarrow> string" where
  "enc_nat n = enc_str (replicate n (CHR ''1''))"

definition dec_nat :: "string \<Rightarrow> (nat \<times> string) option" where
  "dec_nat s = map_option (\<lambda>(t, r). (length t, r)) (dec_str s)"

lemma dec_enc_nat [simp]: "dec_nat (enc_nat n @ r) = Some (n, r)"
  by (simp add: dec_nat_def enc_nat_def)

fun enc_number :: "number \<Rightarrow> string" where
  "enc_number (PosInt n) = CHR ''p'' # enc_nat n"
| "enc_number (NegInt i) = (if i < 0 then CHR ''m'' # enc_nat (nat (- i)) else CHR ''i'' # enc_nat (nat i))"
| "enc_number (Float w) = CHR ''w'' # enc_nat (unat w)"

definition dec_number :: "char \<Rightarrow> string \<Rightarrow> (number \<times> string) option" where
  "dec_number c s = map_option (\<lambda>(n, r).
     (if c = CHR ''p'' then PosInt n else if c = CHR ''m'' then NegInt (- int n)
      else if c = CHR ''i'' then NegInt (int n) else Float (of_nat n), r)) (dec_nat s)"

fun enc :: "json \<Rightarrow> string"
  and enc_items :: "json list \<Rightarrow> string"
  and enc_entries :: "obj \<Rightarrow> string" where
  "enc JNull = ''n''"
| "enc (JBool b) = (if b then ''t'' else ''f'')"
| "enc (JNumber x) = CHR ''#'' # enc_number x"
| "enc (JString s) = CHR ''s'' # enc_str s"
| "enc (JArray xs) = CHR ''['' # enc_items xs"
| "enc (JObject m) = CHR ''{'' # enc_entries m"
| "enc_items [] = '']''"
| "enc_items (x # xs) = CHR '','' # enc x @ enc_items xs"
| "enc_entries [] = ''}''"
| "enc_entries ((k, v) # m) = CHR '','' # enc_str k @ enc v @ enc_entries m"

fun dec :: "nat \<Rightarrow> string \<Rightarrow> (json \<times> string) option"
  and dec_items :: "nat \<Rightarrow> string \<Rightarrow> (json list \<times> string) option"
  and dec_entries :: "nat \<Rightarrow> string \<Rightarrow> (obj \<times> string) option" where
  "dec (Suc k) (c # s) =
     (if c = CHR ''n'' then Some (JNull, s)
      else if c = CHR ''t'' then Some (JBool True, s)
      else if c = CHR ''f'' then Some (JBool False, s)
      else if c = CHR ''#'' then
        (case s of [] \<Rightarrow> None | x # s' \<Rightarrow> map_option (\<lambda>(n, r). (JNumber n, r)) (dec_number x s'))
      else if c = CHR ''s'' then map_option (\<lambda>(t, r). (JString t, r)) (dec_str s)
      else if c = CHR ''['' then map_option (\<lambda>(xs, r). (JArray xs, r)) (dec_items k s)
      else if c = CHR ''{'' then map_option (\<lambda>(m, r). (JObject m, r)) (dec_entries k s)
      else None)"
| "dec _ _ = None"
| "dec_items (Suc k) (c # s) =
     (if c = CHR '']'' then Some ([], s)
      else if c = CHR '','' then
        (case dec k s of None \<Rightarrow> None
         | Some (x, r) \<Rightarrow> map_option (\<lambda>(xs, t). (x # xs, t)) (dec_items k r))
      else None)"
| "dec_items _ _ = None"
| "dec_entries (Suc k) (c # s) =
     (if c = CHR ''}'' then Some ([], s)
      else if c = CHR '','' then
        (case dec_str s of None \<Rightarrow> None
         | Some (key, r) \<Rightarrow>
             (case dec k r of None \<Rightarrow> None
              | Some (v, t) \<Rightarrow> map_option (\<lambda>(m, u). ((key, v) # m, u)) (dec_entries k t)))
      else None)"
| "dec_entries _ _ = None"

lemma dec_enc_number: "\<exists>c s. enc_number x = c # s \<and> dec_number c (s @ r) = Some (x, r)"
  by (cases x) (auto simp: dec_number_def)

lemma dec_enc:
  "length (enc v) \<le> n \<Longrightarrow> dec n (enc v @ r) = Some (v, r)"
  "length (enc_items xs) \<le> n \<Longrightarrow> dec_items n (enc_items xs @ r) = Some (xs, r)"
  "length (enc_entries m) \<le> n \<Longrightarrow> dec_entries n (enc_entries m @ r) = Some (m, r)"
proof (induction v and xs and m arbitrary: n r and n r and n r rule: enc_enc_items_enc_entries.induct)
  case (3 x)
  obtain c s where "enc_number x = c # s" "dec_number c (s @ r) = Some (x, r)"
    using dec_enc_number by blast
  then show ?case using 3 by (cases n) auto
next
  case (8 x xs)
  then show ?case by (cases n) auto
next
  case (10 k v m)
  then show ?case by (cases n) auto
qed (case_tac [!] n, auto split: if_splits)

definition wire_codec :: codec where
  "wire_codec = \<lparr>to_string = enc, from_str = (\<lambda>s. case dec (length s) s of Some (v, []) \<Rightarrow> Some v | _ \<Rightarrow> None)\<rparr>"

lemma lossless_wire_codec: "lossless wire_codec"
  using dec_enc(1) [where r = "[]"] by (simp add: lossless_def wire_codec_def)

end
