(* ===== verification/Remote.thy ===== *)
theory Remote
  imports Registry_History Device_Delivery Json_Codec
begin

text \<open>
  \<open>src/src/remote.rs\<close>: the command inbox, the response outbox and the event
  subscriptions, kept in the same database as the registry.  The node's durable
  state is the registry's tables together with these three.
\<close>

definition MAX_STORED_PAYLOAD_BYTES :: nat where "MAX_STORED_PAYLOAD_BYTES = 64 * 1024"
definition MAX_OUTBOX_DEPTH :: nat where "MAX_OUTBOX_DEPTH = 1024"

section \<open>Command states\<close>

datatype CommandState = CmdReceived | CmdAccepted | CmdExecuting | CmdCompleted | CmdRejected | CmdFailed

fun command_as_str :: "CommandState \<Rightarrow> string" where
  "command_as_str CmdReceived = ''received''"
| "command_as_str CmdAccepted = ''accepted''"
| "command_as_str CmdExecuting = ''executing''"
| "command_as_str CmdCompleted = ''completed''"
| "command_as_str CmdRejected = ''rejected''"
| "command_as_str CmdFailed = ''failed''"

datatype command_state_error = UnknownCommandState string

definition command_parse :: "string \<Rightarrow> (command_state_error, CommandState) result" where
  "command_parse value =
     (if value = ''received'' then Inr CmdReceived
      else if value = ''accepted'' then Inr CmdAccepted
      else if value = ''executing'' then Inr CmdExecuting
      else if value = ''completed'' then Inr CmdCompleted
      else if value = ''rejected'' then Inr CmdRejected
      else if value = ''failed'' then Inr CmdFailed
      else Inl (UnknownCommandState value))"

fun command_is_terminal :: "CommandState \<Rightarrow> bool" where
  "command_is_terminal s = (s \<in> {CmdCompleted, CmdRejected, CmdFailed})"

section \<open>Rows and records\<close>

record CommandRow =
  c_command_id :: string
  c_command :: string
  c_project_id :: "string option"
  c_received_at :: int
  c_payload_digest :: string
  c_state :: string
  c_started_at :: "int option"
  c_completed_at :: "int option"
  c_response_payload :: "string option"
  c_error_code :: "string option"
  c_error_message :: "string option"

record RemoteCommandRecord =
  rc_command_id :: string
  rc_command :: string
  rc_project_id :: "string option"
  rc_received_at :: int
  rc_payload_digest :: string
  rc_state :: string
  rc_started_at :: "int option"
  rc_completed_at :: "int option"
  rc_response_payload :: "json option"
  rc_error_code :: "string option"
  rc_error_message :: "string option"

datatype CommandAdmission =
    Fresh RemoteCommandRecord
  | DuplicateCommand RemoteCommandRecord
  | PayloadMismatch string

record OutboxRow =
  o_id :: int
  o_kind :: string
  o_correlation_id :: "string option"
  o_payload :: string
  o_created_at :: int
  o_acknowledged_at :: "int option"

record OutboxEntry =
  oe_id :: int
  oe_kind :: string
  oe_correlation_id :: "string option"
  oe_payload :: json
  oe_created_at :: int

record HistoryScrub =
  hs_commands :: nat
  hs_outbox_entries :: nat
  hs_wal_truncated :: bool

record SubscriptionRow =
  s_run_id :: string
  s_project_id :: string
  s_acked_seq :: int
  s_created_at :: int
  s_updated_at :: int

record EventSubscription =
  es_run_id :: string
  es_project_id :: string
  es_acked_seq :: int

text \<open>\<open>outbox_next\<close> is the \<open>AUTOINCREMENT\<close> counter of the outbox table.\<close>

record Node_State =
  reg :: Registry
  remote_commands :: "CommandRow list"
  outbox :: "OutboxRow list"
  outbox_next :: int
  event_subscriptions :: "SubscriptionRow list"

definition empty_node :: Node_State where
  "empty_node = \<lparr>reg = empty_registry, remote_commands = [], outbox = [], outbox_next = 1, event_subscriptions = []\<rparr>"

datatype remote_error =
    UnknownRemoteCommand string
  | OutboxFull
  | SubscriptionConstraint string

section \<open>Loading\<close>

definition map_command :: "codec \<Rightarrow> CommandRow \<Rightarrow> RemoteCommandRecord" where
  "map_command cdc c =
     \<lparr>rc_command_id = c_command_id c, rc_command = c_command c, rc_project_id = c_project_id c,
      rc_received_at = c_received_at c, rc_payload_digest = c_payload_digest c, rc_state = c_state c,
      rc_started_at = c_started_at c, rc_completed_at = c_completed_at c,
      rc_response_payload = Option.bind (c_response_payload c) (from_str cdc),
      rc_error_code = c_error_code c, rc_error_message = c_error_message c\<rparr>"

definition map_outbox :: "codec \<Rightarrow> OutboxRow \<Rightarrow> OutboxEntry" where
  "map_outbox cdc r =
     \<lparr>oe_id = o_id r, oe_kind = o_kind r, oe_correlation_id = o_correlation_id r,
      oe_payload = from_str_or_null cdc (o_payload r), oe_created_at = o_created_at r\<rparr>"

abbreviation command_row :: "string \<Rightarrow> Node_State \<Rightarrow> CommandRow option" where
  "command_row cid s \<equiv> row_by c_command_id cid (remote_commands s)"

definition load_command :: "codec \<Rightarrow> string \<Rightarrow> Node_State \<Rightarrow> RemoteCommandRecord option" where
  "load_command cdc cid s = map_option (map_command cdc) (command_row cid s)"

text \<open>\<open>bounded_payload\<close>: always a text, the marker when the redacted value is too long.\<close>

definition bounded_payload :: "codec \<Rightarrow> json \<Rightarrow> string" where
  "bounded_payload cdc value =
     (let encoded = to_string cdc (red_value (redact value)) in
      if length encoded > MAX_STORED_PAYLOAD_BYTES
      then to_string cdc (json_object [(''truncated'', JBool True), (''bytes'', json_of_nat (length encoded))])
      else encoded)"

section \<open>The inbox\<close>

definition new_command :: "int \<Rightarrow> string \<Rightarrow> string \<Rightarrow> string option \<Rightarrow> string \<Rightarrow> CommandRow" where
  "new_command now cid command pid digest =
     \<lparr>c_command_id = cid, c_command = command, c_project_id = pid, c_received_at = now,
      c_payload_digest = digest, c_state = command_as_str CmdReceived, c_started_at = None,
      c_completed_at = None, c_response_payload = None, c_error_code = None, c_error_message = None\<rparr>"

definition admit_remote_command ::
  "codec \<Rightarrow> int \<Rightarrow> string \<Rightarrow> string \<Rightarrow> string option \<Rightarrow> string \<Rightarrow> Node_State \<Rightarrow> CommandAdmission \<times> Node_State" where
  "admit_remote_command cdc now cid command pid digest s =
     (case command_row cid s of
        Some row \<Rightarrow>
          if c_payload_digest row \<noteq> digest then (PayloadMismatch (c_payload_digest row), s)
          else (DuplicateCommand (map_command cdc row), s)
      | None \<Rightarrow>
          let row = new_command now cid command pid digest
          in (Fresh (map_command cdc row), s\<lparr>remote_commands := remote_commands s @ [row]\<rparr>))"

definition set_remote_command_state :: "int \<Rightarrow> string \<Rightarrow> CommandState \<Rightarrow> Node_State \<Rightarrow> Node_State" where
  "set_remote_command_state now cid state s =
     s\<lparr>remote_commands := update_where (\<lambda>c. c_command_id c = cid)
         (\<lambda>c. c\<lparr>c_state := command_as_str state,
                c_started_at := (if state = CmdExecuting \<and> c_started_at c = None then Some now
                                 else c_started_at c)\<rparr>) (remote_commands s)\<rparr>"

definition complete_remote_command ::
  "codec \<Rightarrow> int \<Rightarrow> string \<Rightarrow> CommandState \<Rightarrow> json option \<Rightarrow> string option \<Rightarrow> string option \<Rightarrow> Node_State
     \<Rightarrow> (remote_error, RemoteCommandRecord \<times> Node_State) result" where
  "complete_remote_command cdc now cid state response code message s =
     (let s' = s\<lparr>remote_commands := update_where (\<lambda>c. c_command_id c = cid)
                 (\<lambda>c. c\<lparr>c_state := command_as_str state, c_completed_at := Some now,
                        c_response_payload := map_option (bounded_payload cdc) response,
                        c_error_code := code, c_error_message := message\<rparr>) (remote_commands s)\<rparr>
      in case load_command cdc cid s' of
           None \<Rightarrow> Inl (UnknownRemoteCommand cid)
         | Some rec \<Rightarrow> Inr (rec, s'))"

definition interrupted_remote_commands :: "codec \<Rightarrow> Node_State \<Rightarrow> RemoteCommandRecord list" where
  "interrupted_remote_commands cdc s =
     map (map_command cdc) (sort_key c_received_at
       (filter (\<lambda>c. c_state c \<in> {''received'', ''accepted'', ''executing''}) (remote_commands s)))"

section \<open>The outbox\<close>

definition outbox_depth :: "Node_State \<Rightarrow> nat" where
  "outbox_depth s = count_where (\<lambda>r. o_acknowledged_at r = None) (outbox s)"

definition outbox_row :: "codec \<Rightarrow> int \<Rightarrow> int \<Rightarrow> string \<Rightarrow> string option \<Rightarrow> json \<Rightarrow> OutboxRow" where
  "outbox_row cdc now i kind correlation_id payload =
     \<lparr>o_id = i, o_kind = kind, o_correlation_id = correlation_id,
      o_payload = bounded_payload cdc payload, o_created_at = now, o_acknowledged_at = None\<rparr>"

definition enqueue_outbox ::
  "codec \<Rightarrow> int \<Rightarrow> string \<Rightarrow> string option \<Rightarrow> json \<Rightarrow> Node_State \<Rightarrow> (remote_error, int \<times> Node_State) result" where
  "enqueue_outbox cdc now kind correlation_id payload s =
     (if outbox_depth s \<ge> MAX_OUTBOX_DEPTH then Inl OutboxFull
      else Inr (outbox_next s,
                s\<lparr>outbox := outbox s @ [outbox_row cdc now (outbox_next s) kind correlation_id payload],
                  outbox_next := outbox_next s + 1\<rparr>))"

definition pending_outbox :: "codec \<Rightarrow> int \<Rightarrow> Node_State \<Rightarrow> OutboxEntry list" where
  "pending_outbox cdc n s =
     map (map_outbox cdc) (sql_limit n (sort_key o_id (filter (\<lambda>r. o_acknowledged_at r = None) (outbox s))))"

definition acknowledge_outbox :: "int \<Rightarrow> int \<Rightarrow> Node_State \<Rightarrow> Node_State" where
  "acknowledge_outbox now i s =
     s\<lparr>outbox := update_where (\<lambda>r. o_id r = i \<and> o_acknowledged_at r = None)
                  (\<lambda>r. r\<lparr>o_acknowledged_at := Some now\<rparr>) (outbox s)\<rparr>"

definition acknowledge_outbox_correlation :: "int \<Rightarrow> string \<Rightarrow> Node_State \<Rightarrow> nat \<times> Node_State" where
  "acknowledge_outbox_correlation now cid s =
     (count_where (\<lambda>r. o_correlation_id r = Some cid \<and> o_acknowledged_at r = None) (outbox s),
      s\<lparr>outbox := update_where (\<lambda>r. o_correlation_id r = Some cid \<and> o_acknowledged_at r = None)
                  (\<lambda>r. r\<lparr>o_acknowledged_at := Some now\<rparr>) (outbox s)\<rparr>)"

section \<open>Device authorization history\<close>

definition AUTHORIZE :: string where "AUTHORIZE = ''credentials.authorize''"

text \<open>The text a stored response, and a stored outbox payload, is rewritten to; \<open>None\<close> leaves it alone.\<close>

definition scrub_response :: "codec \<Rightarrow> string \<Rightarrow> string option" where
  "scrub_response cdc t =
     (case from_str cdc t of
        Some v \<Rightarrow> if carries_material v then Some (to_string cdc (scrubbed v)) else None
      | None \<Rightarrow> None)"

definition scrub_payload :: "codec \<Rightarrow> string \<Rightarrow> string option" where
  "scrub_payload cdc t =
     (case from_str cdc t of
        Some v \<Rightarrow>
          (case json_get ''result'' v of
             Some result \<Rightarrow>
               if carries_material result then Some (to_string cdc (json_set ''result'' (scrubbed result) v)) else None
           | None \<Rightarrow> None)
      | None \<Rightarrow> None)"

definition command_scrub :: "codec \<Rightarrow> CommandRow \<Rightarrow> string option" where
  "command_scrub cdc c =
     (if c_command c = AUTHORIZE then Option.bind (c_response_payload c) (scrub_response cdc) else None)"

definition outbox_scrub :: "codec \<Rightarrow> CommandRow list \<Rightarrow> OutboxRow \<Rightarrow> string option" where
  "outbox_scrub cdc commands r =
     (if (\<exists>c \<in> set commands. Some (c_command_id c) = o_correlation_id r \<and> c_command c = AUTHORIZE)
      then scrub_payload cdc (o_payload r) else None)"

definition scrub_device_authorization_history ::
  "codec \<Rightarrow> bool \<Rightarrow> Node_State \<Rightarrow> HistoryScrub \<times> Node_State" where
  "scrub_device_authorization_history cdc checkpointed s =
     (let commands = count_where (\<lambda>c. command_scrub cdc c \<noteq> None) (remote_commands s);
          entries = count_where (\<lambda>r. outbox_scrub cdc (remote_commands s) r \<noteq> None) (outbox s)
      in if commands = 0 \<and> entries = 0
         then (\<lparr>hs_commands = 0, hs_outbox_entries = 0, hs_wal_truncated = False\<rparr>, s)
         else (\<lparr>hs_commands = commands, hs_outbox_entries = entries, hs_wal_truncated = checkpointed\<rparr>,
               s\<lparr>remote_commands := update_where (\<lambda>c. command_scrub cdc c \<noteq> None)
                     (\<lambda>c. c\<lparr>c_response_payload := command_scrub cdc c\<rparr>) (remote_commands s),
                 outbox := update_where (\<lambda>r. outbox_scrub cdc (remote_commands s) r \<noteq> None)
                     (\<lambda>r. r\<lparr>o_payload := the (outbox_scrub cdc (remote_commands s) r)\<rparr>) (outbox s)\<rparr>))"

section \<open>Subscriptions\<close>

definition map_subscription :: "SubscriptionRow \<Rightarrow> EventSubscription" where
  "map_subscription r = \<lparr>es_run_id = s_run_id r, es_project_id = s_project_id r, es_acked_seq = s_acked_seq r\<rparr>"

definition subscription :: "string \<Rightarrow> Node_State \<Rightarrow> EventSubscription option" where
  "subscription rid s = map_option map_subscription (row_by s_run_id rid (event_subscriptions s))"

definition upsert_subscription ::
  "int \<Rightarrow> string \<Rightarrow> string \<Rightarrow> int \<Rightarrow> Node_State \<Rightarrow> (remote_error, EventSubscription \<times> Node_State) result" where
  "upsert_subscription now pid rid from_seq s =
     (if row_by s_run_id rid (event_subscriptions s) = None \<and> run_row rid (reg s) = None
      then Inl (SubscriptionConstraint rid)
      else
        let s' = (if row_by s_run_id rid (event_subscriptions s) = None
                  then s\<lparr>event_subscriptions := event_subscriptions s @
                         [\<lparr>s_run_id = rid, s_project_id = pid, s_acked_seq = max from_seq 0,
                           s_created_at = now, s_updated_at = now\<rparr>]\<rparr>
                  else s\<lparr>event_subscriptions := update_where (\<lambda>r. s_run_id r = rid)
                         (\<lambda>r. r\<lparr>s_updated_at := now\<rparr>) (event_subscriptions s)\<rparr>)
        in case subscription rid s' of
             None \<Rightarrow> Inl (SubscriptionConstraint rid)
           | Some sub \<Rightarrow> Inr (sub, s'))"

definition acknowledge_events :: "int \<Rightarrow> string \<Rightarrow> int \<Rightarrow> Node_State \<Rightarrow> Node_State" where
  "acknowledge_events now rid acked s =
     s\<lparr>event_subscriptions := update_where (\<lambda>r. s_run_id r = rid)
         (\<lambda>r. r\<lparr>s_acked_seq := max (s_acked_seq r) acked, s_updated_at := now\<rparr>) (event_subscriptions s)\<rparr>"

definition subscriptions :: "Node_State \<Rightarrow> EventSubscription list" where
  "subscriptions s = map map_subscription (sort_key s_run_id (event_subscriptions s))"

definition remove_subscription :: "string \<Rightarrow> Node_State \<Rightarrow> Node_State" where
  "remove_subscription rid s =
     s\<lparr>event_subscriptions := filter (\<lambda>r. s_run_id r \<noteq> rid) (event_subscriptions s)\<rparr>"

end
