(* ===== verification/Remote_Inv.thy ===== *)
theory Remote_Inv
  imports Remote
begin

text \<open>
  The node's durable state over time: a command is admitted once, the outbox is
  bounded, ordered and loses nothing, a cursor never moves back, and scrubbing the
  history leaves no device code behind.
\<close>

section \<open>Interfaces\<close>

interpretation command_state: string_enum command_as_str command_parse
proof
  fix x show "command_parse (command_as_str x) = Inr x"
    by (cases x) (simp_all add: command_parse_def)
next
  fix s x show "command_parse s = Inr x \<Longrightarrow> command_as_str x = s"
    by (auto simp: command_parse_def split: if_splits)
qed

section \<open>The invariant\<close>

definition commands_ok :: "CommandRow list \<Rightarrow> bool" where
  "commands_ok cs \<longleftrightarrow> distinct (map c_command_id cs) \<and> (\<forall>c \<in> set cs. \<exists>x. c_state c = command_as_str x)"

definition outbox_ok :: "Node_State \<Rightarrow> bool" where
  "outbox_ok s \<longleftrightarrow> sorted_wrt (<) (map o_id (outbox s)) \<and> (\<forall>r \<in> set (outbox s). o_id r < outbox_next s) \<and>
     outbox_depth s \<le> MAX_OUTBOX_DEPTH"

definition subscriptions_ok :: "Node_State \<Rightarrow> bool" where
  "subscriptions_ok s \<longleftrightarrow> distinct (map s_run_id (event_subscriptions s)) \<and>
     (\<forall>r \<in> set (event_subscriptions s). s_run_id r \<in> r_run_id ` set (runs (reg s)) \<and> 0 \<le> s_acked_seq r)"

definition node_inv :: "codec \<Rightarrow> Node_State \<Rightarrow> bool" where
  "node_inv cdc s \<longleftrightarrow> reg_inv cdc (reg s) \<and> commands_ok (remote_commands s) \<and> outbox_ok s \<and> subscriptions_ok s"

definition demo_node :: Node_State where
  "demo_node = empty_node\<lparr>event_subscriptions := [\<lparr>s_run_id = ''r'', s_project_id = ''p'', s_acked_seq = 4,
      s_created_at = 0, s_updated_at = 0\<rparr>]\<rparr>"

text \<open>One step is one call of a mutating operation on the database.\<close>

inductive node_step :: "codec \<Rightarrow> Node_State \<Rightarrow> Node_State \<Rightarrow> bool" for cdc where
  registry: "reg_step cdc (reg s) r' \<Longrightarrow> node_step cdc s (s\<lparr>reg := r'\<rparr>)"
| admit: "admit_remote_command cdc now cid command pid digest s = (a, s') \<Longrightarrow> node_step cdc s s'"
| set_state: "node_step cdc s (set_remote_command_state now cid state s)"
| complete: "complete_remote_command cdc now cid state response code message s = Inr (rec, s') \<Longrightarrow> node_step cdc s s'"
| enqueue: "enqueue_outbox cdc now kind corr payload s = Inr (i, s') \<Longrightarrow> node_step cdc s s'"
| ack: "node_step cdc s (acknowledge_outbox now i s)"
| ack_corr: "acknowledge_outbox_correlation now cid s = (n, s') \<Longrightarrow> node_step cdc s s'"
| scrub: "scrub_device_authorization_history cdc b s = (h, s') \<Longrightarrow> node_step cdc s s'"
| subscribe: "upsert_subscription now pid rid from_seq s = Inr (sub, s') \<Longrightarrow> node_step cdc s s'"
| ack_events: "node_step cdc s (acknowledge_events now rid acked s)"
| unsubscribe: "node_step cdc s (remove_subscription rid s)"

section \<open>What each operation touches\<close>

lemma runs_grow: "reg_step cdc r r' \<Longrightarrow> reg_inv cdc r \<Longrightarrow> r_run_id ` set (runs r) \<subseteq> r_run_id ` set (runs r')"
proof
  fix x assume step: "reg_step cdc r r'" and inv: "reg_inv cdc r" and "x \<in> r_run_id ` set (runs r)"
  then obtain row where "run_row x r = Some row" using run_row_None by (metis option.exhaust)
  then obtain row' where "run_row x r' = Some row'" using reg_le_rowE [OF reg_le_step [OF step inv]] by metis
  then show "x \<in> r_run_id ` set (runs r')" using run_row_None by (metis option.distinct(1))
qed

text \<open>Updates of a command row that keep what identifies it.\<close>

definition keeps_command :: "(CommandRow \<Rightarrow> CommandRow) \<Rightarrow> bool" where
  "keeps_command f \<longleftrightarrow> (\<forall>c. c_command_id (f c) = c_command_id c \<and> c_command (f c) = c_command c \<and>
     c_project_id (f c) = c_project_id c \<and> c_payload_digest (f c) = c_payload_digest c \<and>
     c_received_at (f c) = c_received_at c)"

lemma commands_ok_update:
  assumes "commands_ok cs" and "keeps_command f" and "\<And>c. (\<exists>x. c_state c = command_as_str x) \<Longrightarrow> \<exists>x. c_state (f c) = command_as_str x"
  shows "commands_ok (update_where p f cs)"
proof -
  have "map c_command_id (update_where p f cs) = map c_command_id cs"
    using assms(2) by (intro map_key_update_where) (simp add: keeps_command_def)
  then show ?thesis using assms(1,3) by (auto simp: commands_ok_def set_update_where)
qed

definition outbox_le :: "OutboxRow \<Rightarrow> OutboxRow \<Rightarrow> bool" where
  "outbox_le r r' \<longleftrightarrow> o_id r' = o_id r \<and> o_kind r' = o_kind r \<and> o_correlation_id r' = o_correlation_id r \<and>
     o_created_at r' = o_created_at r \<and> (o_acknowledged_at r \<noteq> None \<longrightarrow> o_acknowledged_at r' = o_acknowledged_at r)"

definition command_le :: "CommandRow \<Rightarrow> CommandRow \<Rightarrow> bool" where
  "command_le c c' \<longleftrightarrow> c_command_id c' = c_command_id c \<and> c_command c' = c_command c \<and>
     c_project_id c' = c_project_id c \<and> c_payload_digest c' = c_payload_digest c \<and> c_received_at c' = c_received_at c"

definition node_le :: "Node_State \<Rightarrow> Node_State \<Rightarrow> bool" where
  "node_le s s' \<longleftrightarrow>
     (\<forall>cid c. command_row cid s = Some c \<longrightarrow> (\<exists>c'. command_row cid s' = Some c' \<and> command_le c c')) \<and>
     (\<forall>r \<in> set (outbox s). \<exists>r' \<in> set (outbox s'). outbox_le r r')"

lemma count_update_where_le:
  assumes "\<And>r. q (f r) \<Longrightarrow> q r"
  shows "count_where q (update_where p f t) \<le> count_where q t"
  using assms by (induction t) (auto simp: count_where_def update_where_def)

lemma outbox_ok_update:
  assumes "outbox_ok s" and "\<And>r. o_id (f r) = o_id r" and "\<And>r. o_acknowledged_at (f r) = None \<Longrightarrow> o_acknowledged_at r = None"
  shows "outbox_ok (s\<lparr>outbox := update_where p f (outbox s)\<rparr>)"
proof -
  have ids: "map o_id (update_where p f (outbox s)) = map o_id (outbox s)"
    using assms(2) by (rule map_key_update_where)
  have "count_where (\<lambda>r. o_acknowledged_at r = None) (update_where p f (outbox s)) \<le>
        count_where (\<lambda>r. o_acknowledged_at r = None) (outbox s)"
    by (rule count_update_where_le) (rule assms(3))
  then show ?thesis
    using assms(1,2) ids by (auto simp: outbox_ok_def outbox_depth_def set_update_where)
qed

section \<open>Preservation\<close>

lemma node_inv_commands:
  "node_inv cdc s \<Longrightarrow> commands_ok cs \<Longrightarrow> node_inv cdc (s\<lparr>remote_commands := cs\<rparr>)"
  by (simp add: node_inv_def outbox_ok_def outbox_depth_def subscriptions_ok_def)

lemma node_inv_outbox_update:
  assumes "node_inv cdc s" and "\<And>r. o_id (f r) = o_id r"
    and "\<And>r. o_acknowledged_at (f r) = None \<Longrightarrow> o_acknowledged_at r = None"
  shows "node_inv cdc (s\<lparr>outbox := update_where p f (outbox s)\<rparr>)"
  using outbox_ok_update [of s f p] assms by (simp add: node_inv_def subscriptions_ok_def)

lemma node_inv_subscriptions:
  "node_inv cdc s \<Longrightarrow> subscriptions_ok (s\<lparr>event_subscriptions := es\<rparr>) \<Longrightarrow> node_inv cdc (s\<lparr>event_subscriptions := es\<rparr>)"
  by (simp add: node_inv_def outbox_ok_def outbox_depth_def)

lemma subscriptions_ok_update:
  assumes "subscriptions_ok s" and "\<And>r. s_run_id (f r) = s_run_id r" and "\<And>r. 0 \<le> s_acked_seq r \<Longrightarrow> 0 \<le> s_acked_seq (f r)"
  shows "subscriptions_ok (s\<lparr>event_subscriptions := update_where p f (event_subscriptions s)\<rparr>)"
proof -
  have "map s_run_id (update_where p f (event_subscriptions s)) = map s_run_id (event_subscriptions s)"
    using assms(2) by (rule map_key_update_where)
  then show ?thesis using assms by (auto simp: subscriptions_ok_def set_update_where)
qed

lemma node_inv_admit:
  assumes "node_inv cdc s" and "admit_remote_command cdc now cid command pid digest s = (a, s')"
  shows "node_inv cdc s'"
proof (cases "command_row cid s")
  case None
  then have new: "cid \<notin> c_command_id ` set (remote_commands s)" by (simp add: row_by_None)
  let ?c = "new_command now cid command pid digest"
  have "commands_ok (remote_commands s @ [?c])"
    using assms(1) new by (auto simp: node_inv_def commands_ok_def new_command_def intro: exI [of _ CmdReceived])
  then show ?thesis
    using assms None node_inv_commands [OF assms(1)] by (auto simp: admit_remote_command_def Let_def)
next
  case (Some c)
  then show ?thesis using assms by (auto simp: admit_remote_command_def split: if_splits)
qed

lemma node_inv_command_update:
  assumes "node_inv cdc s" and "keeps_command f"
    and "\<And>c. (\<exists>x. c_state c = command_as_str x) \<Longrightarrow> \<exists>x. c_state (f c) = command_as_str x"
  shows "node_inv cdc (s\<lparr>remote_commands := update_where p f (remote_commands s)\<rparr>)"
  using assms commands_ok_update [OF _ assms(2,3)] by (intro node_inv_commands) (simp_all add: node_inv_def)

lemma keeps_set_state [simp]:
  "keeps_command (\<lambda>c. c\<lparr>c_state := x, c_started_at := y c\<rparr>)"
  "keeps_command (\<lambda>c. c\<lparr>c_state := x, c_completed_at := t, c_response_payload := p, c_error_code := e, c_error_message := m\<rparr>)"
  "keeps_command (\<lambda>c. c\<lparr>c_response_payload := r c\<rparr>)"
  by (simp_all add: keeps_command_def)

lemma complete_Inr:
  "complete_remote_command cdc now cid state response code message s = Inr (rec, s') \<Longrightarrow>
     s' = s\<lparr>remote_commands := update_where (\<lambda>c. c_command_id c = cid)
            (\<lambda>c. c\<lparr>c_state := command_as_str state, c_completed_at := Some now,
                   c_response_payload := map_option (bounded_payload cdc) response,
                   c_error_code := code, c_error_message := message\<rparr>) (remote_commands s)\<rparr> \<and>
     load_command cdc cid s' = Some rec"
  by (auto simp: complete_remote_command_def Let_def split: option.splits)

lemma node_inv_enqueue:
  assumes inv: "node_inv cdc s" and enq: "enqueue_outbox cdc now kind corr payload s = Inr (i, s')"
  shows "node_inv cdc s'"
proof -
  let ?r = "outbox_row cdc now (outbox_next s) kind corr payload"
  have depth: "outbox_depth s < MAX_OUTBOX_DEPTH"
    and s': "s' = s\<lparr>outbox := outbox s @ [?r], outbox_next := outbox_next s + 1\<rparr>"
    using enq by (auto simp: enqueue_outbox_def split: if_splits)
  have r: "o_id ?r = outbox_next s" "o_acknowledged_at ?r = None" by (simp_all add: outbox_row_def)
  have less: "o_id x < outbox_next s" if "x \<in> set (outbox s)" for x
    using inv that by (simp add: node_inv_def outbox_ok_def)
  then have "o_id x < outbox_next s + 1" if "x \<in> set (outbox s)" for x using that by fastforce
  then have "outbox_ok s'"
    using inv depth less r unfolding s' node_inv_def outbox_ok_def
    by (auto simp: sorted_wrt_append outbox_depth_def count_where_def)
  then show ?thesis using inv by (simp add: s' node_inv_def subscriptions_ok_def)
qed

lemma scrub_state:
  assumes "scrub_device_authorization_history cdc b s = (h, s')"
  shows "s' = s\<lparr>remote_commands := update_where (\<lambda>c. command_scrub cdc c \<noteq> None)
                  (\<lambda>c. c\<lparr>c_response_payload := command_scrub cdc c\<rparr>) (remote_commands s),
               outbox := update_where (\<lambda>r. outbox_scrub cdc (remote_commands s) r \<noteq> None)
                  (\<lambda>r. r\<lparr>o_payload := the (outbox_scrub cdc (remote_commands s) r)\<rparr>) (outbox s)\<rparr>"
proof (cases "count_where (\<lambda>c. command_scrub cdc c \<noteq> None) (remote_commands s) = 0 \<and>
              count_where (\<lambda>r. outbox_scrub cdc (remote_commands s) r \<noteq> None) (outbox s) = 0")
  case True
  then have "\<not> command_scrub cdc c \<noteq> None" if "c \<in> set (remote_commands s)" for c
    using that by (auto simp: count_where_def filter_empty_conv)
  moreover have "\<not> outbox_scrub cdc (remote_commands s) r \<noteq> None" if "r \<in> set (outbox s)" for r
    using that True by (auto simp: count_where_def filter_empty_conv)
  ultimately have "update_where (\<lambda>c. command_scrub cdc c \<noteq> None)
                  (\<lambda>c. c\<lparr>c_response_payload := command_scrub cdc c\<rparr>) (remote_commands s) = remote_commands s"
    "update_where (\<lambda>r. outbox_scrub cdc (remote_commands s) r \<noteq> None)
                  (\<lambda>r. r\<lparr>o_payload := the (outbox_scrub cdc (remote_commands s) r)\<rparr>) (outbox s) = outbox s"
    by (auto intro: update_where_none)
  then show ?thesis using assms True by (simp add: scrub_device_authorization_history_def)
next
  case False
  then show ?thesis using assms by (auto simp: scrub_device_authorization_history_def Let_def)
qed

lemma node_inv_scrub:
  assumes "node_inv cdc s" and "scrub_device_authorization_history cdc b s = (h, s')"
  shows "node_inv cdc s'"
proof -
  let ?s1 = "s\<lparr>remote_commands := update_where (\<lambda>c. command_scrub cdc c \<noteq> None)
                  (\<lambda>c. c\<lparr>c_response_payload := command_scrub cdc c\<rparr>) (remote_commands s)\<rparr>"
  have "node_inv cdc ?s1"
    by (rule node_inv_command_update [OF assms(1)]) simp_all
  then have "node_inv cdc (?s1\<lparr>outbox := update_where (\<lambda>r. outbox_scrub cdc (remote_commands s) r \<noteq> None)
                  (\<lambda>r. r\<lparr>o_payload := the (outbox_scrub cdc (remote_commands s) r)\<rparr>) (outbox ?s1)\<rparr>)"
    by (rule node_inv_outbox_update) simp_all
  then show ?thesis by (simp add: scrub_state [OF assms(2)])
qed

lemma node_inv_subscribe:
  assumes inv: "node_inv cdc s" and sub: "upsert_subscription now pid rid from_seq s = Inr (es, s')"
  shows "node_inv cdc s'"
proof (cases "row_by s_run_id rid (event_subscriptions s)")
  case None
  then have new: "rid \<notin> s_run_id ` set (event_subscriptions s)" by (simp add: row_by_None)
  have run: "run_row rid (reg s) \<noteq> None" using sub None by (auto simp: upsert_subscription_def split: if_splits)
  then have "rid \<in> r_run_id ` set (runs (reg s))" using run_row_None by metis
  then have "subscriptions_ok (s\<lparr>event_subscriptions := event_subscriptions s @
      [\<lparr>s_run_id = rid, s_project_id = pid, s_acked_seq = max from_seq 0, s_created_at = now, s_updated_at = now\<rparr>]\<rparr>)"
    using inv new by (auto simp: node_inv_def subscriptions_ok_def)
  then show ?thesis
    using sub None run node_inv_subscriptions [OF inv]
    by (auto simp: upsert_subscription_def Let_def split: if_splits option.splits)
next
  case (Some r)
  have "subscriptions_ok (s\<lparr>event_subscriptions := update_where (\<lambda>r. s_run_id r = rid)
      (\<lambda>r. r\<lparr>s_updated_at := now\<rparr>) (event_subscriptions s)\<rparr>)"
    using inv by (intro subscriptions_ok_update) (simp_all add: node_inv_def)
  then show ?thesis
    using sub Some node_inv_subscriptions [OF inv]
    by (auto simp: upsert_subscription_def Let_def split: if_splits option.splits)
qed

lemma distinct_map_filter_key: "distinct (map k xs) \<Longrightarrow> distinct (map k (filter p xs))"
  by (rule distinct_map_filter)

lemma node_inv_step: "node_step cdc s s' \<Longrightarrow> node_inv cdc s \<Longrightarrow> node_inv cdc s'"
proof (induction rule: node_step.induct)
  case (registry s r')
  then show ?case
    using runs_grow [OF registry(1)] reg_inv_step [OF registry(1)]
    by (auto simp: node_inv_def outbox_ok_def outbox_depth_def subscriptions_ok_def)
next
  case (set_state s now cid state)
  then show ?case unfolding set_remote_command_state_def by (intro node_inv_command_update) auto
next
  case (complete now cid state response code message s rec s')
  then have s': "s' = s\<lparr>remote_commands := update_where (\<lambda>c. c_command_id c = cid)
            (\<lambda>c. c\<lparr>c_state := command_as_str state, c_completed_at := Some now,
                   c_response_payload := map_option (bounded_payload cdc) response,
                   c_error_code := code, c_error_message := message\<rparr>) (remote_commands s)\<rparr>"
    using complete_Inr by blast
  show ?case unfolding s' by (rule node_inv_command_update [OF complete(2)]) auto
next
  case (ack s now i)
  then show ?case unfolding acknowledge_outbox_def by (intro node_inv_outbox_update) simp_all
next
  case (ack_corr now cid s n s')
  then have s': "s' = s\<lparr>outbox := update_where (\<lambda>r. o_correlation_id r = Some cid \<and> o_acknowledged_at r = None)
                  (\<lambda>r. r\<lparr>o_acknowledged_at := Some now\<rparr>) (outbox s)\<rparr>"
    by (simp add: acknowledge_outbox_correlation_def)
  show ?case unfolding s' by (rule node_inv_outbox_update [OF ack_corr(2)]) simp_all
next
  case (ack_events s now rid acked)
  then show ?case
    unfolding acknowledge_events_def
    by (intro node_inv_subscriptions subscriptions_ok_update) (auto simp: node_inv_def)
next
  case (unsubscribe s rid)
  then show ?case
    unfolding remove_subscription_def
    by (intro node_inv_subscriptions) (auto simp: node_inv_def subscriptions_ok_def distinct_map_filter)
qed (blast intro: node_inv_admit node_inv_enqueue node_inv_scrub node_inv_subscribe)+

lemma node_inv_empty: "node_inv cdc empty_node"
  by (simp add: node_inv_def empty_node_def reg_inv_empty commands_ok_def outbox_ok_def outbox_depth_def
      count_where_def subscriptions_ok_def)

interpretation node_sys: guarded_system "node_step cdc" empty_node "node_inv cdc" for cdc
  by unfold_locales (auto intro: node_inv_empty node_inv_step)

section \<open>Growth\<close>

lemma outbox_le_refl: "outbox_le r r"
  by (simp add: outbox_le_def)

lemma node_le_refl: "node_le s s"
  by (auto simp: node_le_def command_le_def intro: outbox_le_refl)

lemma node_le_trans:
  assumes "node_le a b" and "node_le b c"
  shows "node_le a c"
proof -
  have "\<exists>c'. command_row cid c = Some c' \<and> command_le x c'" if x: "command_row cid a = Some x" for cid x
  proof -
    obtain y where y: "command_row cid b = Some y" "command_le x y" using assms(1) x unfolding node_le_def by blast
    then obtain z where "command_row cid c = Some z" "command_le y z" using assms(2) unfolding node_le_def by blast
    with y(2) show ?thesis by (auto simp: command_le_def)
  qed
  moreover have "\<exists>r' \<in> set (outbox c). outbox_le r r'" if r: "r \<in> set (outbox a)" for r
  proof -
    obtain y where y: "y \<in> set (outbox b)" "outbox_le r y" using assms(1) r unfolding node_le_def by blast
    then obtain z where "z \<in> set (outbox c)" "outbox_le y z" using assms(2) unfolding node_le_def by blast
    with y(2) show ?thesis by (intro bexI [of _ z]) (auto simp: outbox_le_def)
  qed
  ultimately show ?thesis unfolding node_le_def by blast
qed

lemma node_le_command_update:
  assumes "keeps_command f"
  shows "node_le s (s\<lparr>remote_commands := update_where p f (remote_commands s)\<rparr>)"
  using assms by (auto simp: node_le_def row_by_update_where keeps_command_def command_le_def intro: outbox_le_refl)

lemma node_le_outbox_update:
  assumes "\<And>r. p r \<Longrightarrow> outbox_le r (f r)"
  shows "node_le s (s\<lparr>outbox := update_where p f (outbox s)\<rparr>)"
proof -
  have "\<exists>r' \<in> set (update_where p f (outbox s)). outbox_le r r'" if "r \<in> set (outbox s)" for r
    using in_update_where [OF that, of p f] assms outbox_le_refl by (metis (full_types))
  then show ?thesis by (simp add: node_le_def command_le_def)
qed

lemma node_le_same: "remote_commands s' = remote_commands s \<Longrightarrow> outbox s' = outbox s \<Longrightarrow> node_le s s'"
  using node_le_refl [of s] by (simp add: node_le_def)

lemma node_le_scrub:
  assumes "scrub_device_authorization_history cdc b s = (h, s')"
  shows "node_le s s'"
proof -
  let ?s1 = "s\<lparr>remote_commands := update_where (\<lambda>c. command_scrub cdc c \<noteq> None)
                  (\<lambda>c. c\<lparr>c_response_payload := command_scrub cdc c\<rparr>) (remote_commands s)\<rparr>"
  let ?s2 = "?s1\<lparr>outbox := update_where (\<lambda>r. outbox_scrub cdc (remote_commands s) r \<noteq> None)
                  (\<lambda>r. r\<lparr>o_payload := the (outbox_scrub cdc (remote_commands s) r)\<rparr>) (outbox ?s1)\<rparr>"
  have "node_le s ?s1" by (rule node_le_command_update) simp
  moreover have "node_le ?s1 ?s2" by (rule node_le_outbox_update) (simp add: outbox_le_def)
  ultimately have "node_le s ?s2" by (rule node_le_trans)
  then show ?thesis by (simp add: scrub_state [OF assms])
qed

lemma node_le_step: "node_step cdc s s' \<Longrightarrow> node_le s s'"
proof (induction rule: node_step.induct)
  case (admit now cid command pid digest s a s')
  then show ?case
    by (auto simp: admit_remote_command_def Let_def row_by_append node_le_def command_le_def
        split: option.splits if_splits intro: outbox_le_refl)
next
  case (complete now cid state response code message s rec s')
  then have s': "s' = s\<lparr>remote_commands := update_where (\<lambda>c. c_command_id c = cid)
            (\<lambda>c. c\<lparr>c_state := command_as_str state, c_completed_at := Some now,
                   c_response_payload := map_option (bounded_payload cdc) response,
                   c_error_code := code, c_error_message := message\<rparr>) (remote_commands s)\<rparr>"
    using complete_Inr by blast
  show ?case unfolding s' by (rule node_le_command_update) simp
next
  case (enqueue now kind corr payload s i s')
  then show ?case
    by (auto simp: enqueue_outbox_def node_le_def command_le_def intro: outbox_le_refl split: if_splits)
next
  case (ack s now i)
  then show ?case unfolding acknowledge_outbox_def by (intro node_le_outbox_update) (simp add: outbox_le_def)
next
  case (ack_corr now cid s n s')
  then have s': "s' = s\<lparr>outbox := update_where (\<lambda>r. o_correlation_id r = Some cid \<and> o_acknowledged_at r = None)
                  (\<lambda>r. r\<lparr>o_acknowledged_at := Some now\<rparr>) (outbox s)\<rparr>"
    by (simp add: acknowledge_outbox_correlation_def)
  show ?case unfolding s' by (rule node_le_outbox_update) (simp add: outbox_le_def)
next
  case (subscribe now pid rid from_seq s sub s')
  then show ?case
    by (intro node_le_same) (auto simp: upsert_subscription_def Let_def split: if_splits option.splits)
qed (auto simp: set_remote_command_state_def acknowledge_events_def remove_subscription_def
    intro: node_le_command_update node_le_same node_le_scrub)

lemma node_steps:
  assumes "(node_step cdc)\<^sup>*\<^sup>* s s'"
  shows "node_le s s' \<and> (node_inv cdc s \<longrightarrow> node_inv cdc s')"
  using assms
proof (induction rule: rtranclp_induct)
  case base
  then show ?case using node_le_refl by blast
next
  case (step y z)
  then show ?case using node_le_step node_le_trans node_inv_step by blast
qed

section \<open>The inbox\<close>

text \<open>
  C13.  Delivery is at least once and admission at most once.  When a command id
  has been admitted as fresh, every redelivery of it, after anything else the node
  did, is answered from the stored record if it carries the same work and refused
  if it carries different work; it is never admitted as fresh again and changes
  nothing.
\<close>

theorem remote_command_admitted_once:
  assumes admit: "admit_remote_command cdc now cid command pid digest s = (Fresh rec, s1)"
    and steps: "(node_step cdc)\<^sup>*\<^sup>* s1 s2"
  shows "\<exists>c. command_row cid s2 = Some c \<and> c_command c = command \<and> c_payload_digest c = digest \<and>
    admit_remote_command cdc now' cid command' pid' digest' s2 =
      (if digest' = digest then DuplicateCommand (map_command cdc c) else PayloadMismatch digest, s2)"
proof -
  have "command_row cid s1 = Some (new_command now cid command pid digest)"
    using admit
    by (auto simp: admit_remote_command_def Let_def row_by_append row_by_Cons new_command_def
        split: option.splits if_splits)
  then obtain c where "command_row cid s2 = Some c" "command_le (new_command now cid command pid digest) c"
    using node_steps [OF steps] unfolding node_le_def by blast
  then show ?thesis by (auto simp: admit_remote_command_def command_le_def new_command_def)
qed

theorem remote_command_admitted_once_witness:
  "\<exists>c. admit_remote_command wire_codec 9 ''c1'' ''runs.create'' None ''d1''
     (snd (admit_remote_command wire_codec 5 ''c1'' ''runs.create'' None ''d1'' empty_node)) =
   (DuplicateCommand (map_command wire_codec c),
    snd (admit_remote_command wire_codec 5 ''c1'' ''runs.create'' None ''d1'' empty_node))"
proof -
  let ?s1 = "snd (admit_remote_command wire_codec 5 ''c1'' ''runs.create'' None ''d1'' empty_node)"
  have "admit_remote_command wire_codec 5 ''c1'' ''runs.create'' None ''d1'' empty_node =
      (Fresh (map_command wire_codec (new_command 5 ''c1'' ''runs.create'' None ''d1'')), ?s1)"
    by (simp add: admit_remote_command_def empty_node_def row_by_def Let_def)
  from remote_command_admitted_once [OF this rtranclp.rtrancl_refl, of 9 "''runs.create''" None "''d1''"]
  show ?thesis by auto
qed

section \<open>The outbox\<close>

lemma pending_sorted:
  assumes "outbox_ok s"
  shows "sort_key o_id (filter (\<lambda>r. o_acknowledged_at r = None) (outbox s)) = filter (\<lambda>r. o_acknowledged_at r = None) (outbox s)"
    and "sorted_wrt (<) (map o_id (filter (\<lambda>r. o_acknowledged_at r = None) (outbox s)))"
proof -
  have "sorted_wrt (\<lambda>x y. o_id x < o_id y) (outbox s)"
    using assms by (simp add: outbox_ok_def sorted_wrt_map)
  then have sorted: "sorted_wrt (\<lambda>x y. o_id x < o_id y) (filter (\<lambda>r. o_acknowledged_at r = None) (outbox s))"
    by (rule sorted_wrt_filter)
  then show "sorted_wrt (<) (map o_id (filter (\<lambda>r. o_acknowledged_at r = None) (outbox s)))"
    by (simp add: sorted_wrt_map)
  have "sorted_wrt (\<lambda>x y. o_id x \<le> o_id y) (filter (\<lambda>r. o_acknowledged_at r = None) (outbox s))"
    by (rule sorted_wrt_mono_rel [OF _ sorted]) simp
  then show "sort_key o_id (filter (\<lambda>r. o_acknowledged_at r = None) (outbox s)) = filter (\<lambda>r. o_acknowledged_at r = None) (outbox s)"
    by (intro sort_key_id_if_sorted) (simp add: sorted_wrt_map)
qed

lemma pending_all:
  assumes "outbox_ok s"
  shows "pending_outbox cdc (int MAX_OUTBOX_DEPTH) s = map (map_outbox cdc) (filter (\<lambda>r. o_acknowledged_at r = None) (outbox s))"
  using assms pending_sorted(1) [OF assms]
  by (simp add: pending_outbox_def sql_limit_def outbox_ok_def outbox_depth_def count_where_def)

lemma oe_id_map_outbox [simp]: "oe_id (map_outbox cdc r) = o_id r"
  by (simp add: map_outbox_def)



section \<open>Subscriptions\<close>

lemma row_by_filter_other: "row_by key k (filter (\<lambda>r. key r \<noteq> k') t) = (if k = k' then None else row_by key k t)"
  by (induction t) (auto simp: table_simps)

text \<open>
  The acknowledged cursor of a subscription never moves back: not by a late
  or repeated acknowledgement, not by subscribing again from an earlier number,
  and not by anything else the node does.
\<close>

theorem subscription_cursor_monotone:
  assumes "node_step cdc s s'" and "subscription rid s = Some a" and "subscription rid s' = Some b"
  shows "es_acked_seq a \<le> es_acked_seq b"
  using assms
proof (induction rule: node_step.induct)
  case (subscribe now pid rid' from_seq s sub s')
  then show ?case
    by (auto simp: upsert_subscription_def Let_def subscription_def row_by_append row_by_update_where
        map_subscription_def split: if_splits option.splits)
next
  case (ack_events s now rid' acked)
  then show ?case
    by (auto simp: acknowledge_events_def subscription_def row_by_update_where map_subscription_def split: if_splits)
next
  case (unsubscribe s rid')
  then show ?case
    by (auto simp: remove_subscription_def subscription_def row_by_filter_other split: if_splits)
qed (auto simp: subscription_def set_remote_command_state_def acknowledge_outbox_def
    acknowledge_outbox_correlation_def admit_remote_command_def enqueue_outbox_def Let_def
    dest!: complete_Inr scrub_state split: option.splits if_splits)

theorem subscription_cursor_monotone_witness:
  "es_acked_seq (the (subscription ''r'' demo_node)) \<le> es_acked_seq (the (subscription ''r'' (acknowledge_events 9 ''r'' 2 demo_node)))"
proof -
  have "node_step wire_codec demo_node (acknowledge_events 9 ''r'' 2 demo_node)" by (rule node_step.ack_events)
  then show ?thesis
    by (rule subscription_cursor_monotone [where rid = "''r''"])
       (simp_all add: demo_node_def subscription_def row_by_def acknowledge_events_def update_where_def)
qed

section \<open>Scrubbing device codes\<close>

lemma exact_durable_result:
  assumes "\<And>n. e = Some n \<Longrightarrow> n < 2 ^ 64"
  shows "exact_json (durable_result i e)"
proof -
  have "exact_json (json_object [(''redacted'', JString REDACTED_MARKER), (''delivery'', JString ''transient'')])"
    by (rule exact_json_object) simp
  moreover have "exact_json m" if "safe_metadata [(CredentialId, i)] = Some m" for m
    using that by (auto simp: safe_metadata_single split: if_splits)
  ultimately show ?thesis
    using assms by (auto simp: durable_result_def with_safe_credential_def Let_def json_of_nat_def
        intro!: exact_json_set split: option.splits)
qed

lemma exact_scrubbed: "exact_json v \<Longrightarrow> exact_json (scrubbed v)"
proof -
  assume v: "exact_json v"
  have "n < 2 ^ 64" if e: "Option.bind (json_get ''expires_in_seconds'' v) as_u64 = Some n" for n
  proof -
    obtain x where x: "json_get ''expires_in_seconds'' v = Some x" "as_u64 x = Some n"
      using e by (auto simp: bind_eq_Some_conv)
    have "exact_json x" by (rule exact_json_get [OF x(1) v])
    then show ?thesis using x(2) by (cases x rule: as_u64.cases) auto
  qed
  then show ?thesis
    by (auto simp: scrubbed_def Let_def intro!: exact_json_set exact_durable_result)
qed

lemma scrubbed_no_material: "\<not> carries_material (scrubbed v)"
  using scrubbed_shape [of v] no_material by metis

lemma scrub_response_done:
  assumes "lossless cdc" and "\<And>v. from_str cdc t = Some v \<Longrightarrow> exact_json v" and "scrub_response cdc t = Some t'"
  shows "scrub_response cdc t' = None"
proof -
  obtain v where v: "from_str cdc t = Some v" "t' = to_string cdc (scrubbed v)"
    using assms(3) by (auto simp: scrub_response_def split: option.splits if_splits)
  have "from_str cdc t' = Some (scrubbed v)"
    using assms(1) exact_scrubbed [OF assms(2) [OF v(1)]] v(2) by (simp add: lossless_def)
  then show ?thesis by (simp add: scrub_response_def scrubbed_no_material)
qed

lemma scrub_payload_done:
  assumes "lossless cdc" and "\<And>v. from_str cdc t = Some v \<Longrightarrow> exact_json v" and "scrub_payload cdc t = Some t'"
  shows "scrub_payload cdc t' = None"
proof -
  obtain v r where v: "from_str cdc t = Some v" "json_get ''result'' v = Some r"
      "t' = to_string cdc (json_set ''result'' (scrubbed r) v)"
    using assms(3) by (auto simp: scrub_payload_def split: option.splits if_splits)
  have exact: "exact_json v" by (rule assms(2) [OF v(1)])
  then have "exact_json (scrubbed r)" using exact_scrubbed exact_json_get [OF v(2)] by blast
  then have "from_str cdc t' = Some (json_set ''result'' (scrubbed r) v)"
    using assms(1) exact_json_set [OF exact] v(3) by (simp add: lossless_def)
  moreover have "json_get ''result'' (json_set ''result'' (scrubbed r) v) = Some (scrubbed r)"
    using v(2) by (cases v) simp_all
  ultimately show ?thesis by (simp add: scrub_payload_def scrubbed_no_material)
qed

lemma scrub_idle:
  assumes "\<And>c. c \<in> set (remote_commands s) \<Longrightarrow> command_scrub cdc c = None"
    and "\<And>r. r \<in> set (outbox s) \<Longrightarrow> outbox_scrub cdc (remote_commands s) r = None"
  shows "scrub_device_authorization_history cdc b s =
    (\<lparr>hs_commands = 0, hs_outbox_entries = 0, hs_wal_truncated = False\<rparr>, s)"
  using assms by (simp add: scrub_device_authorization_history_def count_where_def filter_empty_conv)

lemma scrubbed_commands:
  assumes "lossless cdc" and "scrub_device_authorization_history cdc b s = (h, s')"
    and exact: "\<And>c v. c \<in> set (remote_commands s) \<Longrightarrow> rc_response_payload (map_command cdc c) = Some v \<Longrightarrow> exact_json v"
    and "c' \<in> set (remote_commands s')"
  shows "command_scrub cdc c' = None"
proof -
  obtain c where c: "c \<in> set (remote_commands s)"
    "c' = (if command_scrub cdc c \<noteq> None then c\<lparr>c_response_payload := command_scrub cdc c\<rparr> else c)"
    using assms(4) scrub_state [OF assms(2)] by (auto simp: set_update_where)
  show ?thesis
  proof (cases "command_scrub cdc c")
    case None
    then show ?thesis using c(2) by simp
  next
    case (Some t')
    then obtain t where t: "c_response_payload c = Some t" "scrub_response cdc t = Some t'" "c_command c = AUTHORIZE"
      by (auto simp: command_scrub_def bind_eq_Some_conv split: if_splits)
    have "scrub_response cdc t' = None"
      by (rule scrub_response_done [OF assms(1) _ t(2)]) (use exact [OF c(1)] t(1) in \<open>simp add: map_command_def\<close>)
    then show ?thesis using c(2) Some t(3) by (simp add: command_scrub_def)
  qed
qed

lemma scrub_commands_identity:
  assumes "scrub_device_authorization_history cdc b s = (h, s')"
  shows "outbox_scrub cdc (remote_commands s') = outbox_scrub cdc (remote_commands s)"
proof -
  have "map (\<lambda>c. (c_command_id c, c_command c)) (remote_commands s') =
        map (\<lambda>c. (c_command_id c, c_command c)) (remote_commands s)"
    using scrub_state [OF assms] by (simp add: map_key_update_where)
  then have "(\<lambda>c. (c_command_id c, c_command c)) ` set (remote_commands s') =
        (\<lambda>c. (c_command_id c, c_command c)) ` set (remote_commands s)"
    by (metis list.set_map)
  moreover have "(\<exists>c \<in> S. Some (c_command_id c) = x \<and> c_command c = AUTHORIZE) \<longleftrightarrow>
        (\<exists>y \<in> (\<lambda>c. (c_command_id c, c_command c)) ` S. Some (fst y) = x \<and> snd y = AUTHORIZE)"
    for S :: "CommandRow set" and x
    by simp
  ultimately show ?thesis by (simp only: outbox_scrub_def [abs_def])
qed

lemma scrubbed_outbox:
  assumes "lossless cdc" and "scrub_device_authorization_history cdc b s = (h, s')"
    and exact: "\<And>r v. r \<in> set (outbox s) \<Longrightarrow> from_str cdc (o_payload r) = Some v \<Longrightarrow> exact_json v"
    and "r' \<in> set (outbox s')"
  shows "outbox_scrub cdc (remote_commands s') r' = None"
proof -
  obtain r where r: "r \<in> set (outbox s)"
    "r' = (if outbox_scrub cdc (remote_commands s) r \<noteq> None
           then r\<lparr>o_payload := the (outbox_scrub cdc (remote_commands s) r)\<rparr> else r)"
    using assms(4) scrub_state [OF assms(2)] by (auto simp: set_update_where)
  show ?thesis
  proof (cases "outbox_scrub cdc (remote_commands s) r")
    case None
    then show ?thesis using r(2) scrub_commands_identity [OF assms(2)] by simp
  next
    case (Some t')
    then have t: "scrub_payload cdc (o_payload r) = Some t'" by (auto simp: outbox_scrub_def split: if_splits)
    have "scrub_payload cdc t' = None"
      by (rule scrub_payload_done [OF assms(1) _ t]) (rule exact [OF r(1)])
    then show ?thesis using r(2) Some by (simp add: outbox_scrub_def)
  qed
qed

text \<open>
  C17.  Scrubbing is complete and final.  When \<open>serde_json\<close> reads back what it
  printed, after one scrub no stored result of a device authorization, and no
  outbox entry that reports one, still carries a link or a code; a second scrub
  finds nothing and changes nothing.
\<close>

theorem history_scrub_is_complete:
  assumes lossless: "lossless cdc" and scrub: "scrub_device_authorization_history cdc b s = (h, s')"
    and commands: "\<And>c v. c \<in> set (remote_commands s) \<Longrightarrow> rc_response_payload (map_command cdc c) = Some v \<Longrightarrow> exact_json v"
    and entries: "\<And>r v. r \<in> set (outbox s) \<Longrightarrow> from_str cdc (o_payload r) = Some v \<Longrightarrow> exact_json v"
  shows "(\<forall>c \<in> set (remote_commands s'). \<forall>v. c_command c = AUTHORIZE \<longrightarrow>
      rc_response_payload (map_command cdc c) = Some v \<longrightarrow> \<not> carries_material v) \<and>
    (\<forall>r \<in> set (outbox s'). \<forall>c \<in> set (remote_commands s'). \<forall>v result.
      o_correlation_id r = Some (c_command_id c) \<longrightarrow> c_command c = AUTHORIZE \<longrightarrow>
      from_str cdc (o_payload r) = Some v \<longrightarrow> json_get ''result'' v = Some result \<longrightarrow> \<not> carries_material result) \<and>
    scrub_device_authorization_history cdc b' s' =
      (\<lparr>hs_commands = 0, hs_outbox_entries = 0, hs_wal_truncated = False\<rparr>, s')"
proof (intro conjI ballI allI impI)
  fix c v
  assume c: "c \<in> set (remote_commands s')" "c_command c = AUTHORIZE" "rc_response_payload (map_command cdc c) = Some v"
  have "command_scrub cdc c = None" by (rule scrubbed_commands [OF lossless scrub commands c(1)])
  then show "\<not> carries_material v"
    using c(2,3) by (auto simp: command_scrub_def map_command_def scrub_response_def bind_eq_Some_conv split: if_splits)
next
  fix r c v result
  assume r: "r \<in> set (outbox s')" "c \<in> set (remote_commands s')" "o_correlation_id r = Some (c_command_id c)"
    "c_command c = AUTHORIZE" "from_str cdc (o_payload r) = Some v" "json_get ''result'' v = Some result"
  have "outbox_scrub cdc (remote_commands s') r = None" by (rule scrubbed_outbox [OF lossless scrub entries r(1)])
  moreover have "\<exists>c \<in> set (remote_commands s'). Some (c_command_id c) = o_correlation_id r \<and> c_command c = AUTHORIZE"
    using r(2-4) by auto
  ultimately show "\<not> carries_material result"
    using r(5,6) by (auto simp: outbox_scrub_def scrub_payload_def split: if_splits)
next
  show "scrub_device_authorization_history cdc b' s' =
      (\<lparr>hs_commands = 0, hs_outbox_entries = 0, hs_wal_truncated = False\<rparr>, s')"
  proof (rule scrub_idle)
    show "command_scrub cdc c = None" if "c \<in> set (remote_commands s')" for c
      by (rule scrubbed_commands [OF lossless scrub commands that])
    show "outbox_scrub cdc (remote_commands s') r = None" if "r \<in> set (outbox s')" for r
      by (rule scrubbed_outbox [OF lossless scrub entries that])
  qed
qed

theorem history_scrub_is_complete_witness:
  "snd (scrub_device_authorization_history wire_codec True
     (snd (scrub_device_authorization_history wire_codec True (empty_node\<lparr>remote_commands :=
        [(new_command 5 ''c1'' AUTHORIZE None ''d'')\<lparr>c_response_payload :=
           Some (enc (JObject [(''user_code'', JString ''ABCD'')]))\<rparr>]\<rparr>)))) =
   snd (scrub_device_authorization_history wire_codec True (empty_node\<lparr>remote_commands :=
        [(new_command 5 ''c1'' AUTHORIZE None ''d'')\<lparr>c_response_payload :=
           Some (enc (JObject [(''user_code'', JString ''ABCD'')]))\<rparr>]\<rparr>))"
proof -
  let ?v = "JObject [(''user_code'', JString ''ABCD'')]"
  let ?s = "empty_node\<lparr>remote_commands :=
        [(new_command 5 ''c1'' AUTHORIZE None ''d'')\<lparr>c_response_payload := Some (enc ?v)\<rparr>]\<rparr>"
  have read: "from_str wire_codec (enc ?v) = Some ?v"
    using lossless_wire_codec unfolding lossless_def by (simp add: wire_codec_def)
  obtain h s' where scrub: "scrub_device_authorization_history wire_codec True ?s = (h, s')" by force
  have "exact_json w" if "c \<in> set (remote_commands ?s)" "rc_response_payload (map_command wire_codec c) = Some w" for c w
    using that read by (auto simp: map_command_def)
  moreover have "exact_json w" if "r \<in> set (outbox ?s)" "from_str wire_codec (o_payload r) = Some w" for r w
    using that by (simp add: empty_node_def)
  ultimately show ?thesis
    using history_scrub_is_complete [OF lossless_wire_codec scrub, of True] scrub by simp
qed

end
