(* ===== verification/Chat_History.thy ===== *)
theory Chat_History
  imports Registry_History Attachments "HOL-Library.Multiset" "HOL-Library.Monad_Syntax"
begin

text \<open>
  \<open>src/src/chathistory.rs\<close>: the transcript sent with a continued run.  The length
  of the serialized messages is third-party code and a parameter.  Following the
  retries of a run is a loop that ends only because retries form no cycle, so it is
  a partial function whose result is proved to exist on every reachable registry.
\<close>

record HistoryLimits =
  max_turns :: nat
  max_bytes :: nat

definition DEFAULT_MAX_TURNS :: nat where "DEFAULT_MAX_TURNS = 20"
definition DEFAULT_MAX_BYTES :: nat where "DEFAULT_MAX_BYTES = 64 * 1024"

definition limits_default :: HistoryLimits where
  "limits_default = \<lparr>max_turns = DEFAULT_MAX_TURNS, max_bytes = DEFAULT_MAX_BYTES\<rparr>"

record HistoryMessage =
  hm_role :: string
  hm_content :: string

record BuiltHistory =
  bh_messages :: "HistoryMessage list"
  bh_omitted_turns :: nat
  bh_bytes :: nat

definition truncated :: "BuiltHistory \<Rightarrow> bool" where
  "truncated h = (bh_omitted_turns h > 0)"

record Turn =
  t_created_at :: int
  t_user :: string
  t_assistant :: string

definition text_field :: "json \<Rightarrow> string \<Rightarrow> string option" where
  "text_field value key = trimmed_field key value"

section \<open>Attempts\<close>

definition retries_of :: "RunRecord list \<Rightarrow> string \<Rightarrow> RunRecord list" where
  "retries_of rs parent = filter (\<lambda>run. retry_of_run_id run = Some parent) rs"

text \<open>The frontier is a stack; its top is the head of the list.\<close>

partial_function (option) follow_attempts ::
  "RunRecord list \<Rightarrow> string list \<Rightarrow> RunRecord list \<Rightarrow> RunRecord list option" where
  "follow_attempts rs frontier chain =
     (case frontier of
        [] \<Rightarrow> Some chain
      | parent # rest \<Rightarrow>
          follow_attempts rs (rev (map run_id (retries_of rs parent)) @ rest) (chain @ retries_of rs parent))"

definition attempt_chain :: "RunRecord list \<Rightarrow> string \<Rightarrow> RunRecord list option" where
  "attempt_chain rs root_id =
     map_option (sort_key created_at)
       (follow_attempts rs [root_id] (filter (\<lambda>run. run_id run = root_id) rs))"

definition is_completed :: "RunRecord \<Rightarrow> bool" where
  "is_completed run = (record_status run = Inr Completed)"

fun first_some :: "('a \<Rightarrow> 'b option) \<Rightarrow> 'a list \<Rightarrow> 'b option" where
  "first_some f [] = None"
| "first_some f (x # xs) = (case f x of Some y \<Rightarrow> Some y | None \<Rightarrow> first_some f xs)"

definition latest_completed_answer :: "RunRecord list \<Rightarrow> string option" where
  "latest_completed_answer attempts =
     first_some (\<lambda>run. Option.bind (result_payload run) (\<lambda>payload. text_field payload ''output''))
       (filter is_completed (rev attempts))"

section \<open>Turns\<close>

definition turn_user :: "RunRecord \<Rightarrow> string option" where
  "turn_user run =
     (case text_field (request_payload run) ''input'' of
        None \<Rightarrow> None
      | Some user \<Rightarrow>
          let attachments = (case parse (json_get ''attachments'' (request_payload run)) of
                               Inr xs \<Rightarrow> xs | Inl _ \<Rightarrow> [])
          in Some (user @ history_suffix attachments))"

definition opens_turn :: "string \<Rightarrow> string \<Rightarrow> RunRecord \<Rightarrow> bool" where
  "opens_turn sid current run \<longleftrightarrow>
     run_id run \<noteq> current \<and> session_id run = Some sid \<and> retry_of_run_id run = None"

text \<open>The body of the loop for one run: no result only if following its retries does not end.\<close>

definition collect_turn :: "RunRecord list \<Rightarrow> string \<Rightarrow> string \<Rightarrow> RunRecord \<Rightarrow> Turn list option" where
  "collect_turn rs sid current run =
     (if \<not> opens_turn sid current run then Some []
      else case turn_user run of
        None \<Rightarrow> Some []
      | Some user \<Rightarrow>
          (case attempt_chain rs (run_id run) of
             None \<Rightarrow> None
           | Some attempts \<Rightarrow>
               (case latest_completed_answer attempts of
                  None \<Rightarrow> Some []
                | Some assistant \<Rightarrow>
                    Some [\<lparr>t_created_at = created_at run, t_user = user, t_assistant = assistant\<rparr>])))"

fun collect_from :: "RunRecord list \<Rightarrow> string \<Rightarrow> string \<Rightarrow> RunRecord list \<Rightarrow> Turn list option" where
  "collect_from rs sid current [] = Some []"
| "collect_from rs sid current (run # others) =
     Option.bind (collect_turn rs sid current run) (\<lambda>t.
       map_option (\<lambda>ts. t @ ts) (collect_from rs sid current others))"

definition collect_turns :: "RunRecord list \<Rightarrow> string \<Rightarrow> string \<Rightarrow> Turn list option" where
  "collect_turns rs sid current = collect_from rs sid current rs"

definition turn_messages :: "Turn \<Rightarrow> HistoryMessage list" where
  "turn_messages t =
     [\<lparr>hm_role = ''user'', hm_content = t_user t\<rparr>, \<lparr>hm_role = ''assistant'', hm_content = t_assistant t\<rparr>]"

definition serialized_bytes :: "(HistoryMessage list \<Rightarrow> nat) \<Rightarrow> Turn list \<Rightarrow> nat" where
  "serialized_bytes to_vec_len turns = to_vec_len (concat (map turn_messages turns))"

text \<open>\<open>while !turns.is_empty() && serialized_bytes(&turns) > max { turns.remove(0) }\<close>\<close>

fun fit_bytes :: "(HistoryMessage list \<Rightarrow> nat) \<Rightarrow> nat \<Rightarrow> Turn list \<Rightarrow> nat \<Rightarrow> Turn list \<times> nat" where
  "fit_bytes to_vec_len limit [] omitted = ([], omitted)"
| "fit_bytes to_vec_len limit (t # ts) omitted =
     (if serialized_bytes to_vec_len (t # ts) > limit then fit_bytes to_vec_len limit ts (omitted + 1)
      else (t # ts, omitted))"

definition fit_turns :: "(HistoryMessage list \<Rightarrow> nat) \<Rightarrow> HistoryLimits \<Rightarrow> Turn list \<Rightarrow> BuiltHistory" where
  "fit_turns to_vec_len limits collected =
     (let turns = sort_key t_created_at collected;
          over = length turns - max_turns limits;
          (kept, omitted) = fit_bytes to_vec_len (max_bytes limits) (drop over turns) over
      in \<lparr>bh_messages = concat (map turn_messages kept), bh_omitted_turns = omitted,
          bh_bytes = serialized_bytes to_vec_len kept\<rparr>)"

definition build ::
  "(HistoryMessage list \<Rightarrow> nat) \<Rightarrow> RunRecord list \<Rightarrow> string \<Rightarrow> string \<Rightarrow> HistoryLimits \<Rightarrow> BuiltHistory option" where
  "build to_vec_len rs sid current limits =
     map_option (fit_turns to_vec_len limits) (collect_turns rs sid current)"

text \<open>An attempt at the message of a run: a retry of it, directly or through other retries.\<close>

inductive descends :: "RunRecord list \<Rightarrow> string \<Rightarrow> RunRecord \<Rightarrow> bool" for rs where
  direct: "run \<in> set (retries_of rs root_id) \<Longrightarrow> descends rs root_id run"
| further: "q \<in> set (retries_of rs root_id) \<Longrightarrow> descends rs (run_id q) run \<Longrightarrow> descends rs root_id run"

definition is_attempt :: "RunRecord list \<Rightarrow> string \<Rightarrow> RunRecord \<Rightarrow> bool" where
  "is_attempt rs root_id run \<longleftrightarrow> (run \<in> set rs \<and> run_id run = root_id) \<or> descends rs root_id run"

definition run_output :: "RunRecord \<Rightarrow> string option" where
  "run_output run = Option.bind (result_payload run) (\<lambda>payload. text_field payload ''output'')"

text \<open>One finished run, to evaluate the theorems on.\<close>

definition demo_run :: RunRecord where
  "demo_run = \<lparr>run_id = ''r1'', project_id = ''p'', session_id = Some ''s'', idempotency_key = None,
     runtime_kind = ''host'', provider = None, model = None, status = ''completed'', created_at = 1,
     started_at = None, updated_at = 2, finished_at = Some 2, last_event_seq = 0, terminal_reason = None,
     error_code = None, error_message = None, hermes_run_id = None,
     request_payload = JObject [(''input'', JString ''hi'')], result_payload = Some (JObject [(''output'', JString ''yo'')]),
     recovery_note = None, retry_of_run_id = None\<rparr>"

section \<open>Following retries ends\<close>

text \<open>Retries are ordered when a rank grows from every run to its retries.\<close>

definition ranked :: "(string \<Rightarrow> nat) \<Rightarrow> RunRecord list \<Rightarrow> bool" where
  "ranked rank rs \<longleftrightarrow> (\<forall>run \<in> set rs. \<forall>p. retry_of_run_id run = Some p \<longrightarrow> rank p < rank (run_id run))"

definition height :: "(string \<Rightarrow> nat) \<Rightarrow> RunRecord list \<Rightarrow> string \<Rightarrow> nat" where
  "height rank rs i = card {x \<in> run_id ` set rs. rank i < rank x}"

lemma height_retry:
  assumes "ranked rank rs" and "run \<in> set (retries_of rs p)"
  shows "height rank rs (run_id run) < height rank rs p"
proof -
  have run: "run \<in> set rs" and less: "rank p < rank (run_id run)"
    using assms by (auto simp: retries_of_def ranked_def)
  then have "{x \<in> run_id ` set rs. rank (run_id run) < rank x} \<subset> {x \<in> run_id ` set rs. rank p < rank x}"
    by auto
  then show ?thesis unfolding height_def by (intro psubset_card_mono) auto
qed

lemma follow_attempts_ends:
  assumes "ranked rank rs"
  shows "\<exists>res. follow_attempts rs frontier chain = Some res"
proof (induction "mset (map (height rank rs) frontier)" arbitrary: frontier chain rule: wf_induct_rule [OF wf_mult [OF wf_less]])
  case 1
  show ?case
  proof (cases frontier)
    case Nil
    then show ?thesis by (simp add: follow_attempts.simps)
  next
    case (Cons p rest)
    let ?next = "rev (map run_id (retries_of rs p)) @ rest"
    have "\<forall>k \<in># mset (map (height rank rs) (map run_id (retries_of rs p))). \<exists>j \<in># {#height rank rs p#}. (k, j) \<in> {(x, y). x < y}"
      using height_retry [OF assms] by auto
    then have "(mset (map (height rank rs) rest) + mset (map (height rank rs) (map run_id (retries_of rs p))),
        mset (map (height rank rs) rest) + {#height rank rs p#}) \<in> mult {(x, y). x < y}"
      by (intro one_step_implies_mult) auto
    then have "(mset (map (height rank rs) ?next), mset (map (height rank rs) frontier)) \<in> mult {(x, y). x < y}"
      by (simp add: Cons add.commute multiset.map_comp)
    then obtain res where "follow_attempts rs ?next (chain @ retries_of rs p) = Some res"
      using 1 by blast
    then show ?thesis by (simp add: Cons follow_attempts.simps [of rs "p # rest"])
  qed
qed

lemma build_ends:
  assumes "ranked rank rs"
  shows "\<exists>turns. collect_from rs sid current others = Some turns"
proof (induction others)
  case (Cons run others)
  have "\<exists>t. collect_turn rs sid current run = Some t"
    using follow_attempts_ends [OF assms, of "[run_id run]" "filter (\<lambda>r. run_id r = run_id run) rs"]
    by (auto simp: collect_turn_def attempt_chain_def split: option.splits)
  with Cons show ?case by auto
qed simp

section \<open>Retries of a reachable registry are ordered\<close>

definition retry_key :: "RunRow \<Rightarrow> string \<times> string option" where
  "retry_key r = (r_run_id r, r_retry_of_run_id r)"

definition retries_ordered :: "(string \<times> string option) list \<Rightarrow> bool" where
  "retries_ordered ks \<longleftrightarrow> (\<forall>ys k zs p. ks = ys @ k # zs \<longrightarrow> snd k = Some p \<longrightarrow> p \<in> fst ` set ys)"

lemma retries_ordered_snoc:
  assumes "retries_ordered ks" and "\<And>p. snd k = Some p \<Longrightarrow> p \<in> fst ` set ks"
  shows "retries_ordered (ks @ [k])"
  unfolding retries_ordered_def
proof (intro allI impI)
  fix ys k' zs p assume eq: "ks @ [k] = ys @ k' # zs" and p: "snd k' = Some p"
  show "p \<in> fst ` set ys"
  proof (cases zs rule: rev_cases)
    case Nil
    then show ?thesis using eq p assms(2) by simp
  next
    case (snoc zs' z)
    then have "ks = ys @ k' # zs'" using eq by simp
    then show ?thesis using assms(1) p unfolding retries_ordered_def by blast
  qed
qed

lemma map_retry_key_update: "keeps_identity f \<Longrightarrow> map retry_key (update_where p f t) = map retry_key t"
  by (rule map_key_update_where) (simp add: retry_key_def keeps_identity_def)

lemma apply_update_keys: "apply_update cdc now rid u reg = Inr reg' \<Longrightarrow> map retry_key (runs reg') = map retry_key (runs reg)"
  by (auto simp: apply_update_Inr map_retry_key_update)

lemma append_event_keys:
  assumes "append_event cdc now rid ev upd reg = Inr (outcome, reg')"
  shows "map retry_key (runs reg') = map retry_key (runs reg)"
proof -
  have ins: "map retry_key (runs (insert_event cdc now rid n ev reg)) = map retry_key (runs reg)" for n
    using map_retry_key_update [OF keeps_identity_bump] by (simp add: insert_event_def)
  show ?thesis
    using assms ins apply_update_keys unfolding append_event_Inr by (fastforce split: option.splits)
qed

lemma step_keys:
  assumes "reg_step cdc reg reg'" and ord: "retries_ordered (map retry_key (runs reg))"
  shows "retries_ordered (map retry_key (runs reg'))"
  using assms(1)
proof cases
  case (create now fresh request c)
  then show ?thesis
  proof (cases rule: create_run_cases)
    case existing
    then show ?thesis using ord by simp
  next
    case fresh
    have "retries_ordered (map retry_key (runs reg) @ [retry_key (new_row cdc now fresh request)])"
      using fresh(3) by (intro retries_ordered_snoc [OF ord]) (force simp: retry_key_def)
    then show ?thesis using fresh(4) by simp
  qed
next
  case (change now rid u rec)
  then show ?thesis using apply_update_keys [OF update_run_apply] ord by metis
next
  case (append clock rid ev upd outcome)
  then show ?thesis using append_event_keys ord by metis
next
  case (policy now rid pol actor b)
  then show ?thesis
    using ord by (auto simp: set_policy_Inr map_retry_key_update keeps_identity_policy_row split: if_splits)
qed (use ord in \<open>auto simp: record_approval_request_def record_approval_decision_def record_approval_resolution_def split: if_splits\<close>)

lemma reachable_retries_ordered:
  "(reg_step cdc)\<^sup>*\<^sup>* empty_registry reg \<Longrightarrow> retries_ordered (map retry_key (runs reg))"
proof (erule reg_sys.reachable_induct)
  show "retries_ordered (map retry_key (runs empty_registry))"
    by (simp add: empty_registry_def retries_ordered_def)
qed (rule step_keys)

definition row_rank :: "RunRow list \<Rightarrow> string \<Rightarrow> nat" where
  "row_rank rows i = length (takeWhile (\<lambda>r. r_run_id r \<noteq> i) rows)"

lemma row_rank_member: "i \<in> r_run_id ` set ys \<Longrightarrow> row_rank (ys @ zs) i < length ys"
  by (induction ys) (auto simp: row_rank_def)

lemma row_rank_new: "i \<notin> r_run_id ` set ys \<Longrightarrow> r_run_id r = i \<Longrightarrow> row_rank (ys @ r # zs) i = length ys"
  by (induction ys) (auto simp: row_rank_def)

lemma row_rank_retry:
  assumes "distinct (map r_run_id rows)" and "retries_ordered (map retry_key rows)"
    and "r \<in> set rows" and "r_retry_of_run_id r = Some p"
  shows "row_rank rows p < row_rank rows (r_run_id r)"
proof -
  obtain ys zs where rows: "rows = ys @ r # zs" using assms(3) split_list by metis
  have "map retry_key rows = map retry_key ys @ retry_key r # map retry_key zs" by (simp add: rows)
  then have "p \<in> fst ` set (map retry_key ys)"
    using assms(2,4) unfolding retries_ordered_def by (metis retry_key_def snd_conv)
  then have "p \<in> r_run_id ` set ys" by (auto simp: retry_key_def)
  then have "row_rank rows p < length ys" unfolding rows by (rule row_rank_member)
  moreover have "row_rank rows (r_run_id r) = length ys"
    unfolding rows using assms(1) by (intro row_rank_new) (auto simp: rows)
  ultimately show ?thesis by simp
qed

lemma retry_of_map_run [simp]: "retry_of_run_id (map_run cdc r) = r_retry_of_run_id r"
  by (simp add: map_run_def)

lemma in_map_filter: "y \<in> set (List.map_filter f xs) \<Longrightarrow> \<exists>x \<in> set xs. f x = Some y"
  by (induction xs) (auto simp: map_filter_simps split: option.splits)

lemma list_runs_loaded: "run \<in> set (list_runs cdc pid n reg) \<Longrightarrow> \<exists>r \<in> set (runs reg). run = map_run cdc r"
  by (auto simp: list_runs_def Let_def load_run_def dest!: in_map_filter row_by_SomeD)

lemma list_runs_ranked:
  assumes "(reg_step cdc)\<^sup>*\<^sup>* empty_registry reg"
  shows "ranked (row_rank (runs reg)) (list_runs cdc pid n reg)"
proof -
  have "reg_inv cdc reg" using assms by (rule reg_sys.inv_reachable)
  then have dist: "distinct (map r_run_id (runs reg))" by (simp add: reg_inv_def keys_ok_def)
  show ?thesis
    unfolding ranked_def
    using row_rank_retry [OF dist reachable_retries_ordered [OF assms]] list_runs_loaded by fastforce
qed

section \<open>Fitting the limits\<close>

lemma fit_bytes_result:
  assumes "fit_bytes len limit ts omitted = (kept, n)"
  shows "suffix kept ts \<and> n + length kept = omitted + length ts \<and> (kept = [] \<or> serialized_bytes len kept \<le> limit) \<and>
    (\<forall>more. suffix more ts \<longrightarrow> length kept < length more \<longrightarrow> limit < serialized_bytes len more)"
  using assms
proof (induction ts arbitrary: omitted)
  case (Cons t ts)
  show ?case
  proof (cases "serialized_bytes len (t # ts) > limit")
    case True
    then have "fit_bytes len limit ts (omitted + 1) = (kept, n)" using Cons.prems by simp
    from Cons.IH [OF this] show ?thesis using True by (auto simp: suffix_Cons)
  next
    case False
    then have "kept = t # ts" "n = omitted" using Cons.prems by auto
    then show ?thesis using False by (auto dest: suffix_length_le)
  qed
qed simp

lemma fit_turns_result:
  "\<exists>kept. suffix kept (sort_key t_created_at ts) \<and> bh_messages (fit_turns len limits ts) = concat (map turn_messages kept) \<and>
    length kept \<le> max_turns limits \<and> bh_omitted_turns (fit_turns len limits ts) + length kept = length ts \<and>
    bh_bytes (fit_turns len limits ts) = serialized_bytes len kept \<and>
    (kept = [] \<or> serialized_bytes len kept \<le> max_bytes limits) \<and>
    (\<forall>other. suffix other (sort_key t_created_at ts) \<longrightarrow> length kept < length other \<longrightarrow>
       length other \<le> max_turns limits \<longrightarrow> max_bytes limits < serialized_bytes len other)"
proof -
  let ?sorted = "sort_key t_created_at ts"
  let ?over = "length ?sorted - max_turns limits"
  obtain kept n where fit: "fit_bytes len (max_bytes limits) (drop ?over ?sorted) ?over = (kept, n)" by force
  note r = fit_bytes_result [OF fit]
  have suf: "suffix kept ?sorted" using r suffix_drop suffix_order.trans by blast
  have len: "length kept \<le> max_turns limits" using r suffix_length_le [of kept "drop ?over ?sorted"] by simp
  have omitted: "n + length kept = length ts" using r by simp
  have max: "max_bytes limits < serialized_bytes len other"
    if other: "suffix other ?sorted" "length kept < length other" "length other \<le> max_turns limits" for other
  proof -
    obtain zs where zs: "?sorted = zs @ other" using other(1) by (auto simp: suffix_def)
    then have "length ?sorted = length zs + length other" by simp
    then have "drop ?over ?sorted = drop ?over zs @ other" using other(3) zs by simp
    then have "suffix other (drop ?over ?sorted)" by (simp add: suffix_def)
    then show ?thesis using r other(2) by blast
  qed
  have "fit_turns len limits ts =
      \<lparr>bh_messages = concat (map turn_messages kept), bh_omitted_turns = n, bh_bytes = serialized_bytes len kept\<rparr>"
    using fit by (simp add: fit_turns_def Let_def)
  then show ?thesis using suf len omitted max r by (intro exI [of _ kept]) simp
qed

text \<open>
  C18.  The transcript of a continued run is always built: following the retries
  of any run of a reachable registry ends, because a retry is always created after
  the run it retries.  What is sent is the longest run of most recent turns that
  satisfies both limits, in order, each turn a user and an assistant message, and
  the omitted turns are counted exactly.
\<close>

theorem history_is_built:
  assumes "(reg_step cdc)\<^sup>*\<^sup>* empty_registry reg"
  shows "\<exists>turns h kept. collect_turns (list_runs cdc pid n reg) sid current = Some turns \<and>
    build len (list_runs cdc pid n reg) sid current limits = Some h \<and>
    suffix kept (sort_key t_created_at turns) \<and> bh_messages h = concat (map turn_messages kept) \<and>
    length kept \<le> max_turns limits \<and> bh_omitted_turns h + length kept = length turns \<and>
    (kept = [] \<or> bh_bytes h \<le> max_bytes limits) \<and>
    (\<forall>other. suffix other (sort_key t_created_at turns) \<longrightarrow> length kept < length other \<longrightarrow>
       length other \<le> max_turns limits \<longrightarrow> max_bytes limits < serialized_bytes len other)"
proof -
  obtain turns where turns: "collect_turns (list_runs cdc pid n reg) sid current = Some turns"
    using build_ends [OF list_runs_ranked [OF assms]] unfolding collect_turns_def by blast
  then have "build len (list_runs cdc pid n reg) sid current limits = Some (fit_turns len limits turns)"
    by (simp add: build_def)
  with turns fit_turns_result [of turns len limits] show ?thesis by metis
qed

theorem history_is_built_witness:
  "\<exists>h. build (\<lambda>ms. 100 * length ms) (list_runs plain_codec ''p'' 10 demo_reg2) ''s'' ''run_9'' limits_default = Some h"
proof -
  have "(reg_step plain_codec)\<^sup>*\<^sup>* empty_registry demo_reg2"
    using demo_steps by (meson converse_rtranclp_into_rtranclp rtranclp.rtrancl_refl)
  from history_is_built [OF this] show ?thesis by blast
qed

section \<open>What a turn holds\<close>

inductive_simps descends_iff: "descends rs root_id run"

lemma follow_attempts_set:
  assumes "follow_attempts rs frontier chain = Some res"
  shows "set res = set chain \<union> {run. \<exists>p \<in> set frontier. descends rs p run}"
proof (rule follow_attempts.raw_induct [OF _ assms])
  fix follow rs frontier chain res
  assume IH: "\<And>rs frontier chain res. follow rs frontier chain = Some res \<Longrightarrow>
      set res = set chain \<union> {run. \<exists>p \<in> set frontier. descends rs p run}"
    and body: "(case frontier of [] \<Rightarrow> Some chain
      | parent # rest \<Rightarrow> follow rs (rev (map run_id (retries_of rs parent)) @ rest) (chain @ retries_of rs parent)) = Some res"
  show "set res = set chain \<union> {run. \<exists>p \<in> set frontier. descends rs p run}"
  proof (cases frontier)
    case (Cons p rest)
    then have "follow rs (rev (map run_id (retries_of rs p)) @ rest) (chain @ retries_of rs p) = Some res"
      using body by simp
    from IH [OF this] show ?thesis using descends_iff [of rs p] by (auto simp: Cons)
  qed (use body in simp)
qed

lemma attempt_chain_set:
  assumes "attempt_chain rs root_id = Some attempts"
  shows "set attempts = {run. is_attempt rs root_id run}" and "sorted (map created_at attempts)"
proof -
  obtain res where res: "follow_attempts rs [root_id] (filter (\<lambda>run. run_id run = root_id) rs) = Some res"
      and attempts: "attempts = sort_key created_at res"
    using assms by (auto simp: attempt_chain_def)
  have "set res = set (filter (\<lambda>run. run_id run = root_id) rs) \<union> {run. \<exists>p \<in> set [root_id]. descends rs p run}"
    by (rule follow_attempts_set [OF res])
  then have "set res = {run. is_attempt rs root_id run}"
    by (simp add: is_attempt_def Collect_disj_eq)
  then show "set attempts = {run. is_attempt rs root_id run}" by (simp add: attempts)
  show "sorted (map created_at attempts)" by (simp add: attempts)
qed

lemma first_some_Some:
  "first_some f xs = Some y \<Longrightarrow> \<exists>ys x zs. xs = ys @ x # zs \<and> f x = Some y \<and> (\<forall>z \<in> set ys. f z = None)"
proof (induction xs)
  case (Cons a xs)
  show ?case
  proof (cases "f a")
    case None
    then obtain ys x zs where "xs = ys @ x # zs" "f x = Some y" "\<forall>z \<in> set ys. f z = None"
      using Cons by auto
    then show ?thesis using None by (intro exI [of _ "a # ys"] exI [of _ x] exI [of _ zs]) simp
  next
    case (Some b)
    then show ?thesis using Cons.prems by (intro exI [of _ "[]"] exI [of _ a] exI [of _ xs]) simp
  qed
qed simp

lemma latest_completed_answer_Some:
  assumes "latest_completed_answer attempts = Some answer" and "sorted (map created_at attempts)"
  shows "\<exists>att \<in> set attempts. is_completed att \<and> run_output att = Some answer \<and>
    (\<forall>other \<in> set attempts. is_completed other \<longrightarrow> run_output other \<noteq> None \<longrightarrow> created_at other \<le> created_at att)"
proof -
  obtain ys att zs where split: "filter is_completed (rev attempts) = ys @ att # zs"
      and out: "run_output att = Some answer" and none: "\<forall>z \<in> set ys. run_output z = None"
    using first_some_Some assms(1) unfolding latest_completed_answer_def run_output_def [symmetric] by metis
  have "sorted_wrt (\<lambda>x y. created_at y \<le> created_at x) (rev attempts)"
    using assms(2) by (simp add: sorted_wrt_rev sorted_wrt_map)
  then have "sorted_wrt (\<lambda>x y. created_at y \<le> created_at x) (ys @ att # zs)"
    unfolding split [symmetric] by (rule sorted_wrt_filter)
  then have older: "\<forall>z \<in> set zs. created_at z \<le> created_at att" by (simp add: sorted_wrt_append)
  have all: "set (filter is_completed (rev attempts)) = set ys \<union> {att} \<union> set zs" by (simp add: split)
  have "created_at other \<le> created_at att"
    if "other \<in> set attempts" "is_completed other" "run_output other \<noteq> None" for other
  proof -
    have "other \<in> set ys \<union> {att} \<union> set zs" unfolding all [symmetric] using that by simp
    then show ?thesis using none older that(3) by auto
  qed
  moreover have "att \<in> set (filter is_completed (rev attempts))" unfolding all by simp
  ultimately show ?thesis using out by auto
qed

lemma collect_from_turn:
  assumes "collect_from rs sid current others = Some turns" and "t \<in> set turns"
  shows "\<exists>run \<in> set others. \<exists>ts. collect_turn rs sid current run = Some ts \<and> t \<in> set ts"
  using assms
proof (induction others arbitrary: turns)
  case (Cons run others)
  then obtain a b where "collect_turn rs sid current run = Some a" "collect_from rs sid current others = Some b"
      "turns = a @ b"
    by (auto simp: bind_eq_Some_conv)
  with Cons show ?case by auto
qed simp

lemma collect_turn_Some:
  assumes "collect_turn rs sid current run = Some ts" and "t \<in> set ts"
  shows "opens_turn sid current run \<and> (\<exists>user attempts assistant. turn_user run = Some user \<and>
    attempt_chain rs (run_id run) = Some attempts \<and> latest_completed_answer attempts = Some assistant \<and>
    t = \<lparr>t_created_at = created_at run, t_user = user, t_assistant = assistant\<rparr>)"
proof -
  have opens: "opens_turn sid current run" using assms by (cases "opens_turn sid current run") (auto simp: collect_turn_def)
  then obtain user where user: "turn_user run = Some user"
    using assms by (cases "turn_user run") (auto simp: collect_turn_def)
  then obtain attempts where attempts: "attempt_chain rs (run_id run) = Some attempts"
    using assms opens by (cases "attempt_chain rs (run_id run)") (auto simp: collect_turn_def)
  then obtain assistant where "latest_completed_answer attempts = Some assistant"
    using assms opens user by (cases "latest_completed_answer attempts") (auto simp: collect_turn_def)
  then show ?thesis using assms opens user attempts by (auto simp: collect_turn_def)
qed

text \<open>
  Every turn of the transcript is a real exchange of that session: its user
  message is the stored message of a run that is neither the current one nor a
  retry, and its answer is the output of the newest completed attempt at that
  message, where attempts are the run itself and everything that retries it.
\<close>

theorem turns_are_real_exchanges:
  assumes "collect_turns rs sid current = Some turns" and "t \<in> set turns"
  shows "\<exists>root \<in> set rs. run_id root \<noteq> current \<and> session_id root = Some sid \<and> retry_of_run_id root = None \<and>
    turn_user root = Some (t_user t) \<and> created_at root = t_created_at t \<and>
    (\<exists>att. is_attempt rs (run_id root) att \<and> is_completed att \<and> run_output att = Some (t_assistant t) \<and>
      (\<forall>other. is_attempt rs (run_id root) other \<longrightarrow> is_completed other \<longrightarrow> run_output other \<noteq> None \<longrightarrow>
         created_at other \<le> created_at att))"
proof -
  obtain root ts where root: "root \<in> set rs" "collect_turn rs sid current root = Some ts" "t \<in> set ts"
    using collect_from_turn assms unfolding collect_turns_def by blast
  have opens: "opens_turn sid current root" using collect_turn_Some [OF root(2,3)] by blast
  obtain user attempts assistant where t: "turn_user root = Some user" "t = \<lparr>t_created_at = created_at root, t_user = user, t_assistant = assistant\<rparr>"
    and chain: "attempt_chain rs (run_id root) = Some attempts"
    and "latest_completed_answer attempts = Some assistant"
    using collect_turn_Some [OF root(2,3)] by blast
  then have answer: "latest_completed_answer attempts = Some (t_assistant t)"
    and user: "turn_user root = Some (t_user t)" and at: "created_at root = t_created_at t" by simp_all
  have "\<exists>att \<in> set attempts. is_completed att \<and> run_output att = Some (t_assistant t) \<and>
    (\<forall>other \<in> set attempts. is_completed other \<longrightarrow> run_output other \<noteq> None \<longrightarrow> created_at other \<le> created_at att)"
    by (rule latest_completed_answer_Some [OF answer attempt_chain_set(2) [OF chain]])
  then show ?thesis
    using root(1) opens user at unfolding opens_turn_def attempt_chain_set(1) [OF chain] by blast
qed

theorem turns_are_real_exchanges_witness:
  "\<exists>root \<in> set [demo_run]. turn_user root = Some ''hi'' \<and> run_output root = Some ''yo''"
proof -
  let ?t = "\<lparr>t_created_at = 1, t_user = ''hi'', t_assistant = ''yo''\<rparr>"
  have retries: "retries_of [demo_run] ''r1'' = []" by (simp add: retries_of_def demo_run_def)
  have chain: "attempt_chain [demo_run] ''r1'' = Some [demo_run]"
    by (simp add: attempt_chain_def follow_attempts.simps retries) (simp add: demo_run_def)
  have "trim ''hi'' = ''hi''" "trim ''yo'' = ''yo''"
    by (simp_all add: trim_id starts_ws_def ends_ws_def ends_with_def unicode_ws_def)
  then have user: "turn_user demo_run = Some ''hi''" and out: "run_output demo_run = Some ''yo''"
    by (simp_all add: turn_user_def run_output_def text_field_def trimmed_field_def demo_run_def get_str_def
        parse_def history_suffix_def)
  have "is_completed demo_run" by (simp add: is_completed_def record_status_def demo_run_def run_status_parse_def)
  then have "latest_completed_answer [demo_run] = Some ''yo''"
    using out by (simp add: latest_completed_answer_def run_output_def)
  then have "collect_turns [demo_run] ''s'' ''r9'' = Some [?t]"
    using chain user by (simp add: collect_turns_def collect_turn_def opens_turn_def demo_run_def)
  from turns_are_real_exchanges [OF this, of ?t] show ?thesis using out by auto
qed

end
