(* ===== verification/Run_Lock.thy ===== *)
theory Run_Lock
  imports Run_State Json_Codec
begin

text \<open>
  \<open>src/src/runlock.rs\<close>: single-flight admission for one project.  The state of
  the project directory is who holds the advisory lock (the kernel releases it when
  the holder exits) and the contents of \<open>active-run.json\<close>.  The derived
  serialization of that record is a parameter.
\<close>

record ActiveRun =
  ar_run_id :: string
  ar_session_id :: "string option"
  ar_started_at_unix :: nat

record active_codec =
  active_to_string :: "ActiveRun \<Rightarrow> string"
  active_from_str :: "string \<Rightarrow> ActiveRun option"

record Project_Dir =
  lock_holder :: "nat option"
  active_file :: "string option"

datatype ConflictReason = LockHeld | ConflictingRun string string

record RunConflict =
  rcf_project_id :: string
  rcf_reason :: ConflictReason

datatype AdmissionDecision = Admit | Reject string string

text \<open>The text of \<open>Display for RunConflict\<close>.\<close>

definition conflict_message :: "RunConflict \<Rightarrow> string" where
  "conflict_message c =
     (case rcf_reason c of
        LockHeld \<Rightarrow> ''project '' @ rcf_project_id c @
          '' already has an active run: the run lock is held by another Asterism Node process''
      | ConflictingRun rid status \<Rightarrow> ''project '' @ rcf_project_id c @
          '' already has an active run: '' @ rid @ '' is '' @ status)"

text \<open>An exclusive non-blocking \<open>flock\<close> on a fresh descriptor by process \<open>p\<close>.\<close>

definition flock_exclusive_nonblocking :: "nat \<Rightarrow> Project_Dir \<Rightarrow> bool \<times> Project_Dir" where
  "flock_exclusive_nonblocking p d =
     (case lock_holder d of
        None \<Rightarrow> (True, d\<lparr>lock_holder := Some p\<rparr>)
      | Some _ \<Rightarrow> (False, d))"

definition try_lock :: "string \<Rightarrow> nat \<Rightarrow> Project_Dir \<Rightarrow> (RunConflict, Project_Dir) result" where
  "try_lock pid p d =
     (case flock_exclusive_nonblocking p d of
        (False, _) \<Rightarrow> Inl \<lparr>rcf_project_id = pid, rcf_reason = LockHeld\<rparr>
      | (True, d') \<Rightarrow> Inr d')"

text \<open>Dropping the lock, or the death of its holder.\<close>

definition release :: "nat \<Rightarrow> Project_Dir \<Rightarrow> Project_Dir" where
  "release p d = (if lock_holder d = Some p then d\<lparr>lock_holder := None\<rparr> else d)"

definition read_active_run :: "active_codec \<Rightarrow> Project_Dir \<Rightarrow> ActiveRun option" where
  "read_active_run acd d =
     (case active_file d of
        None \<Rightarrow> None
      | Some body \<Rightarrow> if trim body = [] then None else active_from_str acd body)"

definition record_active_run :: "active_codec \<Rightarrow> ActiveRun \<Rightarrow> Project_Dir \<Rightarrow> Project_Dir" where
  "record_active_run acd run d = d\<lparr>active_file := Some (active_to_string acd run)\<rparr>"

definition clear_active_run :: "Project_Dir \<Rightarrow> Project_Dir" where
  "clear_active_run d = d\<lparr>active_file := None\<rparr>"

definition classify_recorded_run :: "ActiveRun option \<Rightarrow> string option \<Rightarrow> AdmissionDecision" where
  "classify_recorded_run run status =
     (case run of
        None \<Rightarrow> Admit
      | Some r \<Rightarrow>
          (case status of
             None \<Rightarrow> Admit
           | Some s \<Rightarrow> if is_terminal_status s then Admit else Reject (ar_run_id r) s))"

fun conflict_from_decision :: "string \<Rightarrow> AdmissionDecision \<Rightarrow> RunConflict option" where
  "conflict_from_decision pid Admit = None"
| "conflict_from_decision pid (Reject rid status) =
     Some \<lparr>rcf_project_id = pid, rcf_reason = ConflictingRun rid status\<rparr>"

section \<open>Admission with several processes\<close>

text \<open>
  The use \<open>execute_run\<close> and \<open>reconcile_project\<close> make of the lock and of the
  recorded run (\<open>src/src/runner.rs\<close>), interleaved over several processes and with
  the backend: a worker locks, is admitted or refused, submits, records what it
  submitted and follows it to its end, or gives up on it; a worker of a run that was
  submitted before re-attaches to it and records nothing; a submission may fail,
  whether or not the backend took it; a reconciliation takes the lock and drops the
  record; a process may die at any point, and the backend ends and forgets runs on
  its own.  \<open>adm_abandoned\<close> collects the runs that are
  no longer recorded although the backend may still execute them.
\<close>

datatype phase = Idle | Holding | Admitted | Sent string | Recorded string | Resumed string

record Admission =
  adm_dir :: Project_Dir
  adm_phase :: "nat \<Rightarrow> phase"
  adm_backend :: "(string \<times> string) list"
  adm_abandoned :: "string set"

definition live_runs :: "Admission \<Rightarrow> string set" where
  "live_runs s = {rid. \<exists>st. map_of (adm_backend s) rid = Some st \<and> \<not> is_terminal_status st}"

definition adm_init :: Admission where
  "adm_init = \<lparr>adm_dir = \<lparr>lock_holder = None, active_file = None\<rparr>, adm_phase = (\<lambda>_. Idle),
     adm_backend = [], adm_abandoned = {}\<rparr>"

definition admission :: "active_codec \<Rightarrow> string \<Rightarrow> Admission \<Rightarrow> RunConflict option" where
  "admission acd pid s =
     (case read_active_run acd (adm_dir s) of
        None \<Rightarrow> None
      | Some r \<Rightarrow> conflict_from_decision pid
          (classify_recorded_run (Some r) (map_of (adm_backend s) (ar_run_id r))))"

inductive adm_step :: "active_codec \<Rightarrow> string \<Rightarrow> Admission \<Rightarrow> Admission \<Rightarrow> bool" for acd pid where
  lock: "adm_phase s p = Idle \<Longrightarrow> try_lock pid p (adm_dir s) = Inr d \<Longrightarrow>
     adm_step acd pid s (s\<lparr>adm_dir := d, adm_phase := (adm_phase s)(p := Holding)\<rparr>)"
| admit: "adm_phase s p = Holding \<Longrightarrow> admission acd pid s = None \<Longrightarrow>
     adm_step acd pid s (s\<lparr>adm_dir := clear_active_run (adm_dir s), adm_phase := (adm_phase s)(p := Admitted)\<rparr>)"
| refuse: "adm_phase s p = Holding \<Longrightarrow> admission acd pid s = Some c \<Longrightarrow>
     adm_step acd pid s (s\<lparr>adm_dir := release p (adm_dir s), adm_phase := (adm_phase s)(p := Idle)\<rparr>)"
| submit: "adm_phase s p = Admitted \<Longrightarrow> rid \<notin> fst ` set (adm_backend s) \<Longrightarrow>
     adm_step acd pid s (s\<lparr>adm_backend := (rid, st) # adm_backend s, adm_phase := (adm_phase s)(p := Sent rid)\<rparr>)"
| submit_fails: "adm_phase s p = Admitted \<Longrightarrow>
     adm_step acd pid s (s\<lparr>adm_dir := release p (clear_active_run (adm_dir s)), adm_phase := (adm_phase s)(p := Idle)\<rparr>)"
| submit_unanswered: "adm_phase s p = Admitted \<Longrightarrow> rid \<notin> fst ` set (adm_backend s) \<Longrightarrow>
     adm_step acd pid s (s\<lparr>adm_backend := (rid, st) # adm_backend s, adm_dir := release p (clear_active_run (adm_dir s)),
       adm_phase := (adm_phase s)(p := Idle), adm_abandoned := insert rid (adm_abandoned s)\<rparr>)"
| resume: "adm_phase s p = Admitted \<Longrightarrow>
     adm_step acd pid s (s\<lparr>adm_phase := (adm_phase s)(p := Resumed rid)\<rparr>)"
| resumed_ends: "adm_phase s p = Resumed rid \<Longrightarrow>
     adm_step acd pid s (s\<lparr>adm_dir := release p (clear_active_run (adm_dir s)), adm_phase := (adm_phase s)(p := Idle)\<rparr>)"
| mark: "adm_phase s p = Sent rid \<Longrightarrow>
     adm_step acd pid s (s\<lparr>adm_dir := record_active_run acd
         \<lparr>ar_run_id = rid, ar_session_id = sess, ar_started_at_unix = t\<rparr> (adm_dir s),
       adm_phase := (adm_phase s)(p := Recorded rid)\<rparr>)"
| finish: "adm_phase s p = Recorded rid \<Longrightarrow> rid \<notin> live_runs s \<Longrightarrow>
     adm_step acd pid s (s\<lparr>adm_dir := release p (clear_active_run (adm_dir s)), adm_phase := (adm_phase s)(p := Idle)\<rparr>)"
| give_up: "adm_phase s p = Recorded rid \<Longrightarrow>
     adm_step acd pid s (s\<lparr>adm_dir := release p (clear_active_run (adm_dir s)), adm_phase := (adm_phase s)(p := Idle),
       adm_abandoned := insert rid (adm_abandoned s)\<rparr>)"
| reconcile: "adm_phase s p = Idle \<Longrightarrow> try_lock pid p (adm_dir s) = Inr d \<Longrightarrow>
     adm_step acd pid s (s\<lparr>adm_dir := release p (clear_active_run d),
       adm_abandoned := (case read_active_run acd (adm_dir s) of None \<Rightarrow> adm_abandoned s
                           | Some r \<Rightarrow> insert (ar_run_id r) (adm_abandoned s))\<rparr>)"
| die: "adm_step acd pid s (s\<lparr>adm_dir := release p (adm_dir s), adm_phase := (adm_phase s)(p := Idle),
       adm_abandoned := (case adm_phase s p of Sent rid \<Rightarrow> insert rid (adm_abandoned s) | _ \<Rightarrow> adm_abandoned s)\<rparr>)"
| settle: "is_terminal_status st \<Longrightarrow>
     adm_step acd pid s (s\<lparr>adm_backend := map (\<lambda>(r, x). if r = rid then (r, st) else (r, x)) (adm_backend s)\<rparr>)"
| restart: "adm_step acd pid s (s\<lparr>adm_backend := []\<rparr>)"

text \<open>What is relied on of the record's serialization: a record is read back, and is never blank.\<close>

definition faithful :: "active_codec \<Rightarrow> bool" where
  "faithful acd \<longleftrightarrow> (\<forall>r. active_from_str acd (active_to_string acd r) = Some r \<and> trim (active_to_string acd r) \<noteq> [])"

definition wire_active :: active_codec where
  "wire_active =
     \<lparr>active_to_string = (\<lambda>r. enc (JArray [JString (ar_run_id r), json_of_opt (ar_session_id r), json_of_nat (ar_started_at_unix r)])),
      active_from_str = (\<lambda>s. case dec (length s) s of
         Some (JArray [JString i, sess, JNumber (PosInt t)], []) \<Rightarrow>
           Some \<lparr>ar_run_id = i, ar_session_id = as_str sess, ar_started_at_unix = t\<rparr>
       | _ \<Rightarrow> None)\<rparr>"

section \<open>The invariant of admission\<close>

definition recorded :: "active_codec \<Rightarrow> Admission \<Rightarrow> string set" where
  "recorded acd s = (case read_active_run acd (adm_dir s) of None \<Rightarrow> {} | Some r \<Rightarrow> {ar_run_id r})"

fun phase_runs :: "string set \<Rightarrow> phase \<Rightarrow> string set" where
  "phase_runs known Idle = known"
| "phase_runs known Holding = known"
| "phase_runs known Admitted = {}"
| "phase_runs known (Sent rid) = {rid}"
| "phase_runs known (Recorded rid) = {rid}"
| "phase_runs known (Resumed rid) = {}"

definition adm_inv :: "active_codec \<Rightarrow> Admission \<Rightarrow> bool" where
  "adm_inv acd s \<longleftrightarrow>
     (\<forall>p. adm_phase s p \<noteq> Idle \<longleftrightarrow> lock_holder (adm_dir s) = Some p) \<and>
     live_runs s \<subseteq> adm_abandoned s \<union>
       (case lock_holder (adm_dir s) of None \<Rightarrow> recorded acd s | Some p \<Rightarrow> phase_runs (recorded acd s) (adm_phase s p)) \<and>
     (\<forall>p rid. adm_phase s p = Recorded rid \<longrightarrow> recorded acd s = {rid}) \<and>
     (\<forall>p. adm_phase s p = Admitted \<or> (\<exists>rid. adm_phase s p = Sent rid \<or> adm_phase s p = Resumed rid) \<longrightarrow> recorded acd s = {})"

lemma map_of_settle:
  "map_of (map (\<lambda>(r, x). if r = rid then (r, st) else (r, x)) m) k =
     (if k = rid then map_option (\<lambda>_. st) (map_of m k) else map_of m k)"
  by (induction m) auto

lemma live_runs_settle:
  "is_terminal_status st \<Longrightarrow>
     live_runs (s\<lparr>adm_backend := map (\<lambda>(r, x). if r = rid then (r, st) else (r, x)) (adm_backend s)\<rparr>) \<subseteq> live_runs s"
  by (auto simp: live_runs_def map_of_settle split: if_splits)

lemma live_runs_submit:
  "live_runs (s\<lparr>adm_backend := (rid, st) # adm_backend s, adm_phase := f\<rparr>) \<subseteq> insert rid (live_runs s)"
  by (auto simp: live_runs_def split: if_splits)

lemma admission_None: "admission acd pid s = None \<Longrightarrow> recorded acd s \<inter> live_runs s = {}"
  by (auto simp: admission_def recorded_def live_runs_def classify_recorded_run_def
      split: option.splits if_splits)

lemma recorded_record:
  "faithful acd \<Longrightarrow> recorded acd (s\<lparr>adm_dir := record_active_run acd r d, adm_phase := f\<rparr>) = {ar_run_id r}"
  by (simp add: recorded_def read_active_run_def record_active_run_def faithful_def)

lemma try_lock_Inr: "try_lock pid p d = Inr d' \<longleftrightarrow> lock_holder d = None \<and> d' = d\<lparr>lock_holder := Some p\<rparr>"
  by (auto simp: try_lock_def flock_exclusive_nonblocking_def split: option.splits)

lemma adm_inv_holder: "adm_inv acd s \<Longrightarrow> adm_phase s p \<noteq> Idle \<Longrightarrow> lock_holder (adm_dir s) = Some p"
  by (simp add: adm_inv_def)

lemma adm_inv_others: "adm_inv acd s \<Longrightarrow> adm_phase s p \<noteq> Idle \<Longrightarrow> q \<noteq> p \<Longrightarrow> adm_phase s q = Idle"
  unfolding adm_inv_def by (metis option.inject)

lemma adm_inv_free: "adm_inv acd s \<Longrightarrow> lock_holder (adm_dir s) = None \<Longrightarrow> adm_phase s q = Idle"
  unfolding adm_inv_def by (metis option.distinct(1))

text \<open>The holder \<open>p\<close> gives the lock back with what is still live accounted for.\<close>

lemma adm_inv_release:
  assumes inv: "adm_inv acd s" and "adm_phase s p \<noteq> Idle"
    and "live_runs s \<subseteq> ab \<union> recorded acd (s\<lparr>adm_dir := d\<rparr>)" and "lock_holder d = Some p"
  shows "adm_inv acd (s\<lparr>adm_dir := release p d, adm_phase := (adm_phase s)(p := Idle), adm_abandoned := ab\<rparr>)"
  using assms adm_inv_others [OF inv assms(2)]
  by (auto simp: adm_inv_def release_def recorded_def read_active_run_def live_runs_def)

lemma adm_inv_accounted:
  assumes "adm_inv acd s" and "adm_phase s p \<noteq> Idle" and "phase_runs (recorded acd s) (adm_phase s p) \<inter> live_runs s = {}"
  shows "live_runs s \<subseteq> adm_abandoned s"
  using assms adm_inv_holder [OF assms(1,2)] by (auto simp: adm_inv_def)

text \<open>\<open>p\<close> drops the record and the lock at a point where nothing unaccounted for is live.\<close>

lemma adm_inv_drop:
  assumes inv: "adm_inv acd s" and "adm_phase s p \<noteq> Idle"
    and "phase_runs (recorded acd s) (adm_phase s p) \<inter> live_runs s = {}"
  shows "adm_inv acd (s\<lparr>adm_dir := release p (clear_active_run (adm_dir s)), adm_phase := (adm_phase s)(p := Idle)\<rparr>)"
  using adm_inv_release [OF assms(1,2), of "adm_abandoned s" "clear_active_run (adm_dir s)"]
    adm_inv_accounted [OF assms] adm_inv_holder [OF assms(1,2)]
  by (auto simp: clear_active_run_def)

lemma adm_inv_lock:
  assumes inv: "adm_inv acd s" and "try_lock pid p (adm_dir s) = Inr d"
  shows "adm_inv acd (s\<lparr>adm_dir := d, adm_phase := (adm_phase s)(p := Holding)\<rparr>)"
proof -
  have free: "lock_holder (adm_dir s) = None" and d: "d = (adm_dir s)\<lparr>lock_holder := Some p\<rparr>"
    using assms(2) by (simp_all add: try_lock_Inr)
  show ?thesis
    using inv free adm_inv_free [OF inv free]
    by (auto simp: d adm_inv_def recorded_def read_active_run_def live_runs_def)
qed

lemma adm_inv_admit:
  assumes inv: "adm_inv acd s" and p: "adm_phase s p = Holding" and "admission acd pid s = None"
  shows "adm_inv acd (s\<lparr>adm_dir := clear_active_run (adm_dir s), adm_phase := (adm_phase s)(p := Admitted)\<rparr>)"
proof -
  have hold: "lock_holder (adm_dir s) = Some p" using adm_inv_holder [OF inv] p by simp
  have "live_runs s \<subseteq> adm_abandoned s" using inv hold p admission_None [OF assms(3)] by (auto simp: adm_inv_def)
  then show ?thesis
    using inv hold adm_inv_others [OF inv, of p] p
    by (auto simp: adm_inv_def recorded_def read_active_run_def live_runs_def clear_active_run_def)
qed

lemma adm_inv_refuse:
  assumes "adm_inv acd s" and "adm_phase s p = Holding"
  shows "adm_inv acd (s\<lparr>adm_dir := release p (adm_dir s), adm_phase := (adm_phase s)(p := Idle)\<rparr>)"
proof -
  have "adm_inv acd (s\<lparr>adm_dir := release p (adm_dir s), adm_phase := (adm_phase s)(p := Idle), adm_abandoned := adm_abandoned s\<rparr>)"
    using assms adm_inv_holder [OF assms(1), of p] by (intro adm_inv_release) (auto simp: adm_inv_def)
  then show ?thesis by simp
qed

lemma adm_inv_submit:
  assumes inv: "adm_inv acd s" and p: "adm_phase s p = Admitted"
  shows "adm_inv acd (s\<lparr>adm_backend := (rid, st) # adm_backend s, adm_phase := (adm_phase s)(p := Sent rid)\<rparr>)"
  using inv adm_inv_holder [OF inv, of p] adm_inv_others [OF inv, of p] p
    live_runs_submit [where s = s and rid = rid and st = st and f = "(adm_phase s)(p := Sent rid)"]
  by (auto simp: adm_inv_def recorded_def read_active_run_def)

lemma adm_inv_submit_unanswered:
  assumes inv: "adm_inv acd s" and p: "adm_phase s p = Admitted"
  shows "adm_inv acd (s\<lparr>adm_backend := (rid, st) # adm_backend s, adm_dir := release p (clear_active_run (adm_dir s)),
       adm_phase := (adm_phase s)(p := Idle), adm_abandoned := insert rid (adm_abandoned s)\<rparr>)"
proof -
  let ?s = "s\<lparr>adm_backend := (rid, st) # adm_backend s, adm_phase := (adm_phase s)(p := Sent rid)\<rparr>"
  have inv': "adm_inv acd ?s" by (rule adm_inv_submit [OF inv p])
  have "adm_inv acd (?s\<lparr>adm_dir := release p (clear_active_run (adm_dir ?s)), adm_phase := (adm_phase ?s)(p := Idle),
      adm_abandoned := insert rid (adm_abandoned s)\<rparr>)"
    using inv' adm_inv_holder [OF inv', of p]
    by (intro adm_inv_release) (auto simp: adm_inv_def clear_active_run_def)
  then show ?thesis by simp
qed

lemma adm_inv_resume:
  assumes inv: "adm_inv acd s" and p: "adm_phase s p = Admitted"
  shows "adm_inv acd (s\<lparr>adm_phase := (adm_phase s)(p := Resumed rid)\<rparr>)"
  using inv adm_inv_holder [OF inv, of p] adm_inv_others [OF inv, of p] p
  by (auto simp: adm_inv_def recorded_def read_active_run_def live_runs_def)

lemma adm_inv_mark:
  assumes inv: "adm_inv acd s" and f: "faithful acd" and p: "adm_phase s p = Sent rid" and "ar_run_id r = rid"
  shows "adm_inv acd (s\<lparr>adm_dir := record_active_run acd r (adm_dir s), adm_phase := (adm_phase s)(p := Recorded rid)\<rparr>)"
    (is "adm_inv acd ?t")
proof -
  have hold: "lock_holder (adm_dir s) = Some p" using adm_inv_holder [OF inv] p by simp
  have rec: "recorded acd ?t = {rid}" using assms(4) by (simp add: recorded_record [OF f])
  have "live_runs ?t = live_runs s" by (simp add: live_runs_def)
  then show ?thesis
    using inv hold rec adm_inv_others [OF inv, of p] p by (auto simp: adm_inv_def record_active_run_def)
qed

lemma adm_inv_reconcile:
  assumes inv: "adm_inv acd s" and "try_lock pid p (adm_dir s) = Inr d"
  shows "adm_inv acd (s\<lparr>adm_dir := release p (clear_active_run d),
       adm_abandoned := (case read_active_run acd (adm_dir s) of None \<Rightarrow> adm_abandoned s
                           | Some r \<Rightarrow> insert (ar_run_id r) (adm_abandoned s))\<rparr>)"
proof -
  have free: "lock_holder (adm_dir s) = None" and d: "d = (adm_dir s)\<lparr>lock_holder := Some p\<rparr>"
    using assms(2) by (simp_all add: try_lock_Inr)
  have "live_runs s \<subseteq> adm_abandoned s \<union> recorded acd s" using inv free by (simp add: adm_inv_def)
  then show ?thesis
    using inv free adm_inv_free [OF inv free]
    by (auto simp: d adm_inv_def release_def clear_active_run_def recorded_def read_active_run_def
        live_runs_def split: option.splits)
qed

lemma adm_inv_die:
  assumes inv: "adm_inv acd s"
  shows "adm_inv acd (s\<lparr>adm_dir := release p (adm_dir s), adm_phase := (adm_phase s)(p := Idle),
       adm_abandoned := (case adm_phase s p of Sent rid \<Rightarrow> insert rid (adm_abandoned s) | _ \<Rightarrow> adm_abandoned s)\<rparr>)"
    (is "adm_inv acd ?t")
proof (cases "adm_phase s p = Idle")
  case True
  then have "lock_holder (adm_dir s) \<noteq> Some p" using inv by (auto simp: adm_inv_def)
  then have "?t = s" using True by (simp add: release_def fun_upd_idem)
  then show ?thesis using inv by simp
next
  case False
  then show ?thesis
    using inv adm_inv_holder [OF inv False]
    by (intro adm_inv_release) (auto simp: adm_inv_def recorded_def read_active_run_def split: phase.splits)
qed

lemma adm_inv_step:
  assumes "adm_step acd pid s s'" and f: "faithful acd" and inv: "adm_inv acd s"
  shows "adm_inv acd s'"
  using assms(1)
proof cases
  case (give_up p rid)
  then show ?thesis
    using inv adm_inv_holder [OF inv, of p]
    by (simp add: give_up(1)) (intro adm_inv_release; auto simp: adm_inv_def clear_active_run_def)
next
  case (settle st rid)
  show ?thesis
    using inv live_runs_settle [OF settle(2), where s = s and rid = rid]
    by (auto simp: settle(1) adm_inv_def recorded_def read_active_run_def split: option.splits)
next
  case restart
  then show ?thesis using inv by (auto simp: adm_inv_def recorded_def read_active_run_def live_runs_def)
qed (use inv f in \<open>auto intro!: adm_inv_lock adm_inv_admit adm_inv_refuse adm_inv_submit adm_inv_submit_unanswered
       adm_inv_resume adm_inv_mark adm_inv_reconcile adm_inv_die adm_inv_drop\<close>)

interpretation adm_sys: guarded_system "adm_step acd pid" adm_init "\<lambda>s. faithful acd \<longrightarrow> adm_inv acd s" for acd pid
proof
  show "faithful acd \<longrightarrow> adm_inv acd adm_init" by (simp add: adm_inv_def adm_init_def live_runs_def)
qed (use adm_inv_step in blast)

text \<open>
  C19.  Single flight.  Whatever the interleaving of workers and reconciliations,
  deaths and backend restarts, at most one process is past the lock, and of the
  runs the backend still executes at most one is not abandoned: the rest were
  submitted by a worker that died before recording them or never saw the answer,
  given up on by their worker, or dropped by a reconciliation.
\<close>

theorem single_flight:
  assumes "faithful acd" and "(adm_step acd pid)\<^sup>*\<^sup>* adm_init s"
  shows "(\<forall>p q. adm_phase s p \<noteq> Idle \<and> adm_phase s q \<noteq> Idle \<longrightarrow> p = q) \<and>
    (\<forall>a b. a \<in> live_runs s - adm_abandoned s \<and> b \<in> live_runs s - adm_abandoned s \<longrightarrow> a = b)"
proof -
  have inv: "adm_inv acd s" using adm_sys.inv_reachable [OF assms(2)] assms(1) by blast
  have "p = q" if "adm_phase s p \<noteq> Idle" "adm_phase s q \<noteq> Idle" for p q
    using adm_inv_others [OF inv that(1), of q] that(2) by metis
  moreover have "\<exists>x. live_runs s - adm_abandoned s \<subseteq> {x}"
  proof (cases "lock_holder (adm_dir s)")
    case None
    then show ?thesis using inv by (auto simp: adm_inv_def recorded_def split: option.splits)
  next
    case (Some p)
    then show ?thesis
      using inv by (cases "adm_phase s p") (auto simp: adm_inv_def recorded_def split: option.splits)
  qed
  ultimately show ?thesis by blast
qed

lemma faithful_wire_active: "faithful wire_active"
proof -
  have "trim (active_to_string wire_active r) = active_to_string wire_active r" for r
    by (rule trim_id; simp add: wire_active_def starts_ws_def ends_ws_def ends_with_def unicode_ws_def)
  moreover have "active_to_string wire_active r \<noteq> []" for r by (simp add: wire_active_def)
  moreover have "active_from_str wire_active (active_to_string wire_active r) = Some r" for r
  proof -
    let ?v = "JArray [JString (ar_run_id r), json_of_opt (ar_session_id r), json_of_nat (ar_started_at_unix r)]"
    have "dec (length (enc ?v)) (enc ?v) = Some (?v, [])"
      using dec_enc(1) [of ?v "length (enc ?v)" "[]"] by simp
    then show ?thesis
      by (simp add: wire_active_def json_of_nat_def json_of_opt_def del: enc.simps split: option.splits)
  qed
  ultimately show ?thesis by (simp add: faithful_def)
qed

text \<open>A worker that locked, was admitted, submitted run \<open>r\<close> and recorded it.\<close>

definition demo_worker :: Admission where
  "demo_worker =
     \<lparr>adm_dir = record_active_run wire_active \<lparr>ar_run_id = ''r'', ar_session_id = None, ar_started_at_unix = 7\<rparr>
        \<lparr>lock_holder = Some 0, active_file = None\<rparr>,
      adm_phase = (\<lambda>_. Idle)(0 := Recorded ''r''), adm_backend = [(''r'', ''running'')], adm_abandoned = {}\<rparr>"

lemma demo_worker_reachable: "(adm_step wire_active ''p'')\<^sup>*\<^sup>* adm_init demo_worker"
proof -
  let ?s1 = "adm_init\<lparr>adm_dir := (adm_dir adm_init)\<lparr>lock_holder := Some 0\<rparr>, adm_phase := (adm_phase adm_init)(0 := Holding)\<rparr>"
  let ?s2 = "?s1\<lparr>adm_dir := clear_active_run (adm_dir ?s1), adm_phase := (adm_phase ?s1)(0 := Admitted)\<rparr>"
  let ?s3 = "?s2\<lparr>adm_backend := (''r'', ''running'') # adm_backend ?s2, adm_phase := (adm_phase ?s2)(0 := Sent ''r'')\<rparr>"
  let ?s4 = "?s3\<lparr>adm_dir := record_active_run wire_active
      \<lparr>ar_run_id = ''r'', ar_session_id = None, ar_started_at_unix = 7\<rparr> (adm_dir ?s3), adm_phase := (adm_phase ?s3)(0 := Recorded ''r'')\<rparr>"
  have "adm_step wire_active ''p'' adm_init ?s1"
    by (rule adm_step.lock) (simp_all add: adm_init_def try_lock_Inr)
  moreover have "adm_step wire_active ''p'' ?s1 ?s2"
    by (rule adm_step.admit) (simp_all add: adm_init_def admission_def read_active_run_def)
  moreover have "adm_step wire_active ''p'' ?s2 ?s3"
    by (rule adm_step.submit) (simp_all add: adm_init_def)
  moreover have "adm_step wire_active ''p'' ?s3 ?s4" by (rule adm_step.mark) simp
  ultimately have "(adm_step wire_active ''p'')\<^sup>*\<^sup>* adm_init ?s4" by (meson converse_rtranclp_into_rtranclp rtranclp.rtrancl_refl)
  moreover have "?s4 = demo_worker"
    by (simp add: demo_worker_def adm_init_def clear_active_run_def fun_upd_upd)
  ultimately show ?thesis by simp
qed

theorem single_flight_witness:
  "adm_phase demo_worker 0 = Recorded ''r'' \<and> adm_phase demo_worker 1 = Idle \<and>
   ''r'' \<in> live_runs demo_worker - adm_abandoned demo_worker \<and> ''q'' \<notin> live_runs demo_worker - adm_abandoned demo_worker"
proof -
  have r: "''r'' \<in> live_runs demo_worker - adm_abandoned demo_worker"
    by (simp add: live_runs_def demo_worker_def is_terminal_status_def)
  have p: "adm_phase demo_worker 0 = Recorded ''r''" by (simp add: demo_worker_def)
  note sf = single_flight [OF faithful_wire_active demo_worker_reachable]
  have "adm_phase demo_worker 1 = Idle" using sf p by (metis one_neq_zero phase.distinct(7))
  moreover have "''q'' \<notin> live_runs demo_worker - adm_abandoned demo_worker" using sf r by blast
  ultimately show ?thesis using r p by blast
qed

end
