(* ===== verification/Approvals.thy ===== *)
theory Approvals
  imports Json
begin

text \<open>
  \<open>src/src/approvals.rs\<close>: the persistent approval allowlist of a Hermes
  configuration, read and cleared through the Hermes CLI and rewritten in place to
  revoke one category, and the filter on the choices an approval offers.  The CLI is
  a parameter: a function from arguments and the file system to its output and the
  file system it leaves.
\<close>

section \<open>Files and the CLI\<close>

datatype file_node = File string | Symlink | Special

type_synonym file_system = "string \<Rightarrow> file_node option"

type_synonym hermes_cli = "string list \<Rightarrow> file_system \<Rightarrow> (string, string) result \<times> file_system"

datatype PolicySource = InstallerManaged | ExternalUnmanaged

record ApprovalPolicy =
  ap_project_id :: string
  ap_runtime_ownership :: string
  ap_state :: string
  ap_approvals_mode :: "string option"
  ap_persistent_allowlist :: "string list"
  ap_persistent_allowlist_count :: nat
  ap_restart_required :: bool
  ap_source :: PolicySource
  ap_unavailable_reason :: "string option"

datatype approvals_error =
    CliFailed string
  | NoCategory string
  | IsSymlink string
  | NotRegular string
  | CannotInspect string
  | NoBlock string

definition config_path :: "hermes_cli \<Rightarrow> file_system \<Rightarrow> (string, string) result \<times> file_system" where
  "config_path cli fs =
     (case cli [''config'', ''path''] fs of
        (Inl e, fs1) \<Rightarrow> (Inl e, fs1)
      | (Inr out, fs1) \<Rightarrow> (Inr (trim out), fs1))"

section \<open>Reading the allowlist\<close>

function plain :: "string \<Rightarrow> string" where
  "plain [] = []"
| "plain (c # cs) =
     (if c = CHR 0x1B then plain (drop 1 (dropWhile (\<lambda>x. \<not> is_ascii_alphabetic x) cs))
      else c # plain cs)"
  by pat_completeness auto
termination
proof (relation "measure length")
  fix c :: char and cs :: string
  have "length (dropWhile (\<lambda>x. \<not> is_ascii_alphabetic x) cs) \<le> length cs" by (rule length_dropWhile_le)
  then show "(drop 1 (dropWhile (\<lambda>x. \<not> is_ascii_alphabetic x) cs), c # cs) \<in> measure length" by simp
qed simp_all

text \<open>\<open>trim_matches\<close> with the double quote.\<close>

definition trim_quotes :: "string \<Rightarrow> string" where
  "trim_quotes s = rev (dropWhile (\<lambda>c. c = CHR 0x22) (rev (dropWhile (\<lambda>c. c = CHR 0x22) s)))"

definition list_entry :: "string \<Rightarrow> string option" where
  "list_entry line = map_option (\<lambda>entry. trim_quotes (trim entry)) (strip_prefix ''- '' (trim line))"

definition parse_allowlist :: "string \<Rightarrow> string list" where
  "parse_allowlist output =
     filter (\<lambda>entry. entry \<noteq> []) (List.map_filter list_entry (str_lines (plain output)))"

definition unavailable_note :: string where
  "unavailable_note = ''this runtime was not provisioned by this Node's installer, so its configuration location is unknown and will not be guessed''"

definition show_policy :: "hermes_cli option \<Rightarrow> string \<Rightarrow> string \<Rightarrow> file_system \<Rightarrow> ApprovalPolicy \<times> file_system" where
  "show_policy cli_opt project ownership fs =
     (case cli_opt of
        None \<Rightarrow>
          (\<lparr>ap_project_id = project, ap_runtime_ownership = ownership, ap_state = ''unavailable'',
            ap_approvals_mode = None, ap_persistent_allowlist = [], ap_persistent_allowlist_count = 0,
            ap_restart_required = False, ap_source = ExternalUnmanaged,
            ap_unavailable_reason = Some unavailable_note\<rparr>, fs)
      | Some cli \<Rightarrow>
          let (mode_out, fs1) = cli [''config'', ''get'', ''approvals.mode''] fs;
              mode = map_option (\<lambda>t. trim (plain t)) (ok mode_out);
              (list_out, fs2) = cli [''config'', ''get'', ''command_allowlist''] fs1;
              allowlist = (case list_out of Inr t \<Rightarrow> parse_allowlist t | Inl _ \<Rightarrow> [])
          in (\<lparr>ap_project_id = project, ap_runtime_ownership = ownership,
               ap_state = (if mode \<noteq> None then ''available'' else ''unavailable''),
               ap_approvals_mode = mode, ap_persistent_allowlist = allowlist,
               ap_persistent_allowlist_count = length allowlist, ap_restart_required = False,
               ap_source = InstallerManaged, ap_unavailable_reason = None\<rparr>, fs2))"

section \<open>Clearing and revoking\<close>

definition clear_allowlist :: "hermes_cli \<Rightarrow> file_system \<Rightarrow> (approvals_error, nat) result \<times> file_system" where
  "clear_allowlist cli fs =
     (case cli [''config'', ''get'', ''command_allowlist''] fs of
        (Inl e, fs1) \<Rightarrow> (Inl (CliFailed e), fs1)
      | (Inr out, fs1) \<Rightarrow>
          (let before = parse_allowlist out in
           if before = [] then (Inr 0, fs1)
           else (case cli [''config'', ''unset'', ''command_allowlist''] fs1 of
               (Inl e, fs2) \<Rightarrow> (Inl (CliFailed e), fs2)
             | (Inr _, fs2) \<Rightarrow> (Inr (length before), fs2))))"

definition opens_block :: "string \<Rightarrow> bool" where
  "opens_block line = starts_with ''command_allowlist:'' (trim_start line)"

definition is_item :: "string \<Rightarrow> bool" where
  "is_item line = starts_with ''- '' (trim_start line)"

definition copy_lines :: "string list \<Rightarrow> string" where
  "copy_lines ls = concat (map (\<lambda>l. l @ [CHR 0x0A]) ls)"

definition item_line :: "string \<Rightarrow> string" where
  "item_line entry = ''- '' @ entry"

text \<open>The loop of \<open>rewrite_allowlist\<close>: the text it has pushed and whether it replaced the block.\<close>

fun rewrite_lines :: "string list \<Rightarrow> string list \<Rightarrow> string \<times> bool" where
  "rewrite_lines entries [] = ([], False)"
| "rewrite_lines entries (line # ls) =
     (if opens_block line then
        (''command_allowlist:'' @ [CHR 0x0A] @ copy_lines (map item_line entries) @
           copy_lines (dropWhile is_item ls), True)
      else (case rewrite_lines entries ls of (out, replaced) \<Rightarrow> (line @ [CHR 0x0A] @ out, replaced)))"

definition rewrite_allowlist :: "string \<Rightarrow> string list \<Rightarrow> file_system \<Rightarrow> (approvals_error, unit) result \<times> file_system" where
  "rewrite_allowlist path entries fs =
     (case fs path of
        None \<Rightarrow> (Inl (CannotInspect path), fs)
      | Some Symlink \<Rightarrow> (Inl (IsSymlink path), fs)
      | Some Special \<Rightarrow> (Inl (NotRegular path), fs)
      | Some (File original) \<Rightarrow>
          (case rewrite_lines entries (str_lines original) of
             (out, False) \<Rightarrow> (Inl (NoBlock path), fs)
           | (out, True) \<Rightarrow> (Inr (), fs(path \<mapsto> File out))))"

definition revoke :: "hermes_cli \<Rightarrow> string \<Rightarrow> file_system \<Rightarrow> (approvals_error, string list) result \<times> file_system" where
  "revoke cli category fs =
     (case config_path cli fs of
        (Inl e, fs1) \<Rightarrow> (Inl (CliFailed e), fs1)
      | (Inr path, fs1) \<Rightarrow>
          (case cli [''config'', ''get'', ''command_allowlist''] fs1 of
             (Inl e, fs2) \<Rightarrow> (Inl (CliFailed e), fs2)
           | (Inr out, fs2) \<Rightarrow>
               (let before = parse_allowlist out in
                if category \<notin> set before then (Inl (NoCategory category), fs2)
                else let after = filter (\<lambda>e. e \<noteq> category) before in
                  if after = [] then
                    (case cli [''config'', ''unset'', ''command_allowlist''] fs2 of
                       (Inl e, fs3) \<Rightarrow> (Inl (CliFailed e), fs3)
                     | (Inr _, fs3) \<Rightarrow> (Inr after, fs3))
                  else (case rewrite_allowlist path after fs2 of
                       (Inl e, fs3) \<Rightarrow> (Inl e, fs3)
                     | (Inr _, fs3) \<Rightarrow> (Inr after, fs3)))))"

section \<open>The choices of an approval\<close>

definition supported_choices :: "json option \<Rightarrow> json option" where
  "supported_choices raw =
     Option.bind (Option.bind raw as_array)
       (\<lambda>choices. Some (JArray (filter (\<lambda>c. as_str c \<noteq> Some ''always'') choices)))"

section \<open>What a configuration file says\<close>

text \<open>
  The meaning of the file: the entries of its first allowlist block, and the lines
  that are not part of that block.
\<close>

fun block_items :: "string list \<Rightarrow> string list" where
  "block_items [] = []"
| "block_items (line # ls) = (if opens_block line then takeWhile is_item ls else block_items ls)"

fun other_lines :: "string list \<Rightarrow> string list" where
  "other_lines [] = []"
| "other_lines (line # ls) = (if opens_block line then dropWhile is_item ls else line # other_lines ls)"

definition allowlist_of :: "string \<Rightarrow> string list" where
  "allowlist_of original =
     filter (\<lambda>entry. entry \<noteq> []) (List.map_filter list_entry (block_items (str_lines original)))"

text \<open>A category that is written without quotes reads back as itself.\<close>

definition plain_entry :: "string \<Rightarrow> bool" where
  "plain_entry e \<longleftrightarrow> e \<noteq> [] \<and> trim e = e \<and> trim_quotes e = e \<and> CHR 0x0A \<notin> set e \<and> CHR 0x0D \<notin> set e"

lemma plain_entry_no_ws: "plain_entry e \<Longrightarrow> \<not> starts_ws e \<and> \<not> ends_ws e"
  by (metis plain_entry_def trim_def trim_end_clean trim_starts_clean)

lemma strip_prefix_dash: "strip_prefix ''- '' (''- '' @ e) = Some e"
  by simp

lemma item_not_ws: "\<not> starts_ws (CHR ''-'' # e)"
  by (simp add: starts_ws_def unicode_ws_def starts_with_def)

lemma ws_head: "p \<in> set unicode_ws \<Longrightarrow> p = '' '' \<or> hd p \<noteq> CHR '' '' \<and> hd p \<noteq> CHR ''-''"
  unfolding unicode_ws_def by (simp only: list.set insert_iff empty_iff) (elim disjE FalseE; simp)

lemma ends_ws_item:
  assumes "e \<noteq> []" and "ends_ws (''- '' @ e)"
  shows "ends_ws e"
proof -
  obtain p r where p: "p \<in> set unicode_ws" and r: "''- '' @ e = r @ p"
    using assms(2) by (auto simp: ends_ws_def ends_with_iff)
  from r consider t where "''- '' @ t = r" "e = t @ p" | t where "''- '' = r @ t" "p = t @ e"
    using append_eq_append_conv2 [of "''- ''" e r p] by metis
  then show ?thesis
  proof cases
    case 1
    then show ?thesis using p by (auto simp: ends_ws_def ends_with_iff)
  next
    case (2 t)
    then have "t = [] \<or> t = '' '' \<or> t = ''- ''" by (cases r) (auto simp: Cons_eq_append_conv)
    then show ?thesis
    proof (elim disjE)
      assume "t = []"
      then show ?thesis using 2 p by (auto simp: ends_ws_def ends_with_iff)
    qed (use 2(2) ws_head [OF p] assms(1) in auto)
  qed
qed

lemma list_entry_item:
  assumes "plain_entry e"
  shows "list_entry (item_line e) = Some e"
proof -
  have "trim (''- '' @ e) = ''- '' @ e"
    using assms ends_ws_item [of e] plain_entry_no_ws [OF assms] item_not_ws
    by (intro trim_id) (auto simp: plain_entry_def)
  then show ?thesis using assms by (simp add: list_entry_def plain_entry_def item_line_def)
qed

lemma is_item_item: "is_item (item_line e)"
  by (simp add: is_item_def item_line_def trim_start_id item_not_ws)

lemma trim_start_key: "trim_start ''command_allowlist:'' = ''command_allowlist:''"
  by (rule trim_start_id) (simp add: starts_ws_def unicode_ws_def)

lemma opens_block_key: "opens_block ''command_allowlist:''"
  by (simp add: opens_block_def trim_start_key)

text \<open>The lines of a text that is written line by line.\<close>

lemma str_lines_copy: "\<forall>l \<in> set ls. line_ok l \<Longrightarrow> str_lines (copy_lines ls) = ls"
proof (induction ls)
  case (Cons l ls)
  then show ?case
    using str_lines_line [of l "copy_lines ls"] by (simp add: copy_lines_def line_ok_def strip_cr_id)
qed (simp add: copy_lines_def)

text \<open>The lines after the rewriting.\<close>

fun new_lines :: "string list \<Rightarrow> string list \<Rightarrow> string list" where
  "new_lines entries [] = []"
| "new_lines entries (line # ls) =
     (if opens_block line then ''command_allowlist:'' # map item_line entries @ dropWhile is_item ls
      else line # new_lines entries ls)"

lemma rewrite_lines_eq:
  "rewrite_lines entries ls = (copy_lines (new_lines entries ls), \<exists>l \<in> set ls. opens_block l)"
  by (induction ls) (auto simp: copy_lines_def)

lemma line_ok_key: "line_ok ''command_allowlist:''"
  by (simp add: line_ok_def)

lemma line_ok_item: "plain_entry e \<Longrightarrow> line_ok (item_line e)"
  by (simp add: line_ok_def plain_entry_def item_line_def)

lemma new_lines_ok:
  assumes "\<forall>l \<in> set ls. line_ok l" and "\<forall>e \<in> set entries. plain_entry e"
  shows "\<forall>l \<in> set (new_lines entries ls). line_ok l"
  using assms(1)
proof (induction ls)
  case (Cons l ls)
  then show ?case
    using assms(2) line_ok_key line_ok_item set_dropWhileD [of _ is_item ls]
    by (simp only: new_lines.simps) auto
qed simp

lemma takeWhile_items:
  "takeWhile is_item (map item_line entries @ dropWhile is_item ls) = map item_line entries"
proof -
  have "takeWhile is_item (dropWhile is_item ls) = []" by (induction ls) auto
  moreover have "\<forall>l \<in> set (map item_line entries). is_item l" using is_item_item by auto
  ultimately show ?thesis by (metis append_Nil2 takeWhile_append2)
qed

lemma block_items_new_lines:
  "\<exists>l \<in> set ls. opens_block l \<Longrightarrow> block_items (new_lines entries ls) = map item_line entries"
proof (induction ls)
  case (Cons l ls)
  then show ?case using takeWhile_items opens_block_key by auto
qed simp

lemma dropWhile_items:
  "dropWhile is_item (map item_line entries @ dropWhile is_item ls) = dropWhile is_item ls"
proof -
  have "dropWhile is_item (dropWhile is_item ls) = dropWhile is_item ls" by (induction ls) auto
  moreover have "\<forall>l \<in> set (map item_line entries). is_item l" using is_item_item by auto
  ultimately show ?thesis by (metis dropWhile_append2)
qed

lemma other_lines_new_lines: "other_lines (new_lines entries ls) = other_lines ls"
proof (induction ls)
  case (Cons l ls)
  then show ?case using dropWhile_items opens_block_key by auto
qed simp

lemma entries_read_back:
  "\<forall>e \<in> set entries. plain_entry e \<Longrightarrow>
     filter (\<lambda>x. x \<noteq> []) (List.map_filter list_entry (map item_line entries)) = entries"
proof (induction entries)
  case (Cons e entries)
  then have "list_entry (item_line e) = Some e" "e \<noteq> []" using list_entry_item plain_entry_def by auto
  then show ?case using Cons by (simp add: map_filter_simps)
qed (simp add: map_filter_simps)

lemma block_exists: "block_items ls \<noteq> [] \<Longrightarrow> \<exists>l \<in> set ls. opens_block l"
  by (induction ls) (auto split: if_splits)

lemma allowlist_block: "x \<in> set (allowlist_of original) \<Longrightarrow> \<exists>l \<in> set (str_lines original). opens_block l"
  by (rule block_exists) (auto simp: allowlist_of_def map_filter_simps)

text \<open>Rewriting a file of plain lines replaces its allowlist and nothing else.\<close>

lemma rewrite_allowlist_replaces:
  assumes "fs path = Some (File original)" and "CHR 0x0D \<notin> set original"
    and "\<exists>l \<in> set (str_lines original). opens_block l" and "\<forall>e \<in> set entries. plain_entry e"
  shows "\<exists>out. rewrite_allowlist path entries fs = (Inr (), fs(path \<mapsto> File out)) \<and>
    allowlist_of out = entries \<and> other_lines (str_lines out) = other_lines (str_lines original)"
proof (intro exI conjI)
  let ?out = "copy_lines (new_lines entries (str_lines original))"
  have lines: "str_lines ?out = new_lines entries (str_lines original)"
    using new_lines_ok [OF str_lines_ok [OF assms(2)] assms(4)] by (rule str_lines_copy)
  show "rewrite_allowlist path entries fs = (Inr (), fs(path \<mapsto> File ?out))"
    using assms(3) by (auto simp: rewrite_allowlist_def assms(1) rewrite_lines_eq)
  show "allowlist_of ?out = entries"
    using assms(3,4) by (simp add: allowlist_of_def lines block_items_new_lines entries_read_back)
  show "other_lines (str_lines ?out) = other_lines (str_lines original)"
    by (simp add: lines other_lines_new_lines)
qed

text \<open>
  C20.  Revoking one category.  On a configuration whose lines and allowlist entries
  need no quoting, \<open>revoke\<close> of a category that is listed, when others remain, leaves
  a file that lists exactly the other categories, in order, and whose lines outside
  the allowlist are the ones it had; no other file changes.  A category that is not
  listed is refused and nothing is written.
\<close>

theorem revoke_removes_one_category:
  assumes "config_path cli fs = (Inr path, fs)"
    and "cli [''config'', ''get'', ''command_allowlist''] fs = (Inr listing, fs)"
    and "fs path = Some (File original)" and "parse_allowlist listing = allowlist_of original"
    and "CHR 0x0D \<notin> set original" and "\<forall>e \<in> set (allowlist_of original). plain_entry e"
  shows "(category \<notin> set (allowlist_of original) \<longrightarrow> revoke cli category fs = (Inl (NoCategory category), fs)) \<and>
    (category \<in> set (allowlist_of original) \<and> (\<exists>e \<in> set (allowlist_of original). e \<noteq> category) \<longrightarrow>
       (\<exists>out. revoke cli category fs = (Inr (allowlist_of out), fs(path \<mapsto> File out)) \<and>
          allowlist_of out = filter (\<lambda>e. e \<noteq> category) (allowlist_of original) \<and>
          other_lines (str_lines out) = other_lines (str_lines original)))"
proof (intro conjI impI; (elim conjE)?)
  assume "category \<notin> set (allowlist_of original)"
  then show "revoke cli category fs = (Inl (NoCategory category), fs)"
    by (simp add: revoke_def assms(1,2,4))
next
  let ?after = "filter (\<lambda>e. e \<noteq> category) (allowlist_of original)"
  assume listed: "category \<in> set (allowlist_of original)" and more: "\<exists>e \<in> set (allowlist_of original). e \<noteq> category"
  have "\<forall>e \<in> set ?after. plain_entry e" using assms(6) by simp
  then obtain out where out: "rewrite_allowlist path ?after fs = (Inr (), fs(path \<mapsto> File out))"
      "allowlist_of out = ?after" "other_lines (str_lines out) = other_lines (str_lines original)"
    using rewrite_allowlist_replaces [of fs path original, OF assms(3,5) allowlist_block [OF listed]] by blast
  have "?after \<noteq> []" using more by (auto simp: filter_empty_conv)
  then have "revoke cli category fs = (Inr ?after, fs(path \<mapsto> File out))"
    using listed out(1) by (simp add: revoke_def assms(1,2,4) Let_def)
  then show "\<exists>out. revoke cli category fs = (Inr (allowlist_of out), fs(path \<mapsto> File out)) \<and>
      allowlist_of out = ?after \<and> other_lines (str_lines out) = other_lines (str_lines original)"
    using out by metis
qed

text \<open>A CLI that prints the block of the one file it knows, and that file.\<close>

definition demo_cli :: hermes_cli where
  "demo_cli args fs =
     (if args = [''config'', ''path''] then (Inr ''c'', fs)
      else (case fs ''c'' of
          Some (File t) \<Rightarrow> (Inr (copy_lines (map item_line (allowlist_of t))), fs)
        | _ \<Rightarrow> (Inl ''missing'', fs)))"

definition demo_config :: string where
  "demo_config = copy_lines [''m: k'', ''command_allowlist:'', ''- rm'', ''- ls'', ''z: 1'']"

lemma demo_allowlist: "allowlist_of demo_config = [''rm'', ''ls'']"
  by code_simp

lemma demo_listing: "parse_allowlist (copy_lines (map item_line [''rm'', ''ls''])) = [''rm'', ''ls'']"
  by code_simp

lemma demo_plain: "plain_entry ''rm'' \<and> plain_entry ''ls''"
  by code_simp

definition demo_fs :: file_system where
  "demo_fs = [''c'' \<mapsto> File demo_config]"

theorem revoke_removes_one_category_witness:
  "\<exists>out. revoke demo_cli ''rm'' demo_fs = (Inr [''ls''], demo_fs(''c'' \<mapsto> File out)) \<and>
     allowlist_of out = [''ls''] \<and> other_lines (str_lines out) = [''m: k'', ''z: 1'']"
proof -
  have path: "config_path demo_cli demo_fs = (Inr ''c'', demo_fs)"
    by (simp add: config_path_def demo_cli_def trim_id starts_ws_def ends_ws_def unicode_ws_def ends_with_def)
  have node: "demo_fs ''c'' = Some (File demo_config)" by (simp add: demo_fs_def)
  then have listing: "demo_cli [''config'', ''get'', ''command_allowlist''] demo_fs =
      (Inr (copy_lines (map item_line [''rm'', ''ls''])), demo_fs)"
    by (simp add: demo_cli_def demo_allowlist)
  have parsed: "parse_allowlist (copy_lines (map item_line [''rm'', ''ls''])) = allowlist_of demo_config"
    unfolding demo_allowlist by (rule demo_listing)
  have cr: "CHR 0x0D \<notin> set demo_config" by code_simp
  have others: "other_lines (str_lines demo_config) = [''m: k'', ''z: 1'']" by code_simp
  have "\<forall>e \<in> set (allowlist_of demo_config). plain_entry e" using demo_plain by (simp add: demo_allowlist)
  from revoke_removes_one_category [OF path listing node parsed cr this, of "''rm''"]
  show ?thesis by (auto simp: demo_allowlist others)
qed

end
