(* ===== verification/Hermes.thy ===== *)
theory Hermes
  imports Sse Json Chat_History
begin

text \<open>
  \<open>src/src/hermes.rs\<close>: the client of the Hermes API.  What the server answers is an
  argument: a response with its status and body, or the text of a transport error.
  The bodies of JSON answers are decoded with the codec, and the body of an event
  stream arrives as a sequence of byte chunks.
\<close>

section \<open>The client\<close>

record HermesClient =
  hc_base_url :: string
  hc_api_key :: string

datatype hermes_error =
    NotLoopback
  | ShortApiKey
  | Transport string
  | HttpStatus string string
  | InvalidJson

definition trim_end_slashes :: "string \<Rightarrow> string" where
  "trim_end_slashes s = rev (dropWhile (\<lambda>c. c = CHR 0x2F) (rev s))"

definition hermes_new :: "string \<Rightarrow> string \<Rightarrow> (hermes_error, HermesClient) result" where
  "hermes_new base key =
     (let base_url = trim_end_slashes base in
      if \<not> starts_with ''http://127.0.0.1:'' base_url \<and> \<not> starts_with ''http://localhost:'' base_url
      then Inl NotLoopback
      else if length key < 16 then Inl ShortApiKey
      else Inr \<lparr>hc_base_url = base_url, hc_api_key = key\<rparr>)"

text \<open>A response carries its status code, the text of the status line and its body.\<close>

datatype http_answer = Unreachable | Answered nat string string

definition is_success :: "nat \<Rightarrow> bool" where
  "is_success code \<longleftrightarrow> 200 \<le> code \<and> code < 300"

definition char_starts :: "string \<Rightarrow> nat list" where
  "char_starts s = filter (\<lambda>i. is_char_boundary s i) [0..<length s]"

definition take_chars :: "nat \<Rightarrow> string \<Rightarrow> string" where
  "take_chars n s = (if n < length (char_starts s) then take (char_starts s ! n) s else s)"

definition http_error :: "string \<Rightarrow> string \<Rightarrow> hermes_error" where
  "http_error status_line body =
     HttpStatus status_line
       (if length (char_starts body) > 2048 then take_chars 2048 body @ ''...'' else body)"

definition hermes_json :: "codec \<Rightarrow> string \<Rightarrow> http_answer \<Rightarrow> (hermes_error, json) result" where
  "hermes_json cdc what answer =
     (case answer of
        Unreachable \<Rightarrow> Inl (Transport what)
      | Answered code line body \<Rightarrow>
          if \<not> is_success code then Inl (http_error line body)
          else (case from_str cdc body of Some v \<Rightarrow> Inr v | None \<Rightarrow> Inl InvalidJson))"

definition try_run_status :: "codec \<Rightarrow> http_answer \<Rightarrow> (hermes_error, json option) result" where
  "try_run_status cdc answer =
     (case answer of
        Unreachable \<Rightarrow> Inl (Transport ''failed to read Hermes run status'')
      | Answered code line body \<Rightarrow>
          if code = 404 then Inr None
          else if \<not> is_success code then Inl (http_error line body)
          else (case from_str cdc body of Some v \<Rightarrow> Inr (Some v) | None \<Rightarrow> Inl InvalidJson))"

section \<open>Starting a run\<close>

record StartRunRequest =
  sr_input :: json
  sr_session_id :: "string option"
  sr_instructions :: "string option"
  sr_conversation_history :: "HistoryMessage list"

definition history_json :: "HistoryMessage \<Rightarrow> json" where
  "history_json m = json_object [(''role'', JString (hm_role m)), (''content'', JString (hm_content m))]"

text \<open>The derived serialization: absent fields and an empty history are skipped.\<close>

definition start_body :: "StartRunRequest \<Rightarrow> json" where
  "start_body r = json_object
     ([(''input'', sr_input r)] @
      (case sr_session_id r of Some s \<Rightarrow> [(''session_id'', JString s)] | None \<Rightarrow> []) @
      (case sr_instructions r of Some s \<Rightarrow> [(''instructions'', JString s)] | None \<Rightarrow> []) @
      (if sr_conversation_history r = [] then []
       else [(''conversation_history'', JArray (map history_json (sr_conversation_history r)))]))"

record StartRunResponse =
  sp_run_id :: string
  sp_status :: string

definition start_run :: "codec \<Rightarrow> http_answer \<Rightarrow> (hermes_error, StartRunResponse) result" where
  "start_run cdc answer =
     rbind (hermes_json cdc ''failed to start Hermes run'' answer) (\<lambda>v.
       case (Option.bind (json_get ''run_id'' v) as_str, Option.bind (json_get ''status'' v) as_str) of
         (Some rid, Some st) \<Rightarrow> Inr \<lparr>sp_run_id = rid, sp_status = st\<rparr>
       | _ \<Rightarrow> Inl InvalidJson)"

definition resolve_body :: "string \<Rightarrow> bool \<Rightarrow> json" where
  "resolve_body choice all = json_object [(''choice'', JString choice), (''resolve_all'', JBool all)]"

definition resolve_approval :: "codec \<Rightarrow> http_answer \<Rightarrow> (hermes_error, json) result" where
  "resolve_approval cdc answer = hermes_json cdc ''failed to resolve Hermes approval'' answer"

definition stop_run :: "codec \<Rightarrow> http_answer \<Rightarrow> (hermes_error, json) result" where
  "stop_run cdc answer = hermes_json cdc ''failed to stop Hermes run'' answer"

definition is_retryable_status :: "nat \<Rightarrow> bool" where
  "is_retryable_status code \<longleftrightarrow> code = 429 \<or> (500 \<le> code \<and> code < 600)"

section \<open>Lossy decoding\<close>

text \<open>
  \<open>String::from_utf8_lossy\<close>: well-formed sequences are kept, and each maximal prefix
  of a sequence that is not completed becomes U+FFFD.
\<close>

definition byte_in :: "nat \<Rightarrow> nat \<Rightarrow> char \<Rightarrow> bool" where
  "byte_in lo hi c \<longleftrightarrow> lo \<le> of_char c \<and> of_char c \<le> hi"

definition replacement :: string where
  "replacement = [CHR 0xEF, CHR 0xBF, CHR 0xBD]"

definition cont_byte :: "char \<Rightarrow> bool" where
  "cont_byte = byte_in 0x80 0xBF"

definition second_byte :: "char \<Rightarrow> char \<Rightarrow> bool" where
  "second_byte b c =
     (if b = CHR 0xE0 then byte_in 0xA0 0xBF c
      else if b = CHR 0xED then byte_in 0x80 0x9F c
      else if b = CHR 0xF0 then byte_in 0x90 0xBF c
      else if b = CHR 0xF4 then byte_in 0x80 0x8F c
      else cont_byte c)"

fun conts :: "nat \<Rightarrow> string \<Rightarrow> string option \<times> string" where
  "conts 0 s = (Some [], s)"
| "conts (Suc n) [] = (None, [])"
| "conts (Suc n) (c # s) =
     (if cont_byte c then (case conts n s of (Some t, r) \<Rightarrow> (Some (c # t), r) | (None, r) \<Rightarrow> (None, r))
      else (None, c # s))"

definition utf8_tail :: "char \<Rightarrow> nat \<Rightarrow> string \<Rightarrow> string \<times> string" where
  "utf8_tail b n s =
     (case s of
        [] \<Rightarrow> (replacement, [])
      | c # s' \<Rightarrow>
          if second_byte b c
          then (case conts n s' of (Some t, r) \<Rightarrow> (b # c # t, r) | (None, r) \<Rightarrow> (replacement, r))
          else (replacement, c # s'))"

definition utf8_step :: "char \<Rightarrow> string \<Rightarrow> string \<times> string" where
  "utf8_step b s =
     (if byte_in 0 0x7F b then ([b], s)
      else if byte_in 0xC2 0xDF b then utf8_tail b 0 s
      else if byte_in 0xE0 0xEF b then utf8_tail b 1 s
      else if byte_in 0xF0 0xF4 b then utf8_tail b 2 s
      else (replacement, s))"

lemma conts_length: "conts n s = (x, r) \<Longrightarrow> length r \<le> length s"
proof (induction n s arbitrary: x r rule: conts.induct)
  case (3 n c s)
  then show ?case by (cases "conts n s") (force split: if_splits option.splits)
qed auto

lemma utf8_tail_length: "length (snd (utf8_tail b n s)) \<le> length s"
  by (auto simp: utf8_tail_def split: list.splits prod.splits option.splits dest: conts_length)

lemma utf8_step_length: "length (snd (utf8_step b s)) \<le> length s"
  using utf8_tail_length by (simp add: utf8_step_def)

function from_utf8_lossy :: "string \<Rightarrow> string" where
  "from_utf8_lossy [] = []"
| "from_utf8_lossy (b # s) = (case utf8_step b s of (out, rest) \<Rightarrow> out @ from_utf8_lossy rest)"
  by pat_completeness auto
termination
proof (relation "measure length")
  fix b :: char and s out rest
  assume "(out, rest) = utf8_step b s"
  then show "(rest, b # s) \<in> measure length" using utf8_step_length [of b s] by (metis in_measure le_imp_less_Suc length_Cons snd_conv)
qed simp

section \<open>Event streams\<close>

text \<open>
  The answer to the subscription: refused, or a body of byte chunks that ends or
  breaks off.
\<close>

datatype stream_answer = StreamRefused http_answer | Streaming "string list" bool

text \<open>\<open>on_event(event)?\<close> over the events of one chunk.\<close>

fun deliver :: "(SseEvent \<Rightarrow> 's \<Rightarrow> ('e, unit) result \<times> 's) \<Rightarrow> SseEvent list \<Rightarrow> 's \<Rightarrow> ('e, unit) result \<times> 's" where
  "deliver on_event [] s = (Inr (), s)"
| "deliver on_event (e # es) s =
     (case on_event e s of
        (Inl err, s') \<Rightarrow> (Inl err, s')
      | (Inr _, s') \<Rightarrow> deliver on_event es s')"

fun stream_chunks ::
  "(hermes_error \<Rightarrow> 'e) \<Rightarrow> (SseEvent \<Rightarrow> 's \<Rightarrow> ('e, unit) result \<times> 's) \<Rightarrow> SseParser \<Rightarrow> string list \<Rightarrow> bool \<Rightarrow> 's
     \<Rightarrow> ('e, unit) result \<times> 's" where
  "stream_chunks wrap on_event parser [] broken s =
     (if broken then (Inl (wrap (Transport ''failed while reading Hermes SSE stream'')), s)
      else case finish parser of
          Some e \<Rightarrow> on_event e s
        | None \<Rightarrow> (Inr (), s))"
| "stream_chunks wrap on_event parser (chunk # chunks) broken s =
     (let (parser', es) = push parser (from_utf8_lossy chunk) in
      case deliver on_event es s of
        (Inl err, s') \<Rightarrow> (Inl err, s')
      | (Inr _, s') \<Rightarrow> stream_chunks wrap on_event parser' chunks broken s')"

definition stream_events ::
  "(hermes_error \<Rightarrow> 'e) \<Rightarrow> (SseEvent \<Rightarrow> 's \<Rightarrow> ('e, unit) result \<times> 's) \<Rightarrow> stream_answer \<Rightarrow> 's
     \<Rightarrow> ('e, unit) result \<times> 's" where
  "stream_events wrap on_event answer s =
     (case answer of
        StreamRefused Unreachable \<Rightarrow> (Inl (wrap (Transport ''failed to subscribe to Hermes run events'')), s)
      | StreamRefused (Answered code line body) \<Rightarrow> (Inl (wrap (http_error line body)), s)
      | Streaming chunks broken \<Rightarrow> stream_chunks wrap on_event sse_default chunks broken s)"

section \<open>Streams and chunks\<close>

definition closing_events :: "SseParser \<Rightarrow> SseEvent list" where
  "closing_events parser = (case finish parser of Some e \<Rightarrow> [e] | None \<Rightarrow> [])"

text \<open>The events of a whole body that ended properly.\<close>

definition body_events :: "string \<Rightarrow> SseEvent list" where
  "body_events body = (case push sse_default body of (parser, es) \<Rightarrow> es @ closing_events parser)"

lemma deliver_append:
  "deliver f (xs @ ys) s = (case deliver f xs s of (Inl e, s') \<Rightarrow> (Inl e, s') | (Inr _, s') \<Rightarrow> deliver f ys s')"
  by (induction xs arbitrary: s) (auto split: prod.splits sum.splits)

lemma deliver_closing:
  "deliver f (closing_events parser) s = (case finish parser of Some e \<Rightarrow> f e s | None \<Rightarrow> (Inr (), s))"
  by (auto simp: closing_events_def split: option.splits prod.splits sum.splits)

lemma stream_chunks_push_all:
  assumes "\<forall>c \<in> set chunks. from_utf8_lossy c = c"
  shows "stream_chunks wrap f parser chunks False s =
    (case push_all parser chunks of (parser', es) \<Rightarrow> deliver f (es @ closing_events parser') s)"
  using assms
proof (induction chunks arbitrary: parser s)
  case Nil
  then show ?case by (simp add: deliver_closing)
next
  case (Cons c cs)
  then show ?case
    by (auto simp: deliver_append Let_def split: prod.splits sum.splits)
qed

lemma stream_chunks_broken:
  assumes "\<forall>c \<in> set chunks. from_utf8_lossy c = c"
  shows "stream_chunks wrap f parser chunks True s =
    (case deliver f (snd (push_all parser chunks)) s of
       (Inl e, s') \<Rightarrow> (Inl e, s')
     | (Inr _, s') \<Rightarrow> (Inl (wrap (Transport ''failed while reading Hermes SSE stream'')), s'))"
  using assms
proof (induction chunks arbitrary: parser s)
  case (Cons c cs)
  then show ?case by (auto simp: deliver_append Let_def split: prod.splits sum.splits)
qed simp

text \<open>A consumer that only collects, and a body whose only character above U+007F is cut in two.\<close>

definition collect :: "SseEvent \<Rightarrow> SseEvent list \<Rightarrow> (hermes_error, unit) result \<times> SseEvent list" where
  "collect e es = (Inr (), es @ [e])"

definition cut_character :: "string list" where
  "cut_character = [''data: '' @ [CHR 0xC3], [CHR 0xA9, CHR 0x0A, CHR 0x0A]]"

text \<open>
  C21.  A consumer of an event stream sees the events of the whole body, in order, up
  to the first one it rejects, wherever the transport cut the body, as long as every
  chunk is UTF-8 by itself; when the stream breaks off it sees the complete events of
  what arrived and then an error.  The condition is needed: each chunk is decoded on
  its own, so a character cut in two reaches the consumer as replacement characters.
\<close>

theorem stream_events_are_the_body:
  assumes "\<forall>c \<in> set chunks. from_utf8_lossy c = c"
  shows "stream_events wrap on_event (Streaming chunks False) s = deliver on_event (body_events (concat chunks)) s \<and>
    stream_events wrap on_event (Streaming chunks True) s =
      (case deliver on_event (snd (push sse_default (concat chunks))) s of
         (Inl e, s') \<Rightarrow> (Inl e, s')
       | (Inr _, s') \<Rightarrow> (Inl (wrap (Transport ''failed while reading Hermes SSE stream'')), s')) \<and>
    stream_events id collect (Streaming cut_character False) [] \<noteq>
      stream_events id collect (Streaming [concat cut_character] False) []"
proof (intro conjI)
  have all: "push_all sse_default chunks = push sse_default (concat chunks)"
    by (rule push_all_concat) (simp add: sse_default_def)
  show "stream_events wrap on_event (Streaming chunks False) s = deliver on_event (body_events (concat chunks)) s"
    by (simp add: stream_events_def stream_chunks_push_all [OF assms] all body_events_def split: prod.splits)
  show "stream_events wrap on_event (Streaming chunks True) s =
      (case deliver on_event (snd (push sse_default (concat chunks))) s of
         (Inl e, s') \<Rightarrow> (Inl e, s')
       | (Inr _, s') \<Rightarrow> (Inl (wrap (Transport ''failed while reading Hermes SSE stream'')), s'))"
    by (simp add: stream_events_def stream_chunks_broken [OF assms] all)
  show "stream_events id collect (Streaming cut_character False) [] \<noteq>
      stream_events id collect (Streaming [concat cut_character] False) []"
    by code_simp
qed

theorem stream_events_are_the_body_witness:
  "stream_events id collect (Streaming [''da'', ''ta: x'' @ [CHR 0x0A, CHR 0x0A], ''data: y''] False) [] =
     (Inr (), [\<lparr>sse_event = None, sse_data = ''x''\<rparr>, \<lparr>sse_event = None, sse_data = ''y''\<rparr>])"
proof -
  have utf8: "\<forall>c \<in> set [''da'', ''ta: x'' @ [CHR 0x0A, CHR 0x0A], ''data: y'']. from_utf8_lossy c = c" by code_simp
  have events: "deliver collect (body_events (concat [''da'', ''ta: x'' @ [CHR 0x0A, CHR 0x0A], ''data: y''])) [] =
      (Inr (), [\<lparr>sse_event = None, sse_data = ''x''\<rparr>, \<lparr>sse_event = None, sse_data = ''y''\<rparr>])" by code_simp
  show ?thesis
    using stream_events_are_the_body [OF utf8, of id collect "[]"] events by (elim conjE) (rule trans)
qed

end
