(* ===== verification/Runner.thy ===== *)
theory Runner
  imports Hermes Run_Lock Approvals
begin

text \<open>
  \<open>src/src/runner.rs\<close>: the worker that executes one run against Hermes and journals
  it, and the reconciliation of runs without a worker.  A worker changes the
  registry, the project directory and the backend; these are the \<open>World\<close>.  Other
  tasks of the node use the same registry, so before each of its own registry calls
  the worker finds what \<open>en_others\<close> made of it.  What Hermes answers, the clock and
  the size of serialized messages are the rest of the environment.
\<close>

definition ERROR_RUN_CONFLICT :: string where "ERROR_RUN_CONFLICT = ''run_conflict''"
definition ERROR_SUBMISSION_FAILED :: string where "ERROR_SUBMISSION_FAILED = ''submission_failed''"
definition ERROR_STREAM_BROKEN :: string where "ERROR_STREAM_BROKEN = ''stream_broken''"
definition STREAM_IDLE_BUDGET :: nat where "STREAM_IDLE_BUDGET = 900"
definition HISTORY_SCAN_LIMIT :: int where "HISTORY_SCAN_LIMIT = 200"
definition AUTO_APPROVAL_CHOICE :: string where "AUTO_APPROVAL_CHOICE = ''once''"

definition EVENT_RUN_ACCEPTED :: string where "EVENT_RUN_ACCEPTED = ''asterism.run.accepted''"
definition EVENT_RUN_SUBMITTED :: string where "EVENT_RUN_SUBMITTED = ''asterism.run.submitted''"
definition EVENT_RUN_RESUMED :: string where "EVENT_RUN_RESUMED = ''asterism.run.resumed''"
definition EVENT_RUN_TERMINAL :: string where "EVENT_RUN_TERMINAL = ''asterism.run.terminal''"
definition EVENT_RECONCILED :: string where "EVENT_RECONCILED = ''asterism.reconciled''"
definition EVENT_RECOVERING :: string where "EVENT_RECOVERING = ''asterism.run.recovering''"
definition EVENT_APPROVAL_AUTO_RESOLVED :: string where
  "EVENT_APPROVAL_AUTO_RESOLVED = ''approval.auto_resolved''"

datatype runner_error =
    RegistryFailed registry_error
  | HermesFailed hermes_error
  | AttachmentFailed attachment_error
  | StatusFailed status_error
  | NoSuchRun string
  | Vanished string

section \<open>Events\<close>

record NormalizedEvent =
  ne_event_type :: string
  ne_payload :: json
  ne_raw :: json
  ne_dedupe_key :: string

definition normalize_event :: "codec \<Rightarrow> SseEvent \<Rightarrow> NormalizedEvent" where
  "normalize_event cdc event =
     (let parsed = from_str cdc (sse_data event);
          payload = (case parsed of Some v \<Rightarrow> v | None \<Rightarrow> json_object [(''text'', JString (sse_data event))]);
          event_type = (case coalesce (sse_event event) (Option.bind (json_get ''event'' payload) as_str) of
              Some t \<Rightarrow> t | None \<Rightarrow> ''unknown'');
          timestamp = (case json_get ''timestamp'' payload of Some v \<Rightarrow> to_string cdc v | None \<Rightarrow> [])
      in \<lparr>ne_event_type = event_type, ne_payload = payload,
          ne_raw = (case parsed of Some v \<Rightarrow> v | None \<Rightarrow> JString (sse_data event)),
          ne_dedupe_key = event_type @ '':'' @ timestamp @ '':'' @ fingerprint_value cdc payload\<rparr>)"

definition status_update_for :: "string \<Rightarrow> RunStatus \<Rightarrow> RunStatus option" where
  "status_update_for event_type current =
     (if event_type = ''approval.request'' then Some WaitingForApproval
      else if current = WaitingForApproval \<and> \<not> starts_with ''approval.'' event_type then Some Running
      else None)"

definition failure_reason :: "json \<Rightarrow> string option \<Rightarrow> string option" where
  "failure_reason status_value from_event =
     coalesce
       (case Option.bind (json_get ''error'' status_value) as_str of
          Some message \<Rightarrow> if trim message \<noteq> [] then Some message else None
        | None \<Rightarrow> None)
       (case map_option trim from_event of
          Some message \<Rightarrow> if message \<noteq> [] then Some message else None
        | None \<Rightarrow> None)"

definition status_of :: "json \<Rightarrow> string option" where
  "status_of value = Option.bind (json_get ''status'' value) as_str"

section \<open>The world of a worker\<close>

record WorkerContext =
  wc_project_id :: string
  wc_run_id :: string
  wc_base_url :: string
  wc_api_key :: string
  wc_history_limits :: HistoryLimits

record PendingAutoResolution =
  pa_request_seq :: int
  pa_enabled_by :: "string option"

text \<open>What one pass of the loop in \<open>follow_to_terminal\<close> observes.\<close>

record Round =
  ro_stream :: stream_answer
  ro_status :: http_answer
  ro_progress_at :: nat
  ro_checked_at :: nat

record Env =
  en_codec :: codec
  en_active :: active_codec
  en_process :: nat
  en_now :: "nat \<Rightarrow> nat \<Rightarrow> int"
  en_others :: "nat \<Rightarrow> Registry \<Rightarrow> Registry"
  en_size :: "HistoryMessage list \<Rightarrow> nat"
  en_text :: "runner_error \<Rightarrow> string"
  en_status :: "nat \<Rightarrow> string \<Rightarrow> http_answer"
  en_start :: http_answer
  en_started_at :: nat
  en_rounds :: "nat \<Rightarrow> Round"

record World =
  w_reg :: Registry
  w_dir :: Project_Dir
  w_tick :: nat
  w_posts :: "StartRunRequest list"
  w_spawned :: "PendingAutoResolution list"

text \<open>Computations that change the world and may fail; an error keeps what was done.\<close>

type_synonym 'a op = "World \<Rightarrow> (runner_error, 'a) result \<times> World"

definition op_ok :: "'a \<Rightarrow> 'a op" where
  "op_ok a = (\<lambda>w. (Inr a, w))"

definition op_err :: "runner_error \<Rightarrow> 'a op" where
  "op_err e = (\<lambda>w. (Inl e, w))"

definition op_bind :: "'a op \<Rightarrow> ('a \<Rightarrow> 'b op) \<Rightarrow> 'b op" where
  "op_bind m f = (\<lambda>w. case m w of (Inl e, w') \<Rightarrow> (Inl e, w') | (Inr a, w') \<Rightarrow> f a w')"

definition reg_op :: "Env \<Rightarrow> ((nat \<Rightarrow> int) \<Rightarrow> Registry \<Rightarrow> (registry_error, 'a \<times> Registry) result) \<Rightarrow> 'a op" where
  "reg_op env f = (\<lambda>w.
     let reg = en_others env (w_tick w) (w_reg w);
         w1 = w\<lparr>w_reg := reg, w_tick := w_tick w + 1\<rparr>
     in case f (en_now env (w_tick w)) reg of
          Inl e \<Rightarrow> (Inl (RegistryFailed e), w1)
        | Inr (a, reg') \<Rightarrow> (Inr a, w1\<lparr>w_reg := reg'\<rparr>))"

definition reg_read :: "Env \<Rightarrow> (Registry \<Rightarrow> 'a) \<Rightarrow> 'a op" where
  "reg_read env f = reg_op env (\<lambda>_ reg. Inr (f reg, reg))"

definition with_dir :: "(Project_Dir \<Rightarrow> Project_Dir) \<Rightarrow> unit op" where
  "with_dir f = (\<lambda>w. (Inr (), w\<lparr>w_dir := f (w_dir w)\<rparr>))"

definition append_op :: "Env \<Rightarrow> string \<Rightarrow> JournalEvent \<Rightarrow> RunUpdate option \<Rightarrow> AppendOutcome op" where
  "append_op env rid ev upd = reg_op env (\<lambda>now reg. append_event (en_codec env) now rid ev upd reg)"

definition load_op :: "Env \<Rightarrow> string \<Rightarrow> RunRecord option op" where
  "load_op env rid = reg_read env (load_run (en_codec env) rid)"

definition append_note :: "Env \<Rightarrow> string \<Rightarrow> string \<Rightarrow> json \<Rightarrow> int op" where
  "append_note env rid event_type payload =
     op_bind (append_op env rid (journal_asterism event_type payload) None) (\<lambda>outcome. op_ok (outcome_seq outcome))"

section \<open>Ending a run\<close>

definition finalize :: "Env \<Rightarrow> string \<Rightarrow> RunStatus \<Rightarrow> RunUpdate \<Rightarrow> json \<Rightarrow> RunRecord op" where
  "finalize env rid target upd payload =
     op_bind (append_op env rid
         (journal_asterism EVENT_RUN_TERMINAL (json_set ''status'' (JString (run_status_as_str target)) payload))
         (Some upd)) (\<lambda>_.
       op_bind (load_op env rid) (\<lambda>r. case r of Some rec \<Rightarrow> op_ok rec | None \<Rightarrow> op_err (Vanished rid)))"

text \<open>The payload \<open>json!({"error": code, "message": message})\<close> and the three ways the worker gives up.\<close>

definition error_payload :: "string \<Rightarrow> string \<Rightarrow> json" where
  "error_payload code message = json_object [(''error'', JString code), (''message'', JString message)]"

definition fail_with :: "Env \<Rightarrow> string \<Rightarrow> RunStatus \<Rightarrow> string \<Rightarrow> string \<Rightarrow> string \<Rightarrow> RunRecord op" where
  "fail_with env rid target code message reason =
     finalize env rid target (with_terminal_reason reason (with_error code message (update_status target)))
       (error_payload code message)"

definition refuse_conflict :: "Env \<Rightarrow> string \<Rightarrow> RunConflict \<Rightarrow> RunRecord op" where
  "refuse_conflict env rid conflict =
     fail_with env rid Failed ERROR_RUN_CONFLICT (conflict_message conflict) ''refused by single-flight admission''"

section \<open>Automatic resolution of approvals\<close>

text \<open>The claim in the stream handler: after the request is recorded, under the policy the registry holds.\<close>

definition claim_approval :: "Env \<Rightarrow> string \<Rightarrow> int \<Rightarrow> json \<Rightarrow> unit op" where
  "claim_approval env rid request_seq payload =
     op_bind (reg_op env (\<lambda>now reg.
         map_sum id (\<lambda>reg'. ((), reg')) (record_approval_request (en_codec env) (now 0) rid request_seq
           (Option.bind (json_get ''command'' payload) as_str) (supported_choices (json_get ''choices'' payload)) reg)))
       (\<lambda>_. op_bind (reg_op env (\<lambda>_ reg. map_sum id (\<lambda>st. (st, reg)) (run_approval_policy rid reg))) (\<lambda>policy.
          if bypasses_approval (rp_policy policy) then
            op_bind (reg_op env (\<lambda>now reg. Inr (record_approval_decision (now 0) rid request_seq AUTO_APPROVAL_CHOICE reg)))
              (\<lambda>claimed.
                 if claimed then (\<lambda>w. (Inr (), w\<lparr>w_spawned := w_spawned w @
                     [\<lparr>pa_request_seq = request_seq, pa_enabled_by = rp_enabled_by policy\<rparr>]\<rparr>))
                 else op_ok ())
          else op_ok ()))"

definition auto_event :: "string \<Rightarrow> PendingAutoResolution \<Rightarrow> string \<Rightarrow> string option \<Rightarrow> JournalEvent" where
  "auto_event rid pending outcome detail =
     \<lparr>j_event_type = EVENT_APPROVAL_AUTO_RESOLVED, j_source = SOURCE_ASTERISM,
      j_payload = json_object
        [(''run_id'', JString rid), (''approval_seq'', json_of_int (pa_request_seq pending)),
         (''policy'', JString (policy_as_str AllowAllForRun)), (''choice'', JString AUTO_APPROVAL_CHOICE),
         (''enabled_by'', json_of_opt (pa_enabled_by pending)), (''result'', JString outcome),
         (''detail'', json_of_opt detail)],
      j_raw = None, j_dedupe_key = Some (''auto-approval:'' @ show_int (pa_request_seq pending))\<rparr>"

text \<open>The task \<open>spawn_auto_resolution\<close> starts, with the answer of Hermes to the decision.\<close>

definition auto_resolution :: "Env \<Rightarrow> WorkerContext \<Rightarrow> PendingAutoResolution \<Rightarrow> http_answer \<Rightarrow> unit op" where
  "auto_resolution env ctx pending answer =
     (case hermes_new (wc_base_url ctx) (wc_api_key ctx) of
        Inl _ \<Rightarrow> op_ok ()
      | Inr _ \<Rightarrow>
          let (outcome, detail) = (case resolve_approval (en_codec env) answer of
                Inr _ \<Rightarrow> (''resolved'', None)
              | Inl e \<Rightarrow> (''failed'', Some (en_text env (HermesFailed e))))
          in (\<lambda>w. case append_op env (wc_run_id ctx) (auto_event (wc_run_id ctx) pending outcome detail) None w of
                (Inl _, w') \<Rightarrow> (Inr (), w')
              | (Inr appended, w') \<Rightarrow>
                  reg_op env (\<lambda>_ reg. Inr ((), record_approval_resolution (wc_run_id ctx)
                    (pa_request_seq pending) (outcome_seq appended) reg)) w'))"

section \<open>Following a run\<close>

record Follow =
  fl_world :: World
  fl_observed :: RunStatus
  fl_failure :: "string option"

definition hermes_event :: "NormalizedEvent \<Rightarrow> JournalEvent" where
  "hermes_event n =
     \<lparr>j_event_type = ne_event_type n, j_source = SOURCE_HERMES, j_payload = ne_payload n,
      j_raw = Some (ne_raw n), j_dedupe_key = Some (ne_dedupe_key n)\<rparr>"

text \<open>The closure passed to \<open>stream_events\<close>: its registry calls, then its local variables.\<close>

definition journal_frame :: "Env \<Rightarrow> string \<Rightarrow> NormalizedEvent \<Rightarrow> RunStatus option \<Rightarrow> unit op" where
  "journal_frame env rid n upd =
     op_bind (append_op env rid (hermes_event n) (map_option update_status upd)) (\<lambda>outcome.
       if ne_event_type n = ''approval.request''
       then claim_approval env rid (outcome_seq outcome) (ne_payload n)
       else op_ok ())"

definition on_event :: "Env \<Rightarrow> string \<Rightarrow> SseEvent \<Rightarrow> Follow \<Rightarrow> (runner_error, unit) result \<times> Follow" where
  "on_event env rid event st =
     (let n = normalize_event (en_codec env) event;
          upd = status_update_for (ne_event_type n) (fl_observed st);
          observed = (case upd of Some s \<Rightarrow> s | None \<Rightarrow> fl_observed st);
          reported = (if ne_event_type n = ''run.failed'' then Option.bind (json_get ''error'' (ne_payload n)) as_str else None)
      in case journal_frame env rid n upd (fl_world st) of
           (Inl e, w) \<Rightarrow> (Inl e, \<lparr>fl_world = w, fl_observed = observed, fl_failure = fl_failure st\<rparr>)
         | (Inr _, w) \<Rightarrow> (Inr (), \<lparr>fl_world = w, fl_observed = observed, fl_failure = coalesce reported (fl_failure st)\<rparr>))"

record Loop =
  lp_follow :: Follow
  lp_last_progress :: nat
  lp_last_seq :: int
  lp_stream_error :: "string option"

definition idle_message :: string where
  "idle_message = ''no new events for '' @ show_nat STREAM_IDLE_BUDGET @ ''s while Hermes still reported the run as active''"

text \<open>The update and the event for a terminal status of Hermes.\<close>

definition settle :: "Env \<Rightarrow> string \<Rightarrow> RunStatus \<Rightarrow> json \<Rightarrow> string option \<Rightarrow> RunRecord op" where
  "settle env rid target value failure =
     (let upd = with_terminal_reason ''terminal status reported by Hermes'' (with_result value (update_status target));
          upd' = (case (if target = Failed then failure_reason value failure else None) of
                    Some message \<Rightarrow> with_error ''hermes_run_failed'' message upd
                  | None \<Rightarrow> upd)
      in finalize env rid target upd'
           (json_object [(''hermes_status'', case json_get ''status'' value of Some v \<Rightarrow> v | None \<Rightarrow> JNull)]))"

definition current_seq :: "Env \<Rightarrow> string \<Rightarrow> int op" where
  "current_seq env rid = op_bind (load_op env rid) (\<lambda>r. op_ok (case r of Some rec \<Rightarrow> last_event_seq rec | None \<Rightarrow> 0))"

text \<open>The status a round reads off the backend; no answer and an error are both \<open>None\<close>.\<close>

definition backend_value :: "Env \<Rightarrow> nat \<Rightarrow> json option" where
  "backend_value env k = Option.bind (ok (try_run_status (en_codec env) (ro_status (en_rounds env k)))) id"

definition reported_status :: "json \<Rightarrow> RunStatus" where
  "reported_status value = (case status_of value of Some s \<Rightarrow> from_hermes_status s | None \<Rightarrow> Interrupted)"

text \<open>One pass of the loop: another pass, or the result it breaks with.\<close>

definition follow_round ::
  "Env \<Rightarrow> string \<Rightarrow> nat \<Rightarrow> Loop \<Rightarrow> Loop + ((runner_error, RunRecord) result \<times> World)" where
  "follow_round env rid k l =
     (let r = en_rounds env k;
          (res, fl) = stream_events HermesFailed (on_event env rid) (ro_stream r) (lp_follow l);
          w = fl_world fl;
          stream_error = (case res of Inl e \<Rightarrow> Some (en_text env e) | Inr _ \<Rightarrow> lp_stream_error l)
      in case backend_value env k of
           None \<Rightarrow>
             let message = (case stream_error of Some m \<Rightarrow> m | None \<Rightarrow> ''Hermes no longer knows this run'')
             in Inr (fail_with env rid Interrupted ERROR_STREAM_BROKEN message
                       ''Hermes lost the run before a terminal status'' w)
         | Some value \<Rightarrow>
             let target = reported_status value in
             if is_terminal target then Inr (settle env rid target value (fl_failure fl) w)
             else
               (case current_seq env rid w of
                  (Inl e, w1) \<Rightarrow> Inr (Inl e, w1)
                | (Inr seq, w1) \<Rightarrow>
                    let progress = (if seq \<noteq> lp_last_seq l then ro_progress_at r else lp_last_progress l)
                    in if ro_checked_at r - progress \<ge> STREAM_IDLE_BUDGET
                       then Inr (fail_with env rid Interrupted ERROR_STREAM_BROKEN idle_message
                              ''event stream stalled while the run was still active'' w1)
                       else Inl \<lparr>lp_follow = fl\<lparr>fl_world := w1\<rparr>, lp_last_progress = progress,
                                 lp_last_seq = seq, lp_stream_error = stream_error\<rparr>))"

partial_function (option) follow_loop ::
  "Env \<Rightarrow> string \<Rightarrow> nat \<Rightarrow> Loop \<Rightarrow> ((runner_error, RunRecord) result \<times> World) option" where
  "follow_loop env rid k l =
     (case follow_round env rid k l of
        Inr done \<Rightarrow> Some done
      | Inl l' \<Rightarrow> follow_loop env rid (Suc k) l')"

text \<open>
  Computations that may also not end.  \<open>run_op\<close> continues one after a computation
  that does.
\<close>

type_synonym worker = "World \<Rightarrow> ((runner_error, RunRecord) result \<times> World) option"

definition run_op :: "'a op \<Rightarrow> ('a \<Rightarrow> worker) \<Rightarrow> worker" where
  "run_op m f = (\<lambda>w. case m w of (Inl e, w') \<Rightarrow> Some (Inl e, w') | (Inr a, w') \<Rightarrow> f a w')"

definition ending :: "RunRecord op \<Rightarrow> worker" where
  "ending m = (\<lambda>w. Some (m w))"

text \<open>The record is dropped whatever the loop broke with, except for the early returns inside it.\<close>

definition follow_to_terminal :: "Env \<Rightarrow> WorkerContext \<Rightarrow> string \<Rightarrow> worker" where
  "follow_to_terminal env ctx hid =
     run_op (current_seq env (wc_run_id ctx)) (\<lambda>seq w.
       map_option (\<lambda>(r, w'). (r, w'\<lparr>w_dir := clear_active_run (w_dir w')\<rparr>))
         (follow_loop env (wc_run_id ctx) 0
            \<lparr>lp_follow = \<lparr>fl_world = w, fl_observed = Running, fl_failure = None\<rparr>,
             lp_last_progress = en_started_at env, lp_last_seq = seq, lp_stream_error = None\<rparr>))"

section \<open>Executing a run\<close>

definition admission_op :: "Env \<Rightarrow> string \<Rightarrow> RunConflict option op" where
  "admission_op env pid = (\<lambda>w.
     case read_active_run (en_active env) (w_dir w) of
       None \<Rightarrow> (Inr None, w)
     | Some marker \<Rightarrow>
         (case try_run_status (en_codec env) (en_status env (w_tick w) (ar_run_id marker)) of
            Inl e \<Rightarrow> (Inl (HermesFailed e), w)
          | Inr answer \<Rightarrow>
              (case conflict_from_decision pid
                  (classify_recorded_run (Some marker) (Option.bind answer status_of)) of
                 Some conflict \<Rightarrow> (Inr (Some conflict), w)
               | None \<Rightarrow> (Inr None, w\<lparr>w_dir := clear_active_run (w_dir w)\<rparr>))))"

definition truncation_event :: "BuiltHistory \<Rightarrow> HistoryLimits \<Rightarrow> JournalEvent" where
  "truncation_event built limits = journal_asterism ''conversation.history_truncated''
     (json_object [(''omitted_turns'', json_of_nat (bh_omitted_turns built)),
        (''sent_messages'', json_of_nat (length (bh_messages built))),
        (''sent_bytes'', json_of_nat (bh_bytes built)),
        (''max_turns'', json_of_nat (max_turns limits)), (''max_bytes'', json_of_nat (max_bytes limits))])"

definition history_for :: "Env \<Rightarrow> WorkerContext \<Rightarrow> RunRecord \<Rightarrow> (BuiltHistory \<Rightarrow> worker) \<Rightarrow> worker" where
  "history_for env ctx run cont =
     (case session_id run of
        None \<Rightarrow> cont \<lparr>bh_messages = [], bh_omitted_turns = 0, bh_bytes = 0\<rparr>
      | Some sid \<Rightarrow>
          run_op (reg_read env (list_runs (en_codec env) (project_id run) HISTORY_SCAN_LIMIT)) (\<lambda>rs.
            case build (en_size env) rs sid (run_id run) (wc_history_limits ctx) of
              None \<Rightarrow> (\<lambda>_. None)
            | Some built \<Rightarrow>
                run_op (if truncated built
                        then op_bind (append_op env (wc_run_id ctx) (truncation_event built (wc_history_limits ctx)) None) (\<lambda>_. op_ok ())
                        else op_ok ()) (\<lambda>_. cont built)))"

definition request_input :: "RunRecord \<Rightarrow> (runner_error, json) result" where
  "request_input run =
     (let input_text = (case Option.bind (json_get ''input'' (request_payload run)) as_str of Some t \<Rightarrow> t | None \<Rightarrow> [])
      in case parse (json_get ''attachments'' (request_payload run)) of
           Inl e \<Rightarrow> Inl (AttachmentFailed e)
         | Inr attachments \<Rightarrow> Inr (hermes_input input_text attachments))"

text \<open>After the request was posted: what the answer leads to.\<close>

definition submitted :: "Env \<Rightarrow> WorkerContext \<Rightarrow> RunRecord \<Rightarrow> worker" where
  "submitted env ctx run =
     (case start_run (en_codec env) (en_start env) of
        Inl e \<Rightarrow>
          run_op (with_dir clear_active_run) (\<lambda>_.
            ending (fail_with env (wc_run_id ctx) Failed ERROR_SUBMISSION_FAILED (en_text env (HermesFailed e))
              ''Hermes rejected the submission''))
      | Inr response \<Rightarrow>
          run_op (append_op env (wc_run_id ctx)
              (journal_asterism EVENT_RUN_SUBMITTED (json_object
                 [(''hermes_run_id'', JString (sp_run_id response)), (''hermes_status'', JString (sp_status response))]))
              (Some (with_hermes_run_id (sp_run_id response) (update_status Running)))) (\<lambda>_.
            run_op (\<lambda>w. (Inr (), w\<lparr>w_tick := w_tick w + 1, w_dir := record_active_run (en_active env)
                \<lparr>ar_run_id = sp_run_id response, ar_session_id = session_id run,
                 ar_started_at_unix = nat (en_now env (w_tick w) 0 div 1000)\<rparr> (w_dir w)\<rparr>)) (\<lambda>_.
              follow_to_terminal env ctx (sp_run_id response))))"

definition submit :: "Env \<Rightarrow> WorkerContext \<Rightarrow> RunRecord \<Rightarrow> json \<Rightarrow> BuiltHistory \<Rightarrow> worker" where
  "submit env ctx run input history =
     (let request = \<lparr>sr_input = input, sr_session_id = session_id run,
            sr_instructions = Option.bind (json_get ''instructions'' (request_payload run)) as_str,
            sr_conversation_history = bh_messages history\<rparr>
      in run_op (\<lambda>w. (Inr (), w\<lparr>w_posts := w_posts w @ [request]\<rparr>)) (\<lambda>_. submitted env ctx run))"

definition execute_locked :: "Env \<Rightarrow> WorkerContext \<Rightarrow> RunRecord \<Rightarrow> worker" where
  "execute_locked env ctx run =
     run_op (\<lambda>w. (map_sum HermesFailed id (hermes_new (wc_base_url ctx) (wc_api_key ctx)), w)) (\<lambda>_.
       run_op (admission_op env (wc_project_id ctx)) (\<lambda>conflict.
         case conflict of
           Some c \<Rightarrow> ending (refuse_conflict env (wc_run_id ctx) c)
         | None \<Rightarrow>
             (case hermes_run_id run of
                Some hid \<Rightarrow>
                  run_op (append_op env (wc_run_id ctx)
                      (journal_asterism EVENT_RUN_RESUMED (json_object
                         [(''hermes_run_id'', JString hid), (''resumed_from_seq'', json_of_int (last_event_seq run))])) None)
                    (\<lambda>_. follow_to_terminal env ctx hid)
              | None \<Rightarrow>
                  run_op (append_op env (wc_run_id ctx)
                      (journal_asterism EVENT_RUN_ACCEPTED (json_object [(''project_id'', JString (wc_project_id ctx))]))
                      (Some (update_status Starting))) (\<lambda>_.
                    run_op (\<lambda>w. (request_input run, w)) (\<lambda>input.
                      history_for env ctx run (submit env ctx run input))))))"

definition unlock :: "Env \<Rightarrow> World \<Rightarrow> World" where
  "unlock env w = w\<lparr>w_dir := release (en_process env) (w_dir w)\<rparr>"

definition execute_run :: "Env \<Rightarrow> WorkerContext \<Rightarrow> worker" where
  "execute_run env ctx =
     run_op (load_op env (wc_run_id ctx)) (\<lambda>found.
       case found of
         None \<Rightarrow> ending (op_err (NoSuchRun (wc_run_id ctx)))
       | Some run \<Rightarrow> (\<lambda>w.
           case try_lock (wc_project_id ctx) (en_process env) (w_dir w) of
             Inl conflict \<Rightarrow> ending (refuse_conflict env (wc_run_id ctx) conflict) w
           | Inr d \<Rightarrow> map_option (\<lambda>(r, w'). (r, unlock env w')) (execute_locked env ctx run (w\<lparr>w_dir := d\<rparr>))))"

section \<open>Reconciliation\<close>

record Reconciliation =
  rc_run_id :: string
  rc_previous_status :: string
  rc_new_status :: string
  rc_note :: string

text \<open>\<open>{:?}\<close> of a string; characters above U+007F that print are kept as they are.\<close>

definition debug_char :: "char \<Rightarrow> string" where
  "debug_char c =
     (if c \<in> {CHR 0x22, CHR 0x5C} then [CHR 0x5C, c]
      else if c = CHR 0x0A then [CHR 0x5C, CHR ''n'']
      else if c = CHR 0x0D then [CHR 0x5C, CHR ''r'']
      else if c = CHR 0x09 then [CHR 0x5C, CHR ''t'']
      else if c = CHR 0x00 then [CHR 0x5C, CHR ''0'']
      else if byte_in 0x01 0x1F c \<or> c = CHR 0x7F
        then [CHR 0x5C] @ ''u{'' @ show_hex (if byte_in 0x01 0x0F c then 1 else 2) (of_char c) @ ''}''
      else [c])"

definition quoted :: "string \<Rightarrow> string" where
  "quoted s = [CHR 0x22] @ concat (map debug_char s) @ [CHR 0x22]"

definition reconcile_decision :: "RunStatus \<Rightarrow> string option \<Rightarrow> int \<Rightarrow> RunStatus \<times> string" where
  "reconcile_decision current backend_status journalled =
     (case backend_status of
        Some s \<Rightarrow> (from_hermes_status s, ''Hermes still reports this run as '' @ quoted s @ ''; adopted its status'')
      | None \<Rightarrow>
          if current = Created then (Lost, ''run was never submitted to Hermes and no worker claimed it'')
          else if journalled > 0 then
            (Interrupted, ''Hermes no longer knows this run; events were journalled but no terminal status was observed'')
          else (Lost, ''Hermes no longer knows this run and no events were ever journalled''))"

definition park_op :: "Env \<Rightarrow> RunRecord \<Rightarrow> RunStatus \<Rightarrow> unit op" where
  "park_op env run current =
     (if hermes_run_id run \<noteq> None \<and> current \<noteq> Recovering \<and> can_go current Recovering
      then op_bind (append_op env (run_id run)
             (journal_asterism EVENT_RECOVERING (json_object [(''previous_status'', JString (run_status_as_str current))]))
             (Some (update_status Recovering))) (\<lambda>_. op_ok ())
      else op_ok ())"

definition backend_status_op :: "Env \<Rightarrow> RunRecord \<Rightarrow> string option op" where
  "backend_status_op env run = (\<lambda>w. (Inr (Option.bind (hermes_run_id run) (\<lambda>hid.
     Option.bind (Option.bind (ok (try_run_status (en_codec env) (en_status env (w_tick w) hid))) id) status_of)), w))"

definition reconcile_update :: "RunStatus \<Rightarrow> string \<Rightarrow> RunUpdate" where
  "reconcile_update new_status reason =
     (let upd = with_recovery_note reason (update_status new_status) in
      if is_terminal new_status \<and> new_status \<noteq> Completed
      then with_terminal_reason ''resolved by Asterism reconciliation'' upd else upd)"

text \<open>The body of the loop in \<open>reconcile_project\<close> for one run; \<open>continue\<close> yields no outcome.\<close>

definition reconcile_run :: "Env \<Rightarrow> RunRecord \<Rightarrow> Reconciliation list op" where
  "reconcile_run env run =
     (case record_status run of
        Inl e \<Rightarrow> op_err (StatusFailed e)
      | Inr current \<Rightarrow>
          op_bind (park_op env run current) (\<lambda>_.
            op_bind (backend_status_op env run) (\<lambda>backend_status.
              let (new_status, reason) = reconcile_decision current backend_status (last_event_seq run) in
              if new_status = current then op_ok []
              else op_bind (append_op env (run_id run)
                     (journal_asterism EVENT_RECONCILED (json_object
                        [(''previous_status'', JString (run_status_as_str current)),
                         (''new_status'', JString (run_status_as_str new_status)), (''reason'', JString reason),
                         (''backend_status'', json_of_opt backend_status)]))
                     (Some (reconcile_update new_status reason))) (\<lambda>_.
                   op_ok [\<lparr>rc_run_id = run_id run, rc_previous_status = run_status_as_str current,
                           rc_new_status = run_status_as_str new_status, rc_note = reason\<rparr>]))))"

fun reconcile_runs :: "Env \<Rightarrow> RunRecord list \<Rightarrow> Reconciliation list op" where
  "reconcile_runs env [] = op_ok []"
| "reconcile_runs env (run # rs) =
     op_bind (reconcile_run env run) (\<lambda>outcome.
       op_bind (reconcile_runs env rs) (\<lambda>outcomes. op_ok (outcome @ outcomes)))"

definition reconcile_project :: "Env \<Rightarrow> string \<Rightarrow> Reconciliation list op" where
  "reconcile_project env pid = (\<lambda>w.
     case try_lock pid (en_process env) (w_dir w) of
       Inl _ \<Rightarrow> (Inr [], w)
     | Inr d \<Rightarrow>
         map_prod id (unlock env)
           (op_bind (reg_read env (active_runs (en_codec env) pid)) (\<lambda>rs.
              op_bind (reconcile_runs env rs) (\<lambda>outcomes.
                op_bind (with_dir clear_active_run) (\<lambda>_. op_ok outcomes))) (w\<lparr>w_dir := d\<rparr>)))"

end
