(* ===== verification/Runner_Inv.thy ===== *)
theory Runner_Inv
  imports Runner
begin

text \<open>
  What a worker and a reconciliation do to the world.  A property of the effects is a
  preorder on worlds; that a computation respects it is proved once, over the
  primitive effects, and then instantiated: the registry evolves by registry
  operations, nothing is submitted, approvals are claimed at most once.
\<close>

section \<open>Effects that respect a preorder\<close>

definition keeps :: "(World \<Rightarrow> World \<Rightarrow> bool) \<Rightarrow> 'a op \<Rightarrow> bool" where
  "keeps R m \<longleftrightarrow> (\<forall>w. R w (snd (m w)))"

definition keeps_run :: "(World \<Rightarrow> World \<Rightarrow> bool) \<Rightarrow> worker \<Rightarrow> bool" where
  "keeps_run R f \<longleftrightarrow> (\<forall>w r w'. f w = Some (r, w') \<longrightarrow> R w w')"

definition keeps_handler :: "(World \<Rightarrow> World \<Rightarrow> bool) \<Rightarrow> (SseEvent \<Rightarrow> Follow \<Rightarrow> ('e, unit) result \<times> Follow) \<Rightarrow> bool" where
  "keeps_handler R h \<longleftrightarrow> (\<forall>e st. R (fl_world st) (fl_world (snd (h e st))))"

lemma keepsD: "keeps R m \<Longrightarrow> m w = (r, w') \<Longrightarrow> R w w'"
  unfolding keeps_def by (metis snd_conv)

lemma keepsI: "(\<And>w r w'. m w = (r, w') \<Longrightarrow> R w w') \<Longrightarrow> keeps R m"
  unfolding keeps_def by (metis prod.collapse)

lemma keeps_runD: "keeps_run R f \<Longrightarrow> f w = Some (r, w') \<Longrightarrow> R w w'"
  unfolding keeps_run_def by blast

locale effect_order =
  fixes R :: "World \<Rightarrow> World \<Rightarrow> bool"
  assumes refl: "R w w"
    and trans: "R a b \<Longrightarrow> R b c \<Longrightarrow> R a c"
begin

lemma keeps_ok: "keeps R (op_ok a)"
  by (simp add: keeps_def op_ok_def refl)

lemma keeps_err: "keeps R (op_err e)"
  by (simp add: keeps_def op_err_def refl)

lemma keeps_bind: "keeps R m \<Longrightarrow> (\<And>a. keeps R (f a)) \<Longrightarrow> keeps R (op_bind m f)"
  unfolding op_bind_def
  by (rule keepsI) (auto split: prod.splits sum.splits dest: keepsD intro: trans)

lemma keeps_run_op: "keeps R m \<Longrightarrow> (\<And>a. keeps_run R (f a)) \<Longrightarrow> keeps_run R (run_op m f)"
  unfolding run_op_def keeps_run_def [of R "\<lambda>w. _ w"]
  by (auto split: prod.splits sum.splits dest: keepsD keeps_runD intro: trans)

lemma keeps_ending: "keeps R m \<Longrightarrow> keeps_run R (ending m)"
  by (auto simp: keeps_run_def ending_def dest: keepsD)

lemma keeps_deliver:
  "keeps_handler R h \<Longrightarrow> deliver h es st = (res, st') \<Longrightarrow> R (fl_world st) (fl_world st')"
proof (induction es arbitrary: st)
  case Nil
  then show ?case by (simp add: refl)
next
  case (Cons e es)
  obtain r st1 where h: "h e st = (r, st1)" by fastforce
  then have first: "R (fl_world st) (fl_world st1)" using Cons.prems(1) unfolding keeps_handler_def by (metis snd_conv)
  show ?case
    using Cons h first by (cases r) (auto intro: trans)
qed

lemma keeps_chunks:
  "keeps_handler R h \<Longrightarrow> stream_chunks wrap h parser chunks broken st = (res, st') \<Longrightarrow> R (fl_world st) (fl_world st')"
proof (induction chunks arbitrary: parser st)
  case Nil
  then show ?case
    using refl unfolding keeps_handler_def by (auto split: if_splits option.splits) (metis snd_conv)
next
  case (Cons c cs)
  obtain parser' es where p: "push parser (from_utf8_lossy c) = (parser', es)" by fastforce
  obtain r st1 where d: "deliver h es st = (r, st1)" by fastforce
  have first: "R (fl_world st) (fl_world st1)" by (rule keeps_deliver [OF Cons.prems(1) d])
  show ?case using Cons p d first by (cases r) (auto intro: trans)
qed

lemma keeps_stream:
  "keeps_handler R h \<Longrightarrow> stream_events wrap h answer st = (res, st') \<Longrightarrow> R (fl_world st) (fl_world st')"
  by (auto simp: stream_events_def refl split: stream_answer.splits http_answer.splits dest: keeps_chunks)

end

text \<open>A preorder that holds of every primitive effect of following a run.\<close>

locale worker_order = effect_order R for R +
  fixes env :: Env and rid :: string
  assumes others: "R w (w\<lparr>w_tick := Suc (w_tick w), w_reg := en_others env (w_tick w) (w_reg w)\<rparr>)"
    and append: "keeps R (append_op env i ev upd)"
    and claim: "keeps R (claim_approval env rid n payload)"
    and dir: "R w (w\<lparr>w_dir := d\<rparr>)"
    and tick: "R w (w\<lparr>w_tick := t\<rparr>)"
begin

lemma keeps_read: "keeps R (reg_read env f)"
  by (simp add: keeps_def reg_read_def reg_op_def Let_def others)

lemma keeps_load: "keeps R (load_op env i)"
  unfolding load_op_def by (rule keeps_read)

lemma keeps_finalize: "keeps R (finalize env i s upd payload)"
  unfolding finalize_def by (intro keeps_bind append keeps_load) (auto intro: keeps_ok keeps_err split: option.splits)

lemma keeps_fail_with: "keeps R (fail_with env i s code message reason)"
  unfolding fail_with_def by (rule keeps_finalize)

lemma keeps_refuse: "keeps R (refuse_conflict env i c)"
  unfolding refuse_conflict_def by (rule keeps_fail_with)

lemma keeps_settle: "keeps R (settle env i s v failure)"
  unfolding settle_def Let_def by (rule keeps_finalize)

lemma keeps_seq: "keeps R (current_seq env i)"
  unfolding current_seq_def by (intro keeps_bind keeps_load keeps_ok)

lemma keeps_frame: "keeps R (journal_frame env rid n upd)"
  unfolding journal_frame_def by (intro keeps_bind append) (auto intro: keeps_ok claim)

lemma keeps_on_event: "keeps_handler R (on_event env rid)"
  unfolding keeps_handler_def
proof (intro allI)
  fix e and st :: Follow
  let ?n = "normalize_event (en_codec env) e"
  let ?upd = "status_update_for (ne_event_type ?n) (fl_observed st)"
  obtain r w where j: "journal_frame env rid ?n ?upd (fl_world st) = (r, w)" by fastforce
  then have "R (fl_world st) w" by (rule keepsD [OF keeps_frame])
  then show "R (fl_world st) (fl_world (snd (on_event env rid e st)))"
    using j by (simp add: on_event_def Let_def split: sum.splits)
qed

lemma keeps_round:
  "follow_round env rid k l = Inl l' \<Longrightarrow> R (fl_world (lp_follow l)) (fl_world (lp_follow l'))"
  "follow_round env rid k l = Inr (r, w') \<Longrightarrow> R (fl_world (lp_follow l)) w'"
proof -
  obtain res fl where s: "stream_events HermesFailed (on_event env rid) (ro_stream (en_rounds env k)) (lp_follow l) = (res, fl)"
    by fastforce
  have first: "R (fl_world (lp_follow l)) (fl_world fl)" by (rule keeps_stream [OF keeps_on_event s])
  obtain q w1 where c: "current_seq env rid (fl_world fl) = (q, w1)" by fastforce
  have second: "R (fl_world (lp_follow l)) w1" using trans [OF first] keepsD [OF keeps_seq c] .
  show "R (fl_world (lp_follow l)) (fl_world (lp_follow l'))" if "follow_round env rid k l = Inl l'"
    using that second by (auto simp: follow_round_def s c Let_def split: option.splits if_splits sum.splits)
  show "R (fl_world (lp_follow l)) w'" if "follow_round env rid k l = Inr (r, w')"
    using that first second
    by (auto simp: follow_round_def s c Let_def split: option.splits if_splits sum.splits
        intro: trans dest: keepsD [OF keeps_fail_with] keepsD [OF keeps_settle])
qed

lemma keeps_loop:
  assumes "follow_loop env rid k l = Some (r, w')"
  shows "R (fl_world (lp_follow l)) w'"
proof -
  have "\<forall>r w'. y = (r, w') \<longrightarrow> e = env \<longrightarrow> i = rid \<longrightarrow> R (fl_world (lp_follow l)) w'"
    if "follow_loop e i k l = Some y" for e i k l y
    using that
  proof (rule follow_loop.raw_induct [rotated])
    fix f e i k l y
    assume IH: "\<And>e i k l y. f e i k l = Some y \<Longrightarrow>
        \<forall>r w'. y = (r, w') \<longrightarrow> e = env \<longrightarrow> i = rid \<longrightarrow> R (fl_world (lp_follow l)) w'"
      and body: "(case follow_round e i k l of Inl l' \<Rightarrow> f e i (Suc k) l' | Inr done \<Rightarrow> Some done) = Some y"
    show "\<forall>r w'. y = (r, w') \<longrightarrow> e = env \<longrightarrow> i = rid \<longrightarrow> R (fl_world (lp_follow l)) w'"
      using body IH keeps_round [of k l] by (auto split: sum.splits intro: trans)
  qed
  with assms show ?thesis by blast
qed

lemma keeps_follow:
  assumes "wc_run_id ctx = rid"
  shows "keeps_run R (follow_to_terminal env ctx hid)"
  unfolding follow_to_terminal_def
  by (intro keeps_run_op keeps_seq)
     (auto simp: keeps_run_def assms intro: trans dir dest!: keeps_loop)

lemma keeps_submitted:
  assumes "wc_run_id ctx = rid"
  shows "keeps_run R (submitted env ctx run)"
proof -
  have dt: "R w (w\<lparr>w_tick := t, w_dir := d\<rparr>)" for w t d using trans [OF tick dir] by simp
  show ?thesis
    unfolding submitted_def
    by (auto simp: keeps_def with_dir_def dir dt assms split: sum.splits
        intro!: keeps_run_op keeps_ending keeps_fail_with append keeps_follow [OF assms])
qed

lemma keeps_admission: "keeps R (admission_op env pid)"
  unfolding admission_op_def
  by (rule keepsI) (auto simp: refl dir split: option.splits sum.splits)

lemma keeps_history:
  assumes "\<And>h. keeps_run R (cont h)"
  shows "keeps_run R (history_for env ctx run cont)"
proof -
  have "keeps_run R (\<lambda>_. None)" by (simp add: keeps_run_def)
  then show ?thesis
    unfolding history_for_def
    by (auto simp: assms intro!: keeps_run_op keeps_read keeps_bind append keeps_ok split: option.splits)
qed

lemma keeps_park: "keeps R (park_op env run current)"
  unfolding park_op_def by (auto intro!: keeps_bind append keeps_ok)

lemma keeps_reconcile_run: "keeps R (reconcile_run env run)"
proof -
  have "keeps R (backend_status_op env run)" by (rule keepsI) (auto simp: backend_status_op_def refl)
  then show ?thesis
    unfolding reconcile_run_def Let_def
    by (auto intro!: keeps_bind keeps_park append keeps_ok keeps_err split: sum.splits prod.splits)
qed

lemma keeps_reconcile_runs: "keeps R (reconcile_runs env rs)"
  by (induction rs) (auto intro!: keeps_bind keeps_reconcile_run keeps_ok)

lemma keeps_reconcile: "keeps R (reconcile_project env pid)"
proof (rule keepsI)
  fix w r w'
  assume run: "reconcile_project env pid w = (r, w')"
  let ?body = "op_bind (reg_read env (active_runs (en_codec env) pid)) (\<lambda>rs.
      op_bind (reconcile_runs env rs) (\<lambda>outcomes. op_bind (with_dir clear_active_run) (\<lambda>_. op_ok outcomes)))"
  have body: "keeps R ?body"
    by (intro keeps_bind keeps_read keeps_reconcile_runs keeps_ok) (simp add: keeps_def with_dir_def dir)
  show "R w w'"
  proof (cases "try_lock pid (en_process env) (w_dir w)")
    case (Inl c)
    then show ?thesis using run refl by (simp add: reconcile_project_def)
  next
    case (Inr d)
    obtain r1 w1 where b: "?body (w\<lparr>w_dir := d\<rparr>) = (r1, w1)" by fastforce
    have "R w w1" by (rule trans [OF dir keepsD [OF body b]])
    then show ?thesis using run Inr b trans [OF _ dir] by (auto simp: reconcile_project_def unlock_def)
  qed
qed

end

text \<open>A preorder that submitting respects too.\<close>

locale submitting_order = worker_order +
  assumes post: "R w (w\<lparr>w_posts := ps\<rparr>)"
begin

lemma keeps_submit:
  assumes "wc_run_id ctx = rid"
  shows "keeps_run R (submit env ctx run input history)"
  unfolding submit_def Let_def
  by (intro keeps_run_op keeps_submitted [OF assms]) (simp add: keeps_def post)

lemma keeps_execute_locked:
  assumes "wc_run_id ctx = rid"
  shows "keeps_run R (execute_locked env ctx run)"
  unfolding execute_locked_def
  by (auto simp: keeps_def refl split: option.splits
      intro!: keeps_run_op keeps_admission keeps_ending keeps_refuse append keeps_follow [OF assms]
        keeps_history keeps_submit [OF assms])

lemma keeps_execute:
  assumes "wc_run_id ctx = rid"
  shows "keeps_run R (execute_run env ctx)"
  unfolding execute_run_def
proof (intro keeps_run_op keeps_load)
  fix found
  show "keeps_run R (case found of None \<Rightarrow> ending (op_err (NoSuchRun (wc_run_id ctx)))
      | Some run \<Rightarrow> (\<lambda>w. case try_lock (wc_project_id ctx) (en_process env) (w_dir w) of
          Inl conflict \<Rightarrow> ending (refuse_conflict env (wc_run_id ctx) conflict) w
        | Inr d \<Rightarrow> map_option (\<lambda>(r, w'). (r, unlock env w')) (execute_locked env ctx run (w\<lparr>w_dir := d\<rparr>))))"
  proof (cases found)
    case None
    then show ?thesis by (auto intro: keeps_ending keeps_err)
  next
    case (Some run)
    have "R w (unlock env w1)" if "execute_locked env ctx run (w\<lparr>w_dir := d\<rparr>) = Some (r, w1)" for w d r w1
      using trans [OF dir keeps_runD [OF keeps_execute_locked [OF assms] that]] trans [OF _ dir]
      by (simp add: unlock_def)
    then show ?thesis
      using Some keeps_runD [OF keeps_ending [OF keeps_refuse]]
      by (auto simp: keeps_run_def split: sum.splits)
  qed
qed

end

section \<open>The registry evolves by registry operations\<close>

text \<open>The other tasks of the node use the registry only through its operations.\<close>

definition cooperative :: "Env \<Rightarrow> bool" where
  "cooperative env \<longleftrightarrow> (\<forall>n reg. (reg_step (en_codec env))\<^sup>*\<^sup>* reg (en_others env n reg))"

definition evolves :: "Env \<Rightarrow> World \<Rightarrow> World \<Rightarrow> bool" where
  "evolves env w w' \<longleftrightarrow> (cooperative env \<longrightarrow> (reg_step (en_codec env))\<^sup>*\<^sup>* (w_reg w) (w_reg w'))"

interpretation ev: effect_order "evolves env" for env
  by unfold_locales (auto simp: evolves_def)

lemma reg_op_cases:
  assumes "reg_op env f w = (r, w')"
  obtains (error) e where "r = Inl (RegistryFailed e)" "w' = w\<lparr>w_tick := Suc (w_tick w), w_reg := en_others env (w_tick w) (w_reg w)\<rparr>"
      "f (en_now env (w_tick w)) (en_others env (w_tick w) (w_reg w)) = Inl e"
  | (success) a reg' where "r = Inr a" "w' = w\<lparr>w_tick := Suc (w_tick w), w_reg := reg'\<rparr>"
      "f (en_now env (w_tick w)) (en_others env (w_tick w) (w_reg w)) = Inr (a, reg')"
  using assms by (auto simp: reg_op_def Let_def split: sum.splits prod.splits)

lemma evolves_reg_op:
  assumes "\<And>now reg a reg'. f now reg = Inr (a, reg') \<Longrightarrow> (reg_step (en_codec env))\<^sup>*\<^sup>* reg reg'"
  shows "keeps (evolves env) (reg_op env f)"
proof (rule keepsI)
  fix w r w'
  assume op: "reg_op env f w = (r, w')"
  show "evolves env w w'"
    using op
  proof (cases rule: reg_op_cases)
    case (success a reg')
    then show ?thesis using assms [OF success(3)] by (auto simp: evolves_def cooperative_def intro: rtranclp_trans)
  qed (auto simp: evolves_def cooperative_def)
qed

lemma evolves_append: "keeps (evolves env) (append_op env i ev upd)"
  unfolding append_op_def by (rule evolves_reg_op) (blast intro: reg_step.append)

lemma evolves_claim: "keeps (evolves env) (claim_approval env rid n payload)"
proof -
  have "keeps (evolves env) (\<lambda>w. (Inr (), w\<lparr>w_spawned := w_spawned w @ ps\<rparr>))" for ps
    by (simp add: keeps_def evolves_def)
  then show ?thesis
    unfolding claim_approval_def
    by (auto intro!: ev.keeps_bind ev.keeps_ok evolves_reg_op
        intro: r_into_rtranclp [of "reg_step (en_codec env)", OF reg_step.request]
          r_into_rtranclp [of "reg_step (en_codec env)", OF reg_step.decide]
        simp: map_sum_def split: sum.splits)
qed

interpretation ev: submitting_order "evolves env" env rid for env rid
  by unfold_locales (auto simp: evolves_append evolves_claim, auto simp: evolves_def cooperative_def)

lemma evolves_auto_resolution: "keeps (evolves env) (auto_resolution env ctx pending answer)"
proof (rule keepsI)
  fix w r w'
  assume run: "auto_resolution env ctx pending answer w = (r, w')"
  show "evolves env w w'"
  proof (cases "hermes_new (wc_base_url ctx) (wc_api_key ctx)")
    case (Inl e)
    then show ?thesis using run by (simp add: auto_resolution_def op_ok_def ev.refl)
  next
    case (Inr c)
    have resolve: "keeps (evolves env) (reg_op env (\<lambda>_ reg. Inr ((), record_approval_resolution i n m reg)))" for i n m
      by (rule evolves_reg_op) (auto intro: reg_step.resolve)
    show ?thesis
      using run Inr
      by (auto simp: auto_resolution_def Let_def split: prod.splits sum.splits
          dest: keepsD [OF evolves_append] keepsD [OF resolve] intro: ev.trans)
  qed
qed


section \<open>Submissions\<close>

definition same_posts :: "World \<Rightarrow> World \<Rightarrow> bool" where
  "same_posts w w' \<longleftrightarrow> w_posts w' = w_posts w"

interpretation sp: effect_order same_posts
  by unfold_locales (auto simp: same_posts_def)

lemma same_posts_reg_op: "keeps same_posts (reg_op env f)"
  by (rule keepsI) (auto simp: same_posts_def elim: reg_op_cases)

interpretation sp: worker_order same_posts env rid for env rid
proof unfold_locales
  show "keeps same_posts (append_op env i ev upd)" for i ev upd unfolding append_op_def by (rule same_posts_reg_op)
  have "keeps same_posts (\<lambda>w. (Inr (), w\<lparr>w_spawned := w_spawned w @ ps\<rparr>))" for ps
    by (simp add: keeps_def same_posts_def)
  then show "keeps same_posts (claim_approval env rid n payload)" for n payload
    unfolding claim_approval_def by (auto intro!: sp.keeps_bind sp.keeps_ok same_posts_reg_op)
qed (auto simp: same_posts_def)

text \<open>A worker submits nothing, or one request as the first submission after what it did before.\<close>

definition posts_once :: "World \<Rightarrow> World \<Rightarrow> bool" where
  "posts_once w w' \<longleftrightarrow> w_posts w' = w_posts w \<or> (\<exists>q. w_posts w' = w_posts w @ [q])"

lemma posts_once_run_op:
  assumes "keeps same_posts m" and "\<And>a. keeps_run posts_once (f a)"
  shows "keeps_run posts_once (run_op m f)"
  using assms(2) keepsD [OF assms(1)] unfolding keeps_run_def run_op_def posts_once_def same_posts_def
  by (fastforce split: prod.splits sum.splits)

lemma posts_once_same: "keeps_run same_posts f \<Longrightarrow> keeps_run posts_once f"
  unfolding keeps_run_def posts_once_def same_posts_def by blast

lemma posts_once_submit: "keeps_run posts_once (submit env ctx run input history)"
  using keeps_runD [OF sp.keeps_submitted [OF HOL.refl]]
  by (fastforce simp: submit_def Let_def run_op_def keeps_run_def posts_once_def same_posts_def)

lemma posts_once_history:
  assumes "\<And>h. keeps_run posts_once (cont h)"
  shows "keeps_run posts_once (history_for env ctx run cont)"
proof -
  have "keeps_run posts_once (\<lambda>_. None)" by (simp add: keeps_run_def)
  then show ?thesis
    unfolding history_for_def
    by (auto simp: assms intro!: posts_once_run_op sp.keeps_read sp.keeps_bind sp.append sp.keeps_ok split: option.splits)
qed

lemma posts_execute_locked:
  "keeps_run (if hermes_run_id run = None then posts_once else same_posts) (execute_locked env ctx run)"
proof (cases "hermes_run_id run")
  case None
  then show ?thesis
    unfolding execute_locked_def
    by (auto simp: keeps_def same_posts_def split: option.splits
        intro!: posts_once_run_op sp.keeps_admission posts_once_same [OF sp.keeps_ending [OF sp.keeps_refuse]] sp.append
          posts_once_history posts_once_submit)
next
  case (Some hid)
  then show ?thesis
    unfolding execute_locked_def
    by (auto simp: keeps_def same_posts_def split: option.splits
        intro!: sp.keeps_run_op sp.keeps_admission sp.keeps_ending sp.keeps_refuse sp.append sp.keeps_follow)
qed

text \<open>
  C23.  A task is handed to Hermes at most once by a worker, and never when it was
  handed over before: a run that already carries a backend id is only followed, and a
  worker that does not get the project lock submits nothing.
\<close>

theorem worker_never_resubmits:
  assumes "execute_run env ctx w = Some (r, w')"
  shows "(w_posts w' = w_posts w \<or> (\<exists>q. w_posts w' = w_posts w @ [q])) \<and>
    (lock_holder (w_dir w) \<noteq> None \<longrightarrow> w_posts w' = w_posts w) \<and>
    (\<forall>row. run_row (wc_run_id ctx) (en_others env (w_tick w) (w_reg w)) = Some row \<and> r_hermes_run_id row \<noteq> None \<longrightarrow>
       w_posts w' = w_posts w)"
proof -
  let ?reg = "en_others env (w_tick w) (w_reg w)"
  let ?w = "w\<lparr>w_tick := Suc (w_tick w), w_reg := ?reg\<rparr>"
  have load: "load_op env (wc_run_id ctx) w = (Inr (load_run (en_codec env) (wc_run_id ctx) ?reg), ?w)"
    by (simp add: load_op_def reg_read_def reg_op_def Let_def)
  show ?thesis
  proof (cases "run_row (wc_run_id ctx) ?reg")
    case None
    then show ?thesis using assms load by (auto simp: execute_run_def run_op_def load_run_def ending_def op_err_def)
  next
    case (Some row)
    let ?run = "map_run (en_codec env) row"
    have found: "load_run (en_codec env) (wc_run_id ctx) ?reg = Some ?run" by (simp add: load_run_def Some)
    show ?thesis
    proof (cases "try_lock (wc_project_id ctx) (en_process env) (w_dir ?w)")
      case (Inl c)
      then have "refuse_conflict env (wc_run_id ctx) c ?w = (r, w')"
        using assms load found by (simp add: execute_run_def run_op_def ending_def)
      then have "w_posts w' = w_posts w" using keepsD [OF sp.keeps_refuse, of env] by (fastforce simp: same_posts_def)
      then show ?thesis by simp
    next
      case (Inr d)
      then obtain w1 where locked: "execute_locked env ctx ?run (?w\<lparr>w_dir := d\<rparr>) = Some (r, w1)" "w' = unlock env w1"
        using assms load found by (auto simp: execute_run_def run_op_def)
      have "lock_holder (w_dir w) = None" using Inr by (simp add: try_lock_Inr)
      moreover have "r_hermes_run_id row = hermes_run_id ?run" by (simp add: map_run_def)
      ultimately show ?thesis
        using Some keeps_runD [OF posts_execute_locked locked(1)] locked(2)
        by (auto simp: posts_once_def same_posts_def unlock_def split: if_splits)
    qed
  qed
qed

end
