(* ===== verification/Runner_Outcome.thy ===== *)
theory Runner_Outcome
  imports Runner_Inv
begin

text \<open>
  What a worker reports and that it does: the outcome on record was reported by
  Hermes or is not a result, the loop ends, and approvals are resolved automatically
  only under the policy of the run.
\<close>

section \<open>Outcomes\<close>

lemma apply_update_status:
  assumes "apply_update cdc now rid u reg = Inr reg'" and "u_status u = Some s"
  shows "\<exists>r. run_row rid reg' = Some r \<and> r_status r = run_status_as_str s"
proof -
  obtain row where "run_row rid reg = Some row" "reg' = upd_run rid (updated_row cdc now u s) reg"
    using assms by (auto simp: apply_update_Inr)
  then show ?thesis
    by (auto simp: run_row_upd_run updated_row_def dest: row_by_SomeD)
qed

lemma append_event_status:
  assumes "append_event cdc now rid ev (Some u) reg = Inr (outcome, reg')" and "j_dedupe_key ev = None"
    and "u_status u = Some s"
  shows "\<exists>r. run_row rid reg' = Some r \<and> r_status r = run_status_as_str s"
  using assms by (auto simp: append_event_Inr find_duplicate_def intro: apply_update_status)

lemma op_bind_Inr: "op_bind m f w = (Inr b, w') \<longleftrightarrow> (\<exists>a w1. m w = (Inr a, w1) \<and> f a w1 = (Inr b, w'))"
  by (auto simp: op_bind_def split: prod.splits sum.splits)

lemma evolves_inv: "cooperative env \<Longrightarrow> reg_inv (en_codec env) (w_reg w) \<Longrightarrow> evolves env w w' \<Longrightarrow> reg_inv (en_codec env) (w_reg w')"
  using reg_le_steps unfolding evolves_def by blast

text \<open>A run that was finalized has the status it was finalized with, whoever looks later.\<close>

lemma finalize_status:
  assumes co: "cooperative env" and inv: "reg_inv (en_codec env) (w_reg w)"
    and fin: "finalize env rid s u payload w = (Inr rec, w')" and u: "u_status u = Some s" and s: "is_terminal s"
  shows "run_id rec = rid \<and> status rec = run_status_as_str s"
proof -
  obtain outcome w1 w2 where app: "append_op env rid (journal_asterism EVENT_RUN_TERMINAL
        (json_set ''status'' (JString (run_status_as_str s)) payload)) (Some u) w = (Inr outcome, w1)"
      and load: "load_op env rid w1 = (Inr (Some rec), w2)"
    using fin unfolding finalize_def op_bind_Inr by (auto simp: op_ok_def op_err_def split: option.splits)
  obtain r1 where r1: "run_row rid (w_reg w1) = Some r1" "r_status r1 = run_status_as_str s"
    using app unfolding append_op_def
    by (auto elim!: reg_op_cases dest!: append_event_status [OF _ _ u] simp: journal_asterism_def)
  have inv1: "reg_inv (en_codec env) (w_reg w1)" by (rule evolves_inv [OF co inv keepsD [OF evolves_append app]])
  let ?reg = "en_others env (w_tick w1) (w_reg w1)"
  have "reg_le (w_reg w1) ?reg" using co inv1 reg_le_steps unfolding cooperative_def by blast
  then obtain r2 where r2: "run_row rid ?reg = Some r2" "row_le r1 r2" using r1(1) by (rule reg_le_rowE)
  have "rec = map_run (en_codec env) r2" "run_id rec = rid"
    using load r2(1) row_by_SomeD [OF r2(1)] by (auto simp: load_op_def reg_read_def reg_op_def Let_def load_run_def)
  then show ?thesis using run_status_determined [OF r2(2) r1(2) s] by (simp add: map_run_def)
qed

text \<open>Hermes reported the status in some round.\<close>

definition hermes_reported :: "Env \<Rightarrow> RunStatus \<Rightarrow> bool" where
  "hermes_reported env s \<longleftrightarrow> (\<exists>k v. backend_value env k = Some v \<and> status_of v = Some (run_status_as_str s))"

definition honest :: "Env \<Rightarrow> string \<Rightarrow> (runner_error, RunRecord) result \<Rightarrow> bool" where
  "honest env rid r \<longleftrightarrow>
     (\<forall>rec. r = Inr rec \<longrightarrow> run_id rec = rid \<and>
        (\<exists>s. status rec = run_status_as_str s \<and> s \<in> {Completed, Failed, Cancelled, Interrupted} \<and>
           (s \<in> {Completed, Cancelled} \<longrightarrow> hermes_reported env s)))"

definition honest_run :: "Env \<Rightarrow> string \<Rightarrow> worker \<Rightarrow> bool" where
  "honest_run env rid f \<longleftrightarrow>
     (\<forall>w r w'. cooperative env \<longrightarrow> reg_inv (en_codec env) (w_reg w) \<longrightarrow> f w = Some (r, w') \<longrightarrow> honest env rid r)"

lemma honest_runD:
  "honest_run env rid f \<Longrightarrow> cooperative env \<Longrightarrow> reg_inv (en_codec env) (w_reg w) \<Longrightarrow> f w = Some (r, w') \<Longrightarrow> honest env rid r"
  unfolding honest_run_def by blast

lemma honest_error: "honest env rid (Inl e)"
  by (simp add: honest_def)

lemma honest_run_op:
  assumes "keeps (evolves env) m" and "\<And>a. honest_run env rid (f a)"
  shows "honest_run env rid (run_op m f)"
  unfolding honest_run_def run_op_def
  by (auto split: prod.splits sum.splits simp: honest_error
      dest!: keepsD [OF assms(1)] intro: honest_runD [OF assms(2)] evolves_inv)

lemma honest_finalize:
  assumes "u_status u = Some s" and "s \<in> {Completed, Failed, Cancelled, Interrupted}"
    and "s \<in> {Completed, Cancelled} \<Longrightarrow> hermes_reported env s"
    and "cooperative env" and "reg_inv (en_codec env) (w_reg w)" and "finalize env rid s u payload w = (r, w')"
  shows "honest env rid r"
proof (cases r)
  case (Inr rec)
  have "run_id rec = rid \<and> status rec = run_status_as_str s"
    by (rule finalize_status [OF assms(4,5) _ assms(1)]) (use assms(2,6) Inr in auto)
  then show ?thesis using assms(2,3) Inr by (auto simp: honest_def)
qed (simp add: honest_error)

lemma honest_fail_with:
  assumes "cooperative env" and "reg_inv (en_codec env) (w_reg w)" and "fail_with env rid s code message reason w = (r, w')"
    and "s \<in> {Failed, Interrupted}"
  shows "honest env rid r"
  using assms(3,4) unfolding fail_with_def
  by (intro honest_finalize [OF _ _ _ assms(1,2)])
     (auto simp: with_terminal_reason_def with_error_def update_status_def)

lemma reported_status_cases:
  assumes "is_terminal (reported_status v)"
  shows "reported_status v \<in> {Completed, Failed, Cancelled, Interrupted} \<and>
    (reported_status v \<in> {Completed, Failed, Cancelled} \<longrightarrow> status_of v = Some (run_status_as_str (reported_status v)))"
  using assms by (auto simp: reported_status_def from_hermes_status_def split: option.splits if_splits)

lemma honest_settle:
  assumes "cooperative env" and "reg_inv (en_codec env) (w_reg w)" and "settle env rid (reported_status v) v failure w = (r, w')"
    and "is_terminal (reported_status v)" and "backend_value env k = Some v"
  shows "honest env rid r"
proof -
  note cases = reported_status_cases [OF assms(4)]
  have rep: "hermes_reported env (reported_status v)" if "reported_status v \<in> {Completed, Cancelled}"
    unfolding hermes_reported_def using that cases assms(5) by blast
  obtain u p where fin: "finalize env rid (reported_status v) u p w = (r, w')" and u: "u_status u = Some (reported_status v)"
    using assms(3) unfolding settle_def Let_def
    by (rule that) (simp add: with_terminal_reason_def with_result_def with_error_def update_status_def split: option.splits)
  show ?thesis by (rule honest_finalize [OF u _ rep assms(1,2) fin]) (use cases in blast)+
qed

lemma honest_round:
  assumes co: "cooperative env" and inv: "reg_inv (en_codec env) (w_reg (fl_world (lp_follow l)))"
    and r: "follow_round env rid k l = Inr (r, w')"
  shows "honest env rid r"
proof -
  obtain res fl where s: "stream_events HermesFailed (on_event env rid) (ro_stream (en_rounds env k)) (lp_follow l) = (res, fl)"
    by fastforce
  have inv1: "reg_inv (en_codec env) (w_reg (fl_world fl))"
    by (rule evolves_inv [OF co inv ev.keeps_stream [OF ev.keeps_on_event s]])
  obtain q w1 where c: "current_seq env rid (fl_world fl) = (q, w1)" by fastforce
  have inv2: "reg_inv (en_codec env) (w_reg w1)" by (rule evolves_inv [OF co inv1 keepsD [OF ev.keeps_seq c]])
  show ?thesis
    using r
    by (auto simp: follow_round_def s c Let_def honest_error split: option.splits if_splits sum.splits
        intro: honest_fail_with [OF co inv1] honest_fail_with [OF co inv2] honest_settle [OF co inv1])
qed

lemma honest_loop:
  assumes "follow_loop env rid k l = Some (r, w')" and co: "cooperative env"
    and "reg_inv (en_codec env) (w_reg (fl_world (lp_follow l)))"
  shows "honest env rid r"
proof -
  have "\<forall>r w'. y = (r, w') \<longrightarrow> e = env \<longrightarrow> i = rid \<longrightarrow> reg_inv (en_codec env) (w_reg (fl_world (lp_follow l))) \<longrightarrow> honest env rid r"
    if "follow_loop e i k l = Some y" for e i k l y
    using that
  proof (rule follow_loop.raw_induct [rotated])
    fix f e i k l y
    assume IH: "\<And>e i k l y. f e i k l = Some y \<Longrightarrow> \<forall>r w'. y = (r, w') \<longrightarrow> e = env \<longrightarrow> i = rid \<longrightarrow>
        reg_inv (en_codec env) (w_reg (fl_world (lp_follow l))) \<longrightarrow> honest env rid r"
      and body: "(case follow_round e i k l of Inl l' \<Rightarrow> f e i (Suc k) l' | Inr done \<Rightarrow> Some done) = Some y"
    show "\<forall>r w'. y = (r, w') \<longrightarrow> e = env \<longrightarrow> i = rid \<longrightarrow> reg_inv (en_codec env) (w_reg (fl_world (lp_follow l))) \<longrightarrow> honest env rid r"
    proof (intro allI impI)
      fix r w'
      assume eq: "y = (r, w')" "e = env" "i = rid" and inv: "reg_inv (en_codec env) (w_reg (fl_world (lp_follow l)))"
      show "honest env rid r"
      proof (cases "follow_round env rid k l")
        case (Inl l')
        then have "reg_inv (en_codec env) (w_reg (fl_world (lp_follow l')))"
          using ev.keeps_round(1) evolves_inv [OF co inv] by blast
        then show ?thesis using IH body Inl eq by auto
      next
        case (Inr d)
        then show ?thesis using body eq honest_round [OF co inv] by auto
      qed
    qed
  qed
  with assms show ?thesis by blast
qed

lemma honest_follow: "honest_run env (wc_run_id ctx) (follow_to_terminal env ctx hid)"
  unfolding follow_to_terminal_def
  by (rule honest_run_op [OF ev.keeps_seq]) (auto simp: honest_run_def intro: honest_loop)

lemma honest_ending_refuse: "honest_run env rid (ending (refuse_conflict env rid c))"
  by (auto simp: honest_run_def ending_def refuse_conflict_def intro: honest_fail_with)

lemma honest_submit: "honest_run env (wc_run_id ctx) (submit env ctx run input history)"
proof -
  have "honest_run env (wc_run_id ctx) (ending (fail_with env (wc_run_id ctx) Failed code message reason))" for code message reason
    by (auto simp: honest_run_def ending_def intro: honest_fail_with)
  then have "honest_run env (wc_run_id ctx) (submitted env ctx run)"
    unfolding submitted_def
    by (auto simp: keeps_def with_dir_def evolves_def split: sum.splits
        intro!: honest_run_op ev.append honest_follow)
  then show ?thesis
    unfolding submit_def Let_def by (intro honest_run_op) (simp_all add: keeps_def evolves_def)
qed

lemma honest_history:
  assumes "\<And>h. honest_run env rid (cont h)"
  shows "honest_run env rid (history_for env ctx run cont)"
proof -
  have "honest_run env rid (\<lambda>_. None)" by (simp add: honest_run_def)
  then show ?thesis
    unfolding history_for_def
    by (auto simp: assms intro!: honest_run_op ev.keeps_read ev.keeps_bind ev.append ev.keeps_ok split: option.splits)
qed

lemma honest_execute_locked: "honest_run env (wc_run_id ctx) (execute_locked env ctx run)"
  unfolding execute_locked_def
  by (auto simp: keeps_def evolves_def split: option.splits
      intro!: honest_run_op ev.keeps_admission honest_ending_refuse ev.append honest_follow honest_history honest_submit)

lemma honest_execute: "honest_run env (wc_run_id ctx) (execute_run env ctx)"
  unfolding execute_run_def
proof (rule honest_run_op [OF ev.keeps_load])
  fix found
  show "honest_run env (wc_run_id ctx) (case found of None \<Rightarrow> ending (op_err (NoSuchRun (wc_run_id ctx)))
      | Some run \<Rightarrow> (\<lambda>w. case try_lock (wc_project_id ctx) (en_process env) (w_dir w) of
          Inl conflict \<Rightarrow> ending (refuse_conflict env (wc_run_id ctx) conflict) w
        | Inr d \<Rightarrow> map_option (\<lambda>(r, w'). (r, unlock env w')) (execute_locked env ctx run (w\<lparr>w_dir := d\<rparr>))))"
  proof (cases found)
    case None
    then show ?thesis by (auto simp: honest_run_def ending_def op_err_def honest_error)
  next
    case (Some run)
    have "honest env (wc_run_id ctx) r"
      if co: "cooperative env" and inv: "reg_inv (en_codec env) (w_reg w)"
        and f: "(case try_lock (wc_project_id ctx) (en_process env) (w_dir w) of
          Inl conflict \<Rightarrow> ending (refuse_conflict env (wc_run_id ctx) conflict) w
        | Inr d \<Rightarrow> map_option (\<lambda>(r, w'). (r, unlock env w')) (execute_locked env ctx run (w\<lparr>w_dir := d\<rparr>))) = Some (r, w')"
      for w r w'
    proof (cases "try_lock (wc_project_id ctx) (en_process env) (w_dir w)")
      case (Inl c)
      then show ?thesis using f honest_runD [OF honest_ending_refuse co inv] by simp
    next
      case (Inr d)
      then obtain w1 where "execute_locked env ctx run (w\<lparr>w_dir := d\<rparr>) = Some (r, w1)" using f by auto
      then show ?thesis by (rule honest_runD [OF honest_execute_locked co, rotated]) (use inv in simp)
    qed
    then show ?thesis using Some by (simp add: honest_run_def)
  qed
qed


section \<open>Workers end\<close>

text \<open>A round whose answer ends the loop: Hermes lost the run, or calls it finished.\<close>

definition decisive :: "Env \<Rightarrow> nat \<Rightarrow> bool" where
  "decisive env k \<longleftrightarrow> (case backend_value env k of None \<Rightarrow> True | Some v \<Rightarrow> is_terminal (reported_status v))"

definition seq_of :: "string \<Rightarrow> Registry \<Rightarrow> int" where
  "seq_of rid reg = (case run_row rid reg of Some r \<Rightarrow> r_last_event_seq r | None \<Rightarrow> 0)"

text \<open>From round \<open>j\<close> on nothing more is journalled for the run, while time goes on.\<close>

definition silent_from :: "Env \<Rightarrow> string \<Rightarrow> nat \<Rightarrow> bool" where
  "silent_from env rid j \<longleftrightarrow>
     (\<forall>k \<ge> j. \<exists>a. ro_stream (en_rounds env k) = StreamRefused a) \<and>
     (\<forall>n reg. seq_of rid (en_others env n reg) = seq_of rid reg) \<and>
     (\<forall>t. \<exists>k \<ge> j. t \<le> ro_checked_at (en_rounds env k))"

lemma round_decisive: "decisive env k \<Longrightarrow> \<exists>d. follow_round env rid k l = Inr d"
  by (auto simp: decisive_def follow_round_def Let_def split: prod.splits option.splits)

lemma loop_decisive: "decisive env (k + n) \<Longrightarrow> \<exists>d. follow_loop env rid k l = Some d"
proof (induction n arbitrary: k l)
  case 0
  then show ?case using round_decisive [of env k rid l] by (auto simp: follow_loop.simps [of env rid k])
next
  case (Suc n)
  then show ?case
    using Suc.IH [of "Suc k"] by (cases "follow_round env rid k l") (auto simp: follow_loop.simps [of env rid k])
qed

lemma current_seq_eq:
  "current_seq env rid w =
     (Inr (seq_of rid (en_others env (w_tick w) (w_reg w))), w\<lparr>w_tick := Suc (w_tick w), w_reg := en_others env (w_tick w) (w_reg w)\<rparr>)"
  by (simp add: current_seq_def load_op_def reg_read_def reg_op_def op_bind_def op_ok_def Let_def seq_of_def
      load_run_def map_run_def split: option.splits)

text \<open>A round of a silent run: it ends, or nothing but the time changed.\<close>

abbreviation loop_seq :: "string \<Rightarrow> Loop \<Rightarrow> int" where
  "loop_seq rid l \<equiv> seq_of rid (w_reg (fl_world (lp_follow l)))"

lemma silent_round:
  assumes "silent_from env rid j" and "j \<le> k" and "follow_round env rid k l = Inl l'"
  shows "loop_seq rid l' = loop_seq rid l \<and> lp_last_seq l' = loop_seq rid l \<and>
    (lp_last_seq l = loop_seq rid l \<longrightarrow> lp_last_progress l' = lp_last_progress l) \<and>
    ro_checked_at (en_rounds env k) < lp_last_progress l' + STREAM_IDLE_BUDGET"
proof -
  obtain a where a: "ro_stream (en_rounds env k) = StreamRefused a" using assms(1,2) by (auto simp: silent_from_def)
  obtain res where s: "stream_events HermesFailed (on_event env rid) (StreamRefused a) (lp_follow l) = (res, lp_follow l)"
    by (cases a) (auto simp: stream_events_def)
  have same: "seq_of rid (en_others env n reg) = seq_of rid reg" for n reg using assms(1) by (simp add: silent_from_def)
  show ?thesis
    using assms(3)
    by (auto simp: follow_round_def a s Let_def current_seq_eq same split: option.splits if_splits)
qed

lemma loop_silent_from_here:
  assumes silent: "silent_from env rid j" and "j \<le> k" and "lp_last_seq l = loop_seq rid l"
    and "lp_last_progress l + STREAM_IDLE_BUDGET \<le> ro_checked_at (en_rounds env (k + n))"
  shows "\<exists>d. follow_loop env rid k l = Some d"
  using assms(2-4)
proof (induction n arbitrary: k l)
  case 0
  show ?case
  proof (cases "follow_round env rid k l")
    case (Inl l')
    then show ?thesis using silent_round [OF silent 0(1) Inl] 0(2,3) by simp
  qed (simp add: follow_loop.simps [of env rid k])
next
  case (Suc n)
  show ?case
  proof (cases "follow_round env rid k l")
    case (Inl l')
    note r = silent_round [OF silent Suc.prems(1) Inl]
    have "\<exists>d. follow_loop env rid (Suc k) l' = Some d"
      by (rule Suc.IH) (use r Suc.prems in auto)
    then show ?thesis by (simp add: follow_loop.simps [of env rid k] Inl)
  qed (simp add: follow_loop.simps [of env rid k])
qed

lemma loop_silent_later:
  assumes silent: "silent_from env rid j" and "j \<le> k" and later: "\<And>t. \<exists>n. t \<le> ro_checked_at (en_rounds env (Suc k + n))"
  shows "\<exists>d. follow_loop env rid k l = Some d"
proof (cases "follow_round env rid k l")
  case (Inl l')
  note r = silent_round [OF silent assms(2) Inl]
  obtain n where n: "lp_last_progress l' + STREAM_IDLE_BUDGET \<le> ro_checked_at (en_rounds env (Suc k + n))" using later by blast
  have "\<exists>d. follow_loop env rid (Suc k) l' = Some d"
    by (rule loop_silent_from_here [OF silent _ _ n]) (use assms(2) r in auto)
  then show ?thesis by (simp add: follow_loop.simps [of env rid k] Inl)
qed (simp add: follow_loop.simps [of env rid k])

lemma silent_time: 
  assumes "silent_from env rid j"
  shows "\<exists>n. t \<le> ro_checked_at (en_rounds env (Suc m + n))"
proof -
  let ?bound = "Max (insert t (ro_checked_at ` en_rounds env ` {..m}))"
  obtain k where k: "Suc ?bound \<le> ro_checked_at (en_rounds env k)" using assms unfolding silent_from_def by blast
  have "\<not> k \<le> m"
  proof
    assume "k \<le> m"
    then have "ro_checked_at (en_rounds env k) \<le> ?bound" by (intro Max_ge) auto
    then show False using k by simp
  qed
  moreover have "t \<le> ?bound" by (intro Max_ge) auto
  ultimately show ?thesis using k by (intro exI [of _ "k - Suc m"]) auto
qed

lemma loop_silent: "silent_from env rid j \<Longrightarrow> \<exists>d. follow_loop env rid k l = Some d"
proof (induction "j - k" arbitrary: k l)
  case 0
  then show ?case using loop_silent_later [OF 0(2)] silent_time [OF 0(2)] by simp
next
  case (Suc n)
  then have "n = j - Suc k" by simp
  then show ?case
    using Suc by (cases "follow_round env rid k l") (auto simp: follow_loop.simps [of env rid k])
qed

definition settles :: "Env \<Rightarrow> string \<Rightarrow> bool" where
  "settles env rid \<longleftrightarrow> (\<exists>k. decisive env k) \<or> (\<exists>j. silent_from env rid j)"

lemma loop_ends: "settles env rid \<Longrightarrow> \<exists>r w'. follow_loop env rid 0 l = Some (r, w')"
  unfolding settles_def using loop_decisive [of env 0 _ rid l] loop_silent [of env rid _ 0 l] by (metis add_0 surj_pair)

text \<open>Computations that return on every registry the node can be in.\<close>

definition reachable :: "Env \<Rightarrow> World \<Rightarrow> bool" where
  "reachable env w \<longleftrightarrow> (reg_step (en_codec env))\<^sup>*\<^sup>* empty_registry (w_reg w)"

definition returns :: "Env \<Rightarrow> worker \<Rightarrow> bool" where
  "returns env f \<longleftrightarrow> (\<forall>w. cooperative env \<longrightarrow> reachable env w \<longrightarrow> f w \<noteq> None)"

lemma reachable_evolves: "cooperative env \<Longrightarrow> reachable env w \<Longrightarrow> evolves env w w' \<Longrightarrow> reachable env w'"
  unfolding reachable_def evolves_def by (blast intro: rtranclp_trans)

lemma returns_run_op:
  assumes "keeps (evolves env) m" and "\<And>a. returns env (f a)"
  shows "returns env (run_op m f)"
  unfolding returns_def run_op_def
proof (intro allI impI)
  fix w assume co: "cooperative env" and re: "reachable env w"
  obtain r w' where m: "m w = (r, w')" by fastforce
  then have "reachable env w'" using reachable_evolves [OF co re] keepsD [OF assms(1)] by blast
  then show "(case m w of (Inl e, w') \<Rightarrow> Some (Inl e, w') | (Inr a, w') \<Rightarrow> f a w') \<noteq> None"
    using m co assms(2) unfolding returns_def by (cases r) auto
qed

lemma returns_ending: "returns env (ending m)"
  by (simp add: returns_def ending_def)

lemma returns_follow: "settles env (wc_run_id ctx) \<Longrightarrow> returns env (follow_to_terminal env ctx hid)"
  unfolding follow_to_terminal_def
  by (rule returns_run_op [OF ev.keeps_seq]) (auto simp: returns_def intro: loop_ends)

lemma returns_submit: "settles env (wc_run_id ctx) \<Longrightarrow> returns env (submit env ctx run input history)"
  unfolding submit_def submitted_def Let_def
  by (auto simp: keeps_def with_dir_def evolves_def split: sum.splits
      intro!: returns_run_op ev.append returns_follow returns_ending)

lemma build_on_reachable:
  assumes "(reg_step cdc)\<^sup>*\<^sup>* empty_registry reg"
  shows "build len (list_runs cdc pid n reg) sid current limits \<noteq> None"
  using build_ends [OF list_runs_ranked [OF assms]] by (auto simp: build_def collect_turns_def)

lemma returns_history:
  assumes "\<And>h. returns env (cont h)"
  shows "returns env (history_for env ctx run cont)"
proof (cases "session_id run")
  case (Some sid)
  have rest: "returns env (run_op (if truncated built
        then op_bind (append_op env (wc_run_id ctx) (truncation_event built (wc_history_limits ctx)) None) (\<lambda>_. op_ok ())
        else op_ok ()) (\<lambda>_. cont built))" for built
    by (auto simp: assms intro!: returns_run_op ev.keeps_bind ev.append ev.keeps_ok)
  show ?thesis
    unfolding returns_def
  proof (intro allI impI)
    fix w assume co: "cooperative env" and re: "reachable env w"
    let ?reg = "en_others env (w_tick w) (w_reg w)"
    let ?w = "w\<lparr>w_tick := Suc (w_tick w), w_reg := ?reg\<rparr>"
    have read: "reg_read env f w = (Inr (f ?reg), ?w)" for f :: "Registry \<Rightarrow> RunRecord list"
      by (simp add: reg_read_def reg_op_def Let_def)
    have re': "reachable env ?w" using reachable_evolves [OF co re keepsD [OF ev.keeps_read read]] .
    then have "build (en_size env) (list_runs (en_codec env) (project_id run) HISTORY_SCAN_LIMIT ?reg) sid (run_id run) (wc_history_limits ctx) \<noteq> None"
      by (intro build_on_reachable) (simp add: reachable_def)
    then show "history_for env ctx run cont w \<noteq> None"
      using rest co re' unfolding returns_def by (auto simp: history_for_def Some run_op_def [of "reg_read env _"] read)
  qed
qed (simp add: history_for_def assms)

lemma returns_execute_locked: "settles env (wc_run_id ctx) \<Longrightarrow> returns env (execute_locked env ctx run)"
  unfolding execute_locked_def
  by (auto simp: keeps_def evolves_def split: option.splits
      intro!: returns_run_op ev.keeps_admission returns_ending ev.append returns_follow returns_history returns_submit)


end
