(* ===== verification/Runner_Claims.thy ===== *)
theory Runner_Claims
  imports Runner_Outcome
begin

text \<open>
  Approvals that a worker answers on its own: when, how often, and with what.
\<close>

section \<open>Claims\<close>

text \<open>
  How a pending resolution came about between two worlds: at one moment the registry
  held a bypassing policy for the run, later the decision was recorded as the first
  one for its request, and then the task was spawned.
\<close>

definition claim_of :: "codec \<Rightarrow> string \<Rightarrow> World \<Rightarrow> World \<Rightarrow> PendingAutoResolution \<Rightarrow> bool" where
  "claim_of cdc rid w w' p \<longleftrightarrow>
     (\<exists>reg st reg1 reg2 now.
        (reg_step cdc)\<^sup>*\<^sup>* (w_reg w) reg \<and> run_approval_policy rid reg = Inr st \<and> bypasses_approval (rp_policy st) \<and>
        rp_enabled_by st = pa_enabled_by p \<and> (reg_step cdc)\<^sup>*\<^sup>* reg reg1 \<and>
        record_approval_decision now rid (pa_request_seq p) AUTO_APPROVAL_CHOICE reg1 = (True, reg2) \<and>
        (reg_step cdc)\<^sup>*\<^sup>* reg2 (w_reg w'))"

definition claims :: "Env \<Rightarrow> string \<Rightarrow> World \<Rightarrow> World \<Rightarrow> bool" where
  "claims env rid w w' \<longleftrightarrow>
     (cooperative env \<and> reg_inv (en_codec env) (w_reg w) \<longrightarrow>
        (reg_step (en_codec env))\<^sup>*\<^sup>* (w_reg w) (w_reg w') \<and>
        (\<exists>ps. w_spawned w' = w_spawned w @ ps \<and> distinct (map pa_request_seq ps) \<and>
              (\<forall>p \<in> set ps. claim_of (en_codec env) rid w w' p)))"

lemma claim_of_mono:
  assumes "claim_of cdc rid w w' p" and "(reg_step cdc)\<^sup>*\<^sup>* (w_reg v) (w_reg w)" and "(reg_step cdc)\<^sup>*\<^sup>* (w_reg w') (w_reg v')"
  shows "claim_of cdc rid v v' p"
  using assms unfolding claim_of_def by (meson rtranclp_trans)

lemma claim_of_decision:
  assumes "claim_of cdc rid w w' p"
  obtains reg1 reg2 now where "(reg_step cdc)\<^sup>*\<^sup>* (w_reg w) reg1"
    "record_approval_decision now rid (pa_request_seq p) AUTO_APPROVAL_CHOICE reg1 = (True, reg2)"
    "(reg_step cdc)\<^sup>*\<^sup>* reg2 (w_reg w')"
  using assms unfolding claim_of_def by (elim exE conjE) (rule that, erule (1) rtranclp_trans)

text \<open>A request that was claimed cannot be claimed again later.\<close>

lemma claims_differ:
  assumes "reg_inv cdc (w_reg a)" and "claim_of cdc rid a b p" and "claim_of cdc rid b c q"
  shows "pa_request_seq p \<noteq> pa_request_seq q"
proof
  assume same: "pa_request_seq p = pa_request_seq q"
  obtain reg1 reg2 now where p: "(reg_step cdc)\<^sup>*\<^sup>* (w_reg a) reg1"
      "record_approval_decision now rid (pa_request_seq p) AUTO_APPROVAL_CHOICE reg1 = (True, reg2)"
      "(reg_step cdc)\<^sup>*\<^sup>* reg2 (w_reg b)"
    using assms(2) by (rule claim_of_decision)
  obtain reg3 reg4 now' where q: "(reg_step cdc)\<^sup>*\<^sup>* (w_reg b) reg3"
      "record_approval_decision now' rid (pa_request_seq q) AUTO_APPROVAL_CHOICE reg3 = (True, reg4)"
    using assms(3) by (rule claim_of_decision)
  have inv1: "reg_inv cdc reg1" using reg_le_steps [OF p(1) assms(1)] by simp
  have "record_approval_decision now' rid (pa_request_seq p) AUTO_APPROVAL_CHOICE reg3 = (False, reg3)"
    using decision_is_final [OF inv1 p(2)] rtranclp_trans [OF p(3) q(1)] by blast
  then show False using q(2) same by simp
qed

lemma claims_trans:
  assumes "claims env rid a b" and "claims env rid b c"
  shows "claims env rid a c"
  unfolding claims_def
proof (intro impI)
  assume pre: "cooperative env \<and> reg_inv (en_codec env) (w_reg a)"
  then obtain ps where ab: "(reg_step (en_codec env))\<^sup>*\<^sup>* (w_reg a) (w_reg b)"
      and ps: "w_spawned b = w_spawned a @ ps" "distinct (map pa_request_seq ps)" "\<forall>p \<in> set ps. claim_of (en_codec env) rid a b p"
    using assms(1) unfolding claims_def by blast
  have "reg_inv (en_codec env) (w_reg b)" using reg_le_steps [OF ab] pre by blast
  then obtain qs where bc: "(reg_step (en_codec env))\<^sup>*\<^sup>* (w_reg b) (w_reg c)"
      and qs: "w_spawned c = w_spawned b @ qs" "distinct (map pa_request_seq qs)" "\<forall>p \<in> set qs. claim_of (en_codec env) rid b c p"
    using assms(2) pre unfolding claims_def by blast
  have "distinct (map pa_request_seq (ps @ qs))"
    using ps(2,3) qs(2,3) claims_differ [of "en_codec env" a rid b _ c] pre by fastforce
  moreover have "\<forall>p \<in> set (ps @ qs). claim_of (en_codec env) rid a c p"
    using ps(3) qs(3) claim_of_mono [of "en_codec env" rid a b _ a c] claim_of_mono [of "en_codec env" rid b c _ a c] ab bc by auto
  ultimately show "(reg_step (en_codec env))\<^sup>*\<^sup>* (w_reg a) (w_reg c) \<and>
      (\<exists>ps. w_spawned c = w_spawned a @ ps \<and> distinct (map pa_request_seq ps) \<and> (\<forall>p \<in> set ps. claim_of (en_codec env) rid a c p))"
    using ps(1) qs(1) rtranclp_trans [OF ab bc] by (metis append.assoc)
qed

interpretation cl: effect_order "claims env rid" for env rid
  by unfold_locales (auto simp: claims_def [of _ _ w w for w] intro: claims_trans)

text \<open>Effects that spawn nothing.\<close>

lemma claims_quiet: "evolves env w w' \<Longrightarrow> w_spawned w' = w_spawned w \<Longrightarrow> claims env rid w w'"
  unfolding claims_def evolves_def by auto

lemma reg_op_spawned: "reg_op env f w = (r, w') \<Longrightarrow> w_spawned w' = w_spawned w"
  by (auto elim: reg_op_cases)

lemma claims_reg_op: "keeps (evolves env) (reg_op env f) \<Longrightarrow> keeps (claims env rid) (reg_op env f)"
  by (rule keepsI) (auto intro: claims_quiet dest: keepsD reg_op_spawned)

lemma claims_append: "keeps (claims env rid) (append_op env i ev upd)"
  using claims_reg_op [OF evolves_append [unfolded append_op_def]] unfolding append_op_def .

text \<open>The claim itself: the policy is read, then the decision is recorded, then the task is spawned.\<close>

definition decide_op :: "Env \<Rightarrow> string \<Rightarrow> int \<Rightarrow> bool op" where
  "decide_op env rid n = reg_op env (\<lambda>now reg. Inr (record_approval_decision (now 0) rid n AUTO_APPROVAL_CHOICE reg))"

definition policy_op :: "Env \<Rightarrow> string \<Rightarrow> RunPolicyState op" where
  "policy_op env rid = reg_op env (\<lambda>_ reg. map_sum id (\<lambda>st. (st, reg)) (run_approval_policy rid reg))"

lemma evolves_decide: "keeps (evolves env) (decide_op env rid n)"
  unfolding decide_op_def
  by (rule evolves_reg_op) (auto intro: r_into_rtranclp [of "reg_step (en_codec env)", OF reg_step.decide])

lemma evolves_policy: "keeps (evolves env) (policy_op env rid)"
  unfolding policy_op_def by (rule evolves_reg_op) (auto simp: map_sum_def split: sum.splits)

lemma claims_spawn:
  assumes pol: "policy_op env rid w = (Inr st, w1)" and dec: "decide_op env rid n w1 = (Inr True, w2)"
    and bypass: "bypasses_approval (rp_policy st)"
  shows "claims env rid w (w2\<lparr>w_spawned := w_spawned w2 @ [\<lparr>pa_request_seq = n, pa_enabled_by = rp_enabled_by st\<rparr>]\<rparr>)"
  unfolding claims_def
proof (intro impI)
  let ?w = "w2\<lparr>w_spawned := w_spawned w2 @ [\<lparr>pa_request_seq = n, pa_enabled_by = rp_enabled_by st\<rparr>]\<rparr>"
  let ?steps = "(reg_step (en_codec env))\<^sup>*\<^sup>*"
  assume pre: "cooperative env \<and> reg_inv (en_codec env) (w_reg w)"
  have "evolves env w w2" using keepsD [OF evolves_policy pol] keepsD [OF evolves_decide dec] by (rule ev.trans)
  then have all: "?steps (w_reg w) (w_reg ?w)" using pre by (simp add: evolves_def)
  have p: "run_approval_policy rid (w_reg w1) = Inr st" "?steps (w_reg w) (w_reg w1)"
    using pol pre unfolding policy_op_def cooperative_def
    by (auto elim!: reg_op_cases simp: map_sum_def split: sum.splits)
  obtain now where d: "record_approval_decision now rid n AUTO_APPROVAL_CHOICE (en_others env (w_tick w1) (w_reg w1)) = (True, w_reg w2)"
    using dec unfolding decide_op_def by (auto elim!: reg_op_cases)
  have o: "?steps (w_reg w1) (en_others env (w_tick w1) (w_reg w1))" using pre by (simp add: cooperative_def)
  have "claim_of (en_codec env) rid w ?w \<lparr>pa_request_seq = n, pa_enabled_by = rp_enabled_by st\<rparr>"
    unfolding claim_of_def using p bypass o d
    by (intro exI [of _ "w_reg w1"] exI [of _ st] exI [of _ "en_others env (w_tick w1) (w_reg w1)"]
        exI [of _ "w_reg w2"] exI [of _ now]) simp
  moreover have "w_spawned w2 = w_spawned w"
    using reg_op_spawned [OF pol [unfolded policy_op_def]] reg_op_spawned [OF dec [unfolded decide_op_def]] by simp
  ultimately show "?steps (w_reg w) (w_reg ?w) \<and> (\<exists>ps. w_spawned ?w = w_spawned w @ ps \<and> distinct (map pa_request_seq ps) \<and>
      (\<forall>p \<in> set ps. claim_of (en_codec env) rid w ?w p))"
    using all by (intro conjI exI [of _ "[\<lparr>pa_request_seq = n, pa_enabled_by = rp_enabled_by st\<rparr>]"]) simp_all
qed

lemma claims_decision:
  "keeps (claims env rid) (op_bind (policy_op env rid) (\<lambda>policy.
     if bypasses_approval (rp_policy policy) then
       op_bind (decide_op env rid n) (\<lambda>claimed.
         if claimed then (\<lambda>w. (Inr (), w\<lparr>w_spawned := w_spawned w @
             [\<lparr>pa_request_seq = n, pa_enabled_by = rp_enabled_by policy\<rparr>]\<rparr>))
         else op_ok ())
     else op_ok ()))"
proof (rule keepsI)
  fix w r w'
  assume run: "op_bind (policy_op env rid) (\<lambda>policy.
     if bypasses_approval (rp_policy policy) then
       op_bind (decide_op env rid n) (\<lambda>claimed.
         if claimed then (\<lambda>w. (Inr (), w\<lparr>w_spawned := w_spawned w @
             [\<lparr>pa_request_seq = n, pa_enabled_by = rp_enabled_by policy\<rparr>]\<rparr>))
         else op_ok ())
     else op_ok ()) w = (r, w')"
  obtain rp w1 where pol: "policy_op env rid w = (rp, w1)" by fastforce
  obtain rd w2 where dec: "decide_op env rid n w1 = (rd, w2)" by fastforce
  have q1: "claims env rid w w1"
    using claims_quiet [OF keepsD [OF evolves_policy pol]] reg_op_spawned [OF pol [unfolded policy_op_def]] .
  have q2: "claims env rid w1 w2"
    using claims_quiet [OF keepsD [OF evolves_decide dec]] reg_op_spawned [OF dec [unfolded decide_op_def]] .
  show "claims env rid w w'"
    using run pol dec q1 cl.trans [OF q1 q2] claims_spawn [of env rid w _ w1 n w2]
    by (cases rp; cases rd) (auto simp: op_bind_def op_ok_def split: if_splits)
qed

lemma claims_claim: "keeps (claims env rid) (claim_approval env rid n payload)"
proof -
  have "keeps (claims env rid) (reg_op env (\<lambda>now reg.
         map_sum id (\<lambda>reg'. ((), reg')) (record_approval_request (en_codec env) (now 0) rid n
           (Option.bind (json_get ''command'' payload) as_str) (supported_choices (json_get ''choices'' payload)) reg)))"
    by (intro claims_reg_op evolves_reg_op)
       (auto simp: map_sum_def split: sum.splits intro: r_into_rtranclp [of "reg_step (en_codec env)", OF reg_step.request])
  then show ?thesis
    unfolding claim_approval_def policy_op_def [symmetric] decide_op_def [symmetric]
    by (rule cl.keeps_bind) (rule claims_decision)
qed

interpretation cl: submitting_order "claims env rid" env rid for env rid
proof unfold_locales
  show "claims env rid w (w\<lparr>w_tick := Suc (w_tick w), w_reg := en_others env (w_tick w) (w_reg w)\<rparr>)" for w
    by (rule claims_quiet) (auto simp: evolves_def cooperative_def)
qed (auto simp: claims_append claims_claim evolves_def intro!: claims_quiet)

text \<open>
  C26.  Approvals are answered automatically only under the policy of the run, and
  each at most once.  For every resolution a worker spawns there was a moment at which
  the registry held a bypassing policy for its run, enabled by the operator the
  resolution names; the decision was then recorded as the first one for that request,
  always the one-time choice, and it is still on record at the end.  No request is
  resolved twice, even across reconnects that replay the same frames and while
  operators decide concurrently.
\<close>

theorem auto_approval_is_authorized:
  assumes "cooperative env" and "reg_inv (en_codec env) (w_reg w)" and "execute_run env ctx w = Some (r, w')"
  shows "\<exists>ps. w_spawned w' = w_spawned w @ ps \<and> distinct (map pa_request_seq ps) \<and>
    (\<forall>p \<in> set ps. claim_of (en_codec env) (wc_run_id ctx) w w' p \<and>
       (\<exists>a \<in> set (approvals (wc_run_id ctx) (w_reg w')). a_request_seq a = pa_request_seq p \<and> a_decision a = Some ''once''))"
proof -
  obtain ps where ps: "w_spawned w' = w_spawned w @ ps" "distinct (map pa_request_seq ps)"
      "\<forall>p \<in> set ps. claim_of (en_codec env) (wc_run_id ctx) w w' p"
    using keeps_runD [OF cl.keeps_execute [OF HOL.refl] assms(3)] assms(1,2) unfolding claims_def by blast
  have "\<exists>a \<in> set (approvals (wc_run_id ctx) (w_reg w')). a_request_seq a = pa_request_seq p \<and> a_decision a = Some ''once''"
    if mem: "p \<in> set ps" for p
  proof -
    obtain reg1 reg2 now where c: "(reg_step (en_codec env))\<^sup>*\<^sup>* (w_reg w) reg1"
        "record_approval_decision now (wc_run_id ctx) (pa_request_seq p) AUTO_APPROVAL_CHOICE reg1 = (True, reg2)"
        "(reg_step (en_codec env))\<^sup>*\<^sup>* reg2 (w_reg w')"
      using bspec [OF ps(3) mem] by (rule claim_of_decision)
    have "reg_inv (en_codec env) reg1" using reg_le_steps [OF c(1) assms(2)] by simp
    from decision_is_final [OF this c(2,3)] show ?thesis by (auto simp: AUTO_APPROVAL_CHOICE_def)
  qed
  with ps show ?thesis by blast
qed

end
