(* ===== verification/Runner_Demo.thy ===== *)
theory Runner_Demo
  imports Runner_Claims
begin

text \<open>
  One execution to evaluate the theorems about workers on: a run under a bypassing
  policy is submitted, asks for an approval, is approved automatically and completes.
\<close>

definition demo_codec :: codec where
  "demo_codec = \<lparr>to_string = (\<lambda>_. ''{}''), from_str = (\<lambda>s.
     if s = ''S'' then Some (JObject [(''run_id'', JString ''h1''), (''status'', JString ''started'')])
     else if s = ''R'' then Some (JObject [(''status'', JString ''running'')])
     else if s = ''C'' then Some (JObject [(''status'', JString ''completed'')])
     else None)\<rparr>"

definition demo_rows :: "RunRow list" where
  "demo_rows = [policy_row 6 AllowAllForRun (Some ''op'') (new_row demo_codec 5 ''run_1'' demo_request)]"

definition demo_registry :: Registry where
  "demo_registry = empty_registry\<lparr>runs := demo_rows\<rparr>"

definition demo_round :: "nat \<Rightarrow> Round" where
  "demo_round k =
     (if k = 0 then \<lparr>ro_stream = Streaming [''event: approval.req'', ''uest'' @ [CHR 0x0A] @ ''data: x'' @ [CHR 0x0A, CHR 0x0A]] True,
         ro_status = Answered 200 ''200 OK'' ''R'', ro_progress_at = 11, ro_checked_at = 11\<rparr>
      else \<lparr>ro_stream = Streaming [] False, ro_status = Answered 200 ''200 OK'' ''C'', ro_progress_at = 12, ro_checked_at = 12\<rparr>)"

definition demo_env :: Env where
  "demo_env = \<lparr>en_codec = demo_codec, en_active = wire_active, en_process = 0, en_now = (\<lambda>n k. int n),
     en_others = (\<lambda>_ reg. reg), en_size = length, en_text = (\<lambda>_. ''error''),
     en_status = (\<lambda>_ _. Unreachable), en_start = Answered 202 ''202 Accepted'' ''S'', en_started_at = 10,
     en_rounds = demo_round\<rparr>"

definition demo_ctx :: WorkerContext where
  "demo_ctx = \<lparr>wc_project_id = ''p'', wc_run_id = ''run_1'', wc_base_url = ''http://127.0.0.1:8642/'',
     wc_api_key = ''0123456789abcdef'', wc_history_limits = limits_default\<rparr>"

definition demo_world :: World where
  "demo_world = \<lparr>w_reg = demo_registry, w_dir = \<lparr>lock_holder = None, active_file = None\<rparr>, w_tick = 0,
     w_posts = [], w_spawned = []\<rparr>"

definition demo_ends :: "((runner_error, RunRecord) result \<times> World) option \<Rightarrow> bool" where
  "demo_ends x = (case x of
     Some (Inr rec, w') \<Rightarrow> status rec = ''completed'' \<and> length (w_posts w') = 1 \<and>
        map pa_request_seq (w_spawned w') = [3] \<and> lock_holder (w_dir w') = None \<and> active_file (w_dir w') = None
   | _ \<Rightarrow> False)"

lemma demo_codec_simps:
  "to_string demo_codec v = ''{}''"
  "from_str demo_codec ''S'' = Some (JObject [(''run_id'', JString ''h1''), (''status'', JString ''started'')])"
  "from_str demo_codec ''R'' = Some (JObject [(''status'', JString ''running'')])"
  "from_str demo_codec ''C'' = Some (JObject [(''status'', JString ''completed'')])"
  "from_str demo_codec ''{}'' = None" "from_str demo_codec ''x'' = None"
  by (simp_all add: demo_codec_def)

lemma demo_frames:
  "push sse_default (from_utf8_lossy ''event: approval.req'') =
     (\<lparr>buffer = ''event: approval.req'', event_name = None, data_lines = []\<rparr>, [])"
  "push \<lparr>buffer = ''event: approval.req'', event_name = None, data_lines = []\<rparr>
      (from_utf8_lossy (''uest'' @ [CHR 0x0A] @ ''data: x'' @ [CHR 0x0A, CHR 0x0A])) =
     (\<lparr>buffer = [], event_name = None, data_lines = []\<rparr>, [\<lparr>sse_event = Some ''approval.request'', sse_data = ''x''\<rparr>])"
  "finish sse_default = None"
  by code_simp+

lemma demo_env_simps:
  "en_codec demo_env = demo_codec" "en_active demo_env = wire_active" "en_process demo_env = 0"
  "en_now demo_env n = (\<lambda>k. int n)" "en_others demo_env = (\<lambda>_ reg. reg)" "en_size demo_env = length"
  "en_text demo_env e = ''error''" "en_start demo_env = Answered 202 ''202 Accepted'' ''S''"
  "en_started_at demo_env = 10" "en_rounds demo_env = demo_round"
  by (simp_all add: demo_env_def)

lemmas demo_defs = demo_env_simps demo_ctx_def demo_world_def demo_registry_def demo_rows_def demo_request_def
  demo_codec_simps demo_frames [simplified]

lemmas run_defs = execute_run_def run_op_def load_op_def reg_read_def reg_op_def Let_def load_run_def map_run_def
  try_lock_def flock_exclusive_nonblocking_def execute_locked_def hermes_new_def trim_end_slashes_def admission_op_def read_active_run_def
  append_op_def append_event_def find_duplicate_def journal_asterism_def row_by_def empty_registry_def new_row_def policy_row_def insert_event_def
  apply_update_def update_status_def update_default_def update_where_def updated_row_def run_status_parse_def validate_transition_def
  request_input_def from_str_or_null_def parse_def history_for_def submit_def submitted_def start_run_def hermes_json_def is_success_def with_hermes_run_id_def
  hermes_input_def

lemmas follow_defs = follow_to_terminal_def current_seq_def op_bind_def op_ok_def op_err_def
  follow_loop.simps [of demo_env "''run_1''" 0] follow_loop.simps [of demo_env "''run_1''" "Suc 0"] follow_round_def demo_round_def stream_events_def
  on_event_def normalize_event_def status_update_for_def journal_frame_def hermes_event_def claim_approval_def record_approval_request_def
  run_approval_policy_def policy_parse_def record_approval_decision_def undecided_def count_where_def
  supported_choices_def backend_value_def try_run_status_def reported_status_def status_of_def from_hermes_status_def STREAM_IDLE_BUDGET_def
  settle_def finalize_def with_terminal_reason_def with_result_def clear_active_run_def record_active_run_def unlock_def release_def

lemma demo_executes: "demo_ends (execute_run demo_env demo_ctx demo_world)"
  by (simp add: demo_ends_def demo_defs run_defs follow_defs)

lemma demo_result:
  obtains rec w' where "execute_run demo_env demo_ctx demo_world = Some (Inr rec, w')"
    "status rec = ''completed''" "length (w_posts w') = 1" "map pa_request_seq (w_spawned w') = [3]"
  using demo_executes unfolding demo_ends_def by (auto split: option.splits prod.splits sum.splits)

lemma demo_cooperative: "cooperative demo_env"
  by (simp add: cooperative_def demo_env_simps)

lemma demo_reachable: "(reg_step (en_codec demo_env))\<^sup>*\<^sup>* empty_registry (w_reg demo_world)"
proof -
  let ?reg = "empty_registry\<lparr>runs := [new_row demo_codec 5 ''run_1'' demo_request]\<rparr>"
  have "create_run demo_codec 5 ''run_1'' demo_request empty_registry =
      Inr (NewlyCreated (map_run demo_codec (new_row demo_codec 5 ''run_1'' demo_request)), ?reg)"
    by (simp add: create_run_def find_idempotent_def demo_request_def empty_registry_def row_by_def Let_def)
  then have "reg_step demo_codec empty_registry ?reg" by (rule reg_step.create)
  moreover have "set_run_approval_policy demo_codec 6 ''run_1'' AllowAllForRun (Some ''op'') ?reg = Inr (True, demo_registry)"
    by (simp add: set_run_approval_policy_def load_run_def row_by_def record_status_def map_run_def run_status_parse_def
        run_approval_policy_def policy_parse_def empty_registry_def demo_registry_def demo_rows_def update_where_def
        new_row_def)
  then have "reg_step demo_codec ?reg demo_registry" by (rule reg_step.policy)
  ultimately show ?thesis by (simp add: demo_env_simps demo_world_def)
qed

lemma demo_registry_inv: "reg_inv (en_codec demo_env) (w_reg demo_world)"
  using demo_reachable by (rule reg_sys.inv_reachable)


theorem worker_never_resubmits_witness:
  "\<exists>r w' q. execute_run demo_env demo_ctx demo_world = Some (r, w') \<and> w_posts w' = [q]"
proof -
  obtain rec w' where run: "execute_run demo_env demo_ctx demo_world = Some (Inr rec, w')" "length (w_posts w') = 1" by (rule demo_result)
  then show ?thesis using worker_never_resubmits [OF run(1)] by (auto simp: demo_world_def)
qed



theorem auto_approval_is_authorized_witness:
  "\<exists>r w' p. execute_run demo_env demo_ctx demo_world = Some (r, w') \<and> p \<in> set (w_spawned w') \<and>
     (\<exists>a \<in> set (approvals ''run_1'' (w_reg w')). a_request_seq a = 3 \<and> a_decision a = Some ''once'')"
proof -
  obtain rec w' where run: "execute_run demo_env demo_ctx demo_world = Some (Inr rec, w')" "map pa_request_seq (w_spawned w') = [3]"
    by (rule demo_result)
  then obtain p where p: "w_spawned w' = [p]" "pa_request_seq p = 3" by auto
  have "\<exists>a \<in> set (approvals ''run_1'' (w_reg w')). a_request_seq a = 3 \<and> a_decision a = Some ''once''"
    using auto_approval_is_authorized [OF demo_cooperative demo_registry_inv run(1)] p
    by (auto simp: demo_world_def demo_ctx_def)
  then show ?thesis using run(1) p(1) by (intro exI [of _ "Inr rec"] exI [of _ w'] exI [of _ p]) simp
qed

end
