(* ===== verification/Inventory.thy ===== *)
theory Inventory
  imports Registry_History Hermes
begin

text \<open>
  \<open>src/src/inventory.rs\<close>: the projects a node acts on.  The table \<open>projects\<close> is a list
  of rows with the constraints of the migrations: the id is the primary key, and
  workspaces, Hermes homes and Hermes profiles are unique.  What the file system says
  about a workspace, which ports are occupied and what other connections do between
  two statements are arguments.  The identifier checks come from
  \<open>src/src/service.rs\<close>, \<open>src/src/credentials.rs\<close> and \<open>src/src/providercaps.rs\<close>.
\<close>

section \<open>Identifiers\<close>

datatype identifier_error = BadLength string | BadCharacter string | HasDotDot string

definition validate_identifier :: "string \<Rightarrow> string \<Rightarrow> (identifier_error, unit) result" where
  "validate_identifier field value =
     (if value = [] \<or> length value > 128 then Inl (BadLength field)
      else if \<not> list_all (\<lambda>c. is_ascii_alphanumeric c \<or> c \<in> {CHR ''-'', CHR ''_'', CHR ''.''}) value
      then Inl (BadCharacter field)
      else if str_contains ''..'' value then Inl (HasDotDot field)
      else Inr ())"

definition CREDENTIAL_MAX_ID_LENGTH :: nat where "CREDENTIAL_MAX_ID_LENGTH = 64"

definition is_safe_token :: "string \<Rightarrow> bool" where
  "is_safe_token value \<longleftrightarrow> value \<noteq> [] \<and> list_all (\<lambda>c. is_ascii_lower c \<or> is_ascii_digit c \<or> c = CHR ''-'') value"

datatype id_error = IdLength | IdAlphabet

definition validate_credential_id :: "string \<Rightarrow> (id_error, unit) result" where
  "validate_credential_id i =
     (if i = [] \<or> length i > CREDENTIAL_MAX_ID_LENGTH then Inl IdLength
      else if \<not> is_safe_token i then Inl IdAlphabet
      else Inr ())"

definition MODEL_MAX_ID_LENGTH :: nat where "MODEL_MAX_ID_LENGTH = 64"

definition validate_model_id :: "string \<Rightarrow> (id_error, unit) result" where
  "validate_model_id i =
     (if i = [] \<or> length i > MODEL_MAX_ID_LENGTH then Inl IdLength
      else if \<not> list_all (\<lambda>c. is_ascii_alphanumeric c \<or> c \<in> {CHR ''.'', CHR ''-'', CHR ''_'', CHR '':''}) i
      then Inl IdAlphabet
      else Inr ())"

section \<open>Ownership and provisioning states\<close>

datatype RuntimeOwnership = ManagedContainer | External

datatype ownership_error = UnknownOwnership string

fun ownership_as_str :: "RuntimeOwnership \<Rightarrow> string" where
  "ownership_as_str ManagedContainer = ''managed_container''"
| "ownership_as_str External = ''external''"

definition ownership_parse :: "string \<Rightarrow> (ownership_error, RuntimeOwnership) result" where
  "ownership_parse value =
     (if value = ''managed_container'' then Inr ManagedContainer
      else if value = ''external'' then Inr External
      else Inl (UnknownOwnership value))"

fun owns_container :: "RuntimeOwnership \<Rightarrow> bool" where
  "owns_container ManagedContainer = True"
| "owns_container External = False"

datatype ProfileState = Pending | Provisioning | Ready | ProfileFailed | Disabled

datatype profile_error = UnknownProfileState string

fun profile_as_str :: "ProfileState \<Rightarrow> string" where
  "profile_as_str Pending = ''pending''"
| "profile_as_str Provisioning = ''provisioning''"
| "profile_as_str Ready = ''ready''"
| "profile_as_str ProfileFailed = ''failed''"
| "profile_as_str Disabled = ''disabled''"

definition profile_parse :: "string \<Rightarrow> (profile_error, ProfileState) result" where
  "profile_parse value =
     (if value = ''pending'' then Inr Pending
      else if value = ''provisioning'' then Inr Provisioning
      else if value = ''ready'' then Inr Ready
      else if value = ''failed'' then Inr ProfileFailed
      else if value = ''disabled'' then Inr Disabled
      else Inl (UnknownProfileState value))"

fun runnable :: "ProfileState \<Rightarrow> bool" where
  "runnable Ready = True"
| "runnable _ = False"

interpretation ownership: string_enum ownership_as_str ownership_parse
proof
  fix x show "ownership_parse (ownership_as_str x) = Inr x" by (cases x) (simp_all add: ownership_parse_def)
next
  fix s x show "ownership_parse s = Inr x \<Longrightarrow> ownership_as_str x = s" by (auto simp: ownership_parse_def split: if_splits)
qed

interpretation profile: string_enum profile_as_str profile_parse
proof
  fix x show "profile_parse (profile_as_str x) = Inr x" by (cases x) (simp_all add: profile_parse_def)
next
  fix s x show "profile_parse s = Inr x \<Longrightarrow> profile_as_str x = s" by (auto simp: profile_parse_def split: if_splits)
qed

section \<open>Projects\<close>

record ProjectRow =
  p_project_id :: string
  p_workspace_path :: string
  p_display_name :: string
  p_enabled :: bool
  p_created_at :: int
  p_metadata :: "string option"
  p_runtime_endpoint :: "string option"
  p_runtime_ownership :: string
  p_hermes_home :: "string option"
  p_hermes_profile :: "string option"
  p_hermes_api_key_ref :: "string option"
  p_profile_state :: string
  p_profile_failure :: "string option"
  p_credential_id :: "string option"
  p_model :: "string option"
  p_suspended_at :: "int option"

record RegisteredProject =
  rp_project_id :: string
  rp_workspace_path :: string
  rp_display_name :: string
  rp_is_enabled :: bool
  rp_created_at :: int
  rp_metadata :: "json option"
  rp_credential_id :: "string option"
  rp_model :: "string option"
  rp_suspended_at :: "int option"
  rp_runtime_endpoint :: "string option"
  rp_runtime_ownership :: RuntimeOwnership
  rp_hermes_home :: "string option"
  rp_hermes_profile :: "string option"
  rp_hermes_api_key_ref :: "string option"
  rp_profile_state :: ProfileState
  rp_profile_failure :: "string option"

datatype inventory_error =
    InvalidIdentifier identifier_error
  | WorkspaceUnreachable
  | WorkspaceNotDirectory string
  | WorkspaceIsRoot
  | AlreadyRegistered string
  | NotRegistered string
  | EndpointEmpty
  | EndpointScheme string
  | EndpointWhitespace
  | EndpointRequired string
  | UniqueViolation string
  | CorruptProfile profile_error
  | CorruptOwnership ownership_error
  | RunActive string string
  | InvalidCredentialId id_error
  | InvalidModelId id_error
  | NoFreePort nat nat string
  | RangeKeptChanging string

type_synonym projects = "ProjectRow list"

abbreviation project_row :: "string \<Rightarrow> projects \<Rightarrow> ProjectRow option" where
  "project_row pid t \<equiv> row_by p_project_id pid t"

definition map_project :: "codec \<Rightarrow> ProjectRow \<Rightarrow> (inventory_error, RegisteredProject) result" where
  "map_project cdc r =
     (case profile_parse (p_profile_state r) of
        Inl e \<Rightarrow> Inl (CorruptProfile e)
      | Inr st \<Rightarrow>
          (case ownership_parse (p_runtime_ownership r) of
             Inl e \<Rightarrow> Inl (CorruptOwnership e)
           | Inr ow \<Rightarrow> Inr
               \<lparr>rp_project_id = p_project_id r, rp_workspace_path = p_workspace_path r,
                rp_display_name = p_display_name r, rp_is_enabled = p_enabled r, rp_created_at = p_created_at r,
                rp_metadata = Option.bind (p_metadata r) (from_str cdc), rp_credential_id = p_credential_id r,
                rp_model = p_model r, rp_suspended_at = p_suspended_at r, rp_runtime_endpoint = p_runtime_endpoint r,
                rp_runtime_ownership = ow, rp_hermes_home = p_hermes_home r, rp_hermes_profile = p_hermes_profile r,
                rp_hermes_api_key_ref = p_hermes_api_key_ref r, rp_profile_state = st,
                rp_profile_failure = p_profile_failure r\<rparr>))"

definition json_of_value_opt :: "json option \<Rightarrow> json" where
  "json_of_value_opt v = (case v of Some x \<Rightarrow> x | None \<Rightarrow> JNull)"

definition remote_view :: "RegisteredProject \<Rightarrow> json" where
  "remote_view p = json_object
     [(''project_id'', JString (rp_project_id p)), (''display_name'', JString (rp_display_name p)),
      (''enabled'', JBool (rp_is_enabled p)), (''created_at'', json_of_int (rp_created_at p)),
      (''runtime_ownership'', JString (ownership_as_str (rp_runtime_ownership p))),
      (''profile_state'', JString (profile_as_str (rp_profile_state p))),
      (''profile_failure'', json_of_opt (rp_profile_failure p)), (''model'', json_of_opt (rp_model p)),
      (''metadata'', json_of_value_opt (rp_metadata p))]"

definition project :: "codec \<Rightarrow> string \<Rightarrow> projects \<Rightarrow> (inventory_error, RegisteredProject option) result" where
  "project cdc pid t =
     (case project_row pid t of
        None \<Rightarrow> Inr None
      | Some r \<Rightarrow> map_sum id Some (map_project cdc r))"

definition list_projects :: "codec \<Rightarrow> projects \<Rightarrow> (inventory_error, RegisteredProject list) result" where
  "list_projects cdc t = map_result (map_project cdc) (sort_key p_project_id t)"

definition validate_runtime_endpoint :: "string \<Rightarrow> (inventory_error, unit) result" where
  "validate_runtime_endpoint endpoint =
     (let trimmed = trim endpoint in
      if trimmed = [] then Inl EndpointEmpty
      else if \<not> (starts_with ''http://'' trimmed \<or> starts_with ''https://'' trimmed) then Inl (EndpointScheme trimmed)
      else if contains_ws trimmed then Inl EndpointWhitespace
      else Inr ())"

text \<open>The row \<open>register_project\<close> inserts.\<close>

definition new_project ::
  "codec \<Rightarrow> int \<Rightarrow> string \<Rightarrow> string \<Rightarrow> string option \<Rightarrow> json option \<Rightarrow> string option \<Rightarrow> RuntimeOwnership \<Rightarrow> ProjectRow" where
  "new_project cdc now pid canonical name metadata endpoint ownership =
     \<lparr>p_project_id = pid, p_workspace_path = canonical,
      p_display_name = (case name of Some n \<Rightarrow> n | None \<Rightarrow> pid), p_enabled = True, p_created_at = now,
      p_metadata = map_option (to_string cdc) metadata, p_runtime_endpoint = endpoint,
      p_runtime_ownership = ownership_as_str ownership, p_hermes_home = None, p_hermes_profile = None,
      p_hermes_api_key_ref = None, p_profile_state = profile_as_str Pending, p_profile_failure = None,
      p_credential_id = None, p_model = None, p_suspended_at = None\<rparr>"

text \<open>\<open>workspace\<close> is the canonical path and whether it is a directory, when it can be resolved.\<close>

definition register_project ::
  "codec \<Rightarrow> int \<Rightarrow> string \<Rightarrow> (string \<times> bool) option \<Rightarrow> string option \<Rightarrow> json option \<Rightarrow> string option \<Rightarrow> RuntimeOwnership
     \<Rightarrow> projects \<Rightarrow> (inventory_error, RegisteredProject \<times> projects) result" where
  "register_project cdc now pid workspace name metadata endpoint ownership t =
     (case validate_identifier ''project_id'' pid of
        Inl e \<Rightarrow> Inl (InvalidIdentifier e)
      | Inr _ \<Rightarrow>
          (case workspace of
             None \<Rightarrow> Inl WorkspaceUnreachable
           | Some (canonical, is_dir) \<Rightarrow>
               if \<not> is_dir then Inl (WorkspaceNotDirectory canonical)
               else if canonical = ''/'' then Inl WorkspaceIsRoot
               else if project_row pid t \<noteq> None then Inl (AlreadyRegistered pid)
               else rbind (case endpoint of Some e \<Rightarrow> validate_runtime_endpoint e | None \<Rightarrow> Inr ()) (\<lambda>_.
                 if ownership = External \<and> endpoint = None then Inl (EndpointRequired pid)
                 else if canonical \<in> p_workspace_path ` set t then Inl (UniqueViolation ''projects.workspace_path'')
                 else
                   let row = new_project cdc now pid canonical name metadata endpoint ownership
                   in rbind (map_project cdc row) (\<lambda>p. Inr (p, t @ [row])))))"

definition unregister_project :: "codec \<Rightarrow> string \<Rightarrow> Registry \<Rightarrow> projects \<Rightarrow> (inventory_error, projects) result" where
  "unregister_project cdc pid reg t =
     rbind (project cdc pid t) (\<lambda>p.
       case p of
         None \<Rightarrow> Inl (NotRegistered pid)
       | Some _ \<Rightarrow>
           (case active_runs cdc pid reg of
              run # _ \<Rightarrow> Inl (RunActive (run_id run) (status run))
            | [] \<Rightarrow> Inr (filter (\<lambda>r. p_project_id r \<noteq> pid) t)))"

text \<open>\<open>UPDATE projects SET ... WHERE project_id = ?1\<close>, refused when no row changed.\<close>

definition update_project :: "string \<Rightarrow> (ProjectRow \<Rightarrow> ProjectRow) \<Rightarrow> projects \<Rightarrow> (inventory_error, projects) result" where
  "update_project pid f t =
     (if project_row pid t = None then Inl (NotRegistered pid)
      else Inr (update_where (\<lambda>r. p_project_id r = pid) f t))"

definition runtime_row :: "string \<Rightarrow> string \<Rightarrow> string \<Rightarrow> string \<Rightarrow> ProfileState \<Rightarrow> ProjectRow \<Rightarrow> ProjectRow" where
  "runtime_row home profile endpoint key_ref state r =
     r\<lparr>p_hermes_home := Some home, p_hermes_profile := Some profile, p_runtime_endpoint := Some endpoint,
       p_hermes_api_key_ref := Some key_ref, p_profile_state := profile_as_str state, p_profile_failure := None\<rparr>"

definition set_profile_runtime ::
  "string \<Rightarrow> string \<Rightarrow> string \<Rightarrow> string \<Rightarrow> string \<Rightarrow> ProfileState \<Rightarrow> projects \<Rightarrow> (inventory_error, projects) result" where
  "set_profile_runtime pid home profile endpoint key_ref state t =
     rbind (validate_runtime_endpoint endpoint) (\<lambda>_.
       if (\<exists>r \<in> set t. p_project_id r = pid) \<and> (\<exists>r \<in> set t. p_project_id r \<noteq> pid \<and> p_hermes_profile r = Some profile)
       then Inl (UniqueViolation ''projects.hermes_profile'')
       else if (\<exists>r \<in> set t. p_project_id r = pid) \<and> (\<exists>r \<in> set t. p_project_id r \<noteq> pid \<and> p_hermes_home r = Some home)
       then Inl (UniqueViolation ''projects.hermes_home'')
       else update_project pid (runtime_row home profile endpoint key_ref state) t)"

definition set_profile_state :: "string \<Rightarrow> ProfileState \<Rightarrow> string option \<Rightarrow> projects \<Rightarrow> (inventory_error, projects) result" where
  "set_profile_state pid state failure t =
     update_project pid (\<lambda>r. r\<lparr>p_profile_state := profile_as_str state, p_profile_failure := failure\<rparr>) t"

definition bind_existing_profile ::
  "string \<Rightarrow> string \<Rightarrow> string \<Rightarrow> string \<Rightarrow> string \<Rightarrow> projects \<Rightarrow> (inventory_error, bool \<times> projects) result" where
  "bind_existing_profile pid home profile endpoint key_ref t =
     (case project_row pid t of
        None \<Rightarrow> Inl (NotRegistered pid)
      | Some r \<Rightarrow>
          if p_hermes_home r \<noteq> None then Inr (False, t)
          else rbind (set_profile_runtime pid home profile endpoint key_ref Ready t) (\<lambda>t'. Inr (True, t')))"

definition allocated_endpoints :: "projects \<Rightarrow> string list" where
  "allocated_endpoints t = List.map_filter p_runtime_endpoint t"

section \<open>Ports\<close>

text \<open>\<open>u16::from_str\<close>: decimal digits with an optional plus sign, in range.\<close>

definition parse_u16 :: "string \<Rightarrow> nat option" where
  "parse_u16 s =
     (let digits = (case strip_prefix ''+'' s of Some d \<Rightarrow> d | None \<Rightarrow> s);
          n = foldl (\<lambda>acc c. acc * 10 + (of_char c - 48)) 0 digits
      in if digits \<noteq> [] \<and> list_all is_ascii_digit digits \<and> n < 65536 then Some n else None)"

definition endpoint_port :: "string \<Rightarrow> nat option" where
  "endpoint_port endpoint =
     parse_u16 (trim_end_slashes (rev (takeWhile (\<lambda>c. c \<noteq> CHR '':'') (rev endpoint))))"

definition port_endpoint :: "nat \<Rightarrow> string" where
  "port_endpoint port = ''http://127.0.0.1:'' @ show_nat port"

definition taken_ports :: "nat list \<Rightarrow> projects \<Rightarrow> nat list" where
  "taken_ports held t = held @ List.map_filter endpoint_port (allocated_endpoints t)"

definition candidate_port :: "nat \<Rightarrow> nat \<Rightarrow> nat list \<Rightarrow> (nat \<Rightarrow> bool) \<Rightarrow> projects \<Rightarrow> nat option" where
  "candidate_port lo hi held occupied t =
     find (\<lambda>port. port \<notin> set (taken_ports held t) \<and> \<not> occupied port) [lo..<Suc hi]"

text \<open>The conditional \<open>UPDATE\<close> that claims the port, and whether it changed a row.\<close>

definition claim_endpoint :: "string \<Rightarrow> string \<Rightarrow> projects \<Rightarrow> bool \<times> projects" where
  "claim_endpoint pid endpoint t =
     (if (\<exists>r \<in> set t. p_runtime_endpoint r = Some endpoint) then (False, t)
      else ((\<exists>r \<in> set t. p_project_id r = pid \<and> p_runtime_endpoint r = None),
            update_where (\<lambda>r. p_project_id r = pid \<and> p_runtime_endpoint r = None)
              (\<lambda>r. r\<lparr>p_runtime_endpoint := Some endpoint\<rparr>) t))"

text \<open>
  The attempts of \<open>reserve_endpoint\<close>.  \<open>others k\<close> is what other connections do to the
  table before the \<open>k\<close>-th statement.
\<close>

fun reserve_attempts ::
  "string \<Rightarrow> nat \<Rightarrow> nat \<Rightarrow> nat list \<Rightarrow> (nat \<Rightarrow> nat \<Rightarrow> bool) \<Rightarrow> (nat \<Rightarrow> projects \<Rightarrow> projects) \<Rightarrow> nat \<Rightarrow> nat \<Rightarrow> projects
     \<Rightarrow> (inventory_error, string) result \<times> projects" where
  "reserve_attempts pid lo hi held occupied others k 0 t = (Inl (RangeKeptChanging pid), t)"
| "reserve_attempts pid lo hi held occupied others k (Suc n) t =
     (let t1 = others (2 * k) t in
      case project_row pid t1 of
        None \<Rightarrow> (Inl (NotRegistered pid), t1)
      | Some r \<Rightarrow>
          (case p_runtime_endpoint r of
             Some endpoint \<Rightarrow> (Inr endpoint, t1)
           | None \<Rightarrow>
               (case candidate_port lo hi held (occupied k) t1 of
                  None \<Rightarrow> (Inl (NoFreePort lo hi pid), t1)
                | Some port \<Rightarrow>
                    (case claim_endpoint pid (port_endpoint port) (others (2 * k + 1) t1) of
                       (True, t2) \<Rightarrow> (Inr (port_endpoint port), t2)
                     | (False, t2) \<Rightarrow> reserve_attempts pid lo hi held occupied others (Suc k) n t2))))"

definition reserve_endpoint ::
  "string \<Rightarrow> nat \<Rightarrow> nat \<Rightarrow> nat list \<Rightarrow> (nat \<Rightarrow> nat \<Rightarrow> bool) \<Rightarrow> (nat \<Rightarrow> projects \<Rightarrow> projects) \<Rightarrow> projects
     \<Rightarrow> (inventory_error, string) result \<times> projects" where
  "reserve_endpoint pid lo hi held occupied others t =
     reserve_attempts pid lo hi held occupied others 0 (max (Suc hi - lo) 1) t"

definition release_endpoint :: "string \<Rightarrow> projects \<Rightarrow> projects" where
  "release_endpoint pid t =
     update_where (\<lambda>r. p_project_id r = pid \<and> p_profile_state r \<noteq> ''ready'') (\<lambda>r. r\<lparr>p_runtime_endpoint := None\<rparr>) t"

section \<open>Selections\<close>

definition resolve_remote_project :: "codec \<Rightarrow> string \<Rightarrow> projects \<Rightarrow> (inventory_error, RegisteredProject option) result" where
  "resolve_remote_project cdc pid t =
     (if \<not> is_ok (validate_identifier ''project_id'' pid) then Inr None
      else rbind (project cdc pid t) (\<lambda>p. Inr (case p of
          Some q \<Rightarrow> if rp_is_enabled q then Some q else None
        | None \<Rightarrow> None)))"

definition set_project_credential :: "string \<Rightarrow> string option \<Rightarrow> projects \<Rightarrow> (inventory_error, projects) result" where
  "set_project_credential pid credential t =
     rbind (case credential of Some i \<Rightarrow> map_sum InvalidCredentialId id (validate_credential_id i) | None \<Rightarrow> Inr ()) (\<lambda>_.
       update_project pid (\<lambda>r. r\<lparr>p_credential_id := credential\<rparr>) t)"

definition set_project_model :: "string \<Rightarrow> string option \<Rightarrow> projects \<Rightarrow> (inventory_error, projects) result" where
  "set_project_model pid chosen t =
     rbind (case chosen of Some i \<Rightarrow> map_sum InvalidModelId id (validate_model_id i) | None \<Rightarrow> Inr ()) (\<lambda>_.
       update_project pid (\<lambda>r. r\<lparr>p_model := chosen\<rparr>) t)"

definition set_project_suspended :: "string \<Rightarrow> int option \<Rightarrow> projects \<Rightarrow> (inventory_error, projects) result" where
  "set_project_suspended pid at t = update_project pid (\<lambda>r. r\<lparr>p_suspended_at := at\<rparr>) t"

definition projects_using_credential :: "string \<Rightarrow> projects \<Rightarrow> string list" where
  "projects_using_credential credential t =
     sort (map p_project_id (filter (\<lambda>r. p_credential_id r = Some credential) t))"

definition set_project_runtime_endpoint ::
  "codec \<Rightarrow> string \<Rightarrow> string option \<Rightarrow> projects \<Rightarrow> (inventory_error, RegisteredProject \<times> projects) result" where
  "set_project_runtime_endpoint cdc pid endpoint t =
     rbind (case endpoint of Some e \<Rightarrow> validate_runtime_endpoint e | None \<Rightarrow> Inr ()) (\<lambda>_.
       rbind (update_project pid (\<lambda>r. r\<lparr>p_runtime_endpoint := endpoint\<rparr>) t) (\<lambda>t'.
         rbind (project cdc pid t') (\<lambda>p.
           case p of Some q \<Rightarrow> Inr (q, t') | None \<Rightarrow> Inl (NotRegistered pid))))"

section \<open>Binding projects of older nodes\<close>

definition default_profile_name :: "string \<Rightarrow> string" where
  "default_profile_name pid =
     ''asterism-project-'' @ take 48 (map (\<lambda>c. if is_ascii_alphanumeric c then to_ascii_lower c else CHR ''-'') pid)"

text \<open>The loop of \<open>NodeService::bind_existing_profiles\<close>; errors of one project are passed over.\<close>

fun bind_projects :: "string \<Rightarrow> string \<Rightarrow> RegisteredProject list \<Rightarrow> projects \<Rightarrow> string list \<times> projects" where
  "bind_projects home base_url [] t = ([], t)"
| "bind_projects home base_url (p # ps) t =
     (if rp_hermes_home p \<noteq> None then bind_projects home base_url ps t
      else case bind_existing_profile (rp_project_id p) home (default_profile_name (rp_project_id p)) base_url [] t of
          Inr (True, t') \<Rightarrow> (case bind_projects home base_url ps t' of (bound, t2) \<Rightarrow> (rp_project_id p # bound, t2))
        | _ \<Rightarrow> bind_projects home base_url ps t)"

definition bind_existing_profiles :: "codec \<Rightarrow> string \<Rightarrow> string \<Rightarrow> projects \<Rightarrow> string list \<times> projects" where
  "bind_existing_profiles cdc home base_url t =
     (case list_projects cdc t of
        Inl _ \<Rightarrow> ([], t)
      | Inr ps \<Rightarrow> bind_projects home base_url ps t)"

end
