(* ===== verification/Inventory_Inv.thy ===== *)
theory Inventory_Inv
  imports Inventory
begin

text \<open>
  The inventory over time: what every row satisfies, that ports are handed out once,
  and what binding the projects of an older node does.
\<close>

section \<open>The invariant\<close>

definition row_valid :: "ProjectRow \<Rightarrow> bool" where
  "row_valid r \<longleftrightarrow>
     is_ok (validate_identifier ''project_id'' (p_project_id r)) \<and>
     is_ok (profile_parse (p_profile_state r)) \<and> is_ok (ownership_parse (p_runtime_ownership r)) \<and>
     (case p_runtime_endpoint r of Some e \<Rightarrow> is_ok (validate_runtime_endpoint e) | None \<Rightarrow> True) \<and>
     (case p_credential_id r of Some i \<Rightarrow> is_ok (validate_credential_id i) | None \<Rightarrow> True) \<and>
     (case p_model r of Some m \<Rightarrow> is_ok (validate_model_id m) | None \<Rightarrow> True)"

text \<open>No two projects share a value of the column.\<close>

definition unique_col :: "(ProjectRow \<Rightarrow> string option) \<Rightarrow> projects \<Rightarrow> bool" where
  "unique_col f t \<longleftrightarrow> (\<forall>r \<in> set t. \<forall>s \<in> set t. \<forall>v. f r = Some v \<longrightarrow> f s = Some v \<longrightarrow> p_project_id r = p_project_id s)"

definition inv_ok :: "projects \<Rightarrow> bool" where
  "inv_ok t \<longleftrightarrow>
     distinct (map p_project_id t) \<and> distinct (map p_workspace_path t) \<and>
     unique_col p_hermes_home t \<and> unique_col p_hermes_profile t \<and> (\<forall>r \<in> set t. row_valid r)"

lemma unique_colI:
  "(\<And>r s v. r \<in> set t \<Longrightarrow> s \<in> set t \<Longrightarrow> f r = Some v \<Longrightarrow> f s = Some v \<Longrightarrow> p_project_id r = p_project_id s) \<Longrightarrow> unique_col f t"
  unfolding unique_col_def by blast

lemma unique_colD:
  "unique_col f t \<Longrightarrow> r \<in> set t \<Longrightarrow> s \<in> set t \<Longrightarrow> f r = Some v \<Longrightarrow> f s = Some v \<Longrightarrow> p_project_id r = p_project_id s"
  unfolding unique_col_def by blast

lemma unique_col_mono: "unique_col f t \<Longrightarrow> (\<And>r. r \<in> set t' \<Longrightarrow> f r \<noteq> None \<Longrightarrow> r \<in> set t) \<Longrightarrow> unique_col f t'"
  by (rule unique_colI) (erule unique_colD; force)

text \<open>An update of one project that keeps its identity and its unique columns.\<close>

definition keeps_place :: "(ProjectRow \<Rightarrow> ProjectRow) \<Rightarrow> bool" where
  "keeps_place f \<longleftrightarrow> (\<forall>r. p_project_id (f r) = p_project_id r \<and> p_workspace_path (f r) = p_workspace_path r \<and>
     p_hermes_home (f r) = p_hermes_home r \<and> p_hermes_profile (f r) = p_hermes_profile r)"

lemma unique_col_update:
  assumes "unique_col g t" and "\<And>r. g (f r) = g r" and "\<And>r. p_project_id (f r) = p_project_id r"
  shows "unique_col g (update_where p f t)"
proof (rule unique_colI)
  fix r s v
  assume r: "r \<in> set (update_where p f t)" and s: "s \<in> set (update_where p f t)" and v: "g r = Some v" "g s = Some v"
  obtain r0 s0 where r0: "r0 \<in> set t" "r = (if p r0 then f r0 else r0)" and s0: "s0 \<in> set t" "s = (if p s0 then f s0 else s0)"
    using r s by (auto simp: set_update_where)
  have "g r0 = Some v" "g s0 = Some v" using v r0(2) s0(2) assms(2) by (auto split: if_splits)
  then have "p_project_id r0 = p_project_id s0" using unique_colD [OF assms(1) r0(1) s0(1)] by blast
  then show "p_project_id r = p_project_id s" using r0(2) s0(2) assms(3) by simp
qed

lemma inv_ok_update:
  assumes inv: "inv_ok t" and f: "keeps_place f" and valid: "\<And>r. r \<in> set t \<Longrightarrow> p r \<Longrightarrow> row_valid r \<Longrightarrow> row_valid (f r)"
  shows "inv_ok (update_where p f t)"
  unfolding inv_ok_def
proof (intro conjI ballI)
  have ids: "\<And>r. p_project_id (f r) = p_project_id r" and ws: "\<And>r. p_workspace_path (f r) = p_workspace_path r"
    and hs: "\<And>r. p_hermes_home (f r) = p_hermes_home r" and ps: "\<And>r. p_hermes_profile (f r) = p_hermes_profile r"
    using f by (simp_all add: keeps_place_def)
  show "distinct (map p_project_id (update_where p f t))" using inv by (simp add: inv_ok_def map_key_update_where ids)
  show "distinct (map p_workspace_path (update_where p f t))" using inv by (simp add: inv_ok_def map_key_update_where ws)
  show "unique_col p_hermes_home (update_where p f t)" by (rule unique_col_update) (use inv hs ids in \<open>auto simp: inv_ok_def\<close>)
  show "unique_col p_hermes_profile (update_where p f t)" by (rule unique_col_update) (use inv ps ids in \<open>auto simp: inv_ok_def\<close>)
  show "row_valid r" if "r \<in> set (update_where p f t)" for r
    using that inv valid by (auto simp: inv_ok_def set_update_where)
qed

lemma update_project_Inr:
  "update_project pid f t = Inr t' \<longleftrightarrow> project_row pid t \<noteq> None \<and> t' = update_where (\<lambda>r. p_project_id r = pid) f t"
  by (auto simp: update_project_def)

lemma inv_ok_update_project:
  "inv_ok t \<Longrightarrow> update_project pid f t = Inr t' \<Longrightarrow> keeps_place f \<Longrightarrow> (\<And>r. row_valid r \<Longrightarrow> row_valid (f r)) \<Longrightarrow> inv_ok t'"
  by (auto simp: update_project_Inr intro: inv_ok_update)

section \<open>Every operation keeps it\<close>

lemma row_valid_new_project:
  assumes "validate_identifier ''project_id'' pid = Inr u"
    and "case endpoint of Some e \<Rightarrow> is_ok (validate_runtime_endpoint e) | None \<Rightarrow> True"
  shows "row_valid (new_project cdc now pid canonical name metadata endpoint ownership)"
  using assms by (simp add: row_valid_def new_project_def profile.parse_as_str ownership.parse_as_str del: profile_as_str.simps)

lemma register_project_Inr:
  assumes "register_project cdc now pid workspace name metadata endpoint ownership t = Inr (p, t')"
  obtains canonical row u where "t' = t @ [row]" "row = new_project cdc now pid canonical name metadata endpoint ownership"
    "project_row pid t = None" "canonical \<notin> p_workspace_path ` set t" "validate_identifier ''project_id'' pid = Inr u"
    "case endpoint of Some e \<Rightarrow> is_ok (validate_runtime_endpoint e) | None \<Rightarrow> True"
  using assms
  by (auto simp: register_project_def rbind_eq_Inr Let_def split: sum.splits option.splits prod.splits if_splits)

lemma inv_ok_register:
  assumes inv: "inv_ok t" and reg: "register_project cdc now pid workspace name metadata endpoint ownership t = Inr (p, t')"
  shows "inv_ok t'"
proof -
  obtain canonical row u where row: "t' = t @ [row]" "row = new_project cdc now pid canonical name metadata endpoint ownership"
      "project_row pid t = None" "canonical \<notin> p_workspace_path ` set t" "validate_identifier ''project_id'' pid = Inr u"
      "case endpoint of Some e \<Rightarrow> is_ok (validate_runtime_endpoint e) | None \<Rightarrow> True"
    using reg by (rule register_project_Inr)
  have fields: "p_project_id row = pid" "p_workspace_path row = canonical" "p_hermes_home row = None" "p_hermes_profile row = None"
    by (simp_all add: row(2) new_project_def)
  have "row_valid row" unfolding row(2) by (rule row_valid_new_project [OF row(5,6)])
  moreover have "unique_col p_hermes_home t'" "unique_col p_hermes_profile t'"
    by (rule unique_col_mono [of _ t]; use inv row(1) fields in \<open>auto simp: inv_ok_def\<close>)+
  ultimately show ?thesis using inv row(1,3,4) fields by (auto simp: inv_ok_def row_by_None)
qed

lemma inv_ok_filter: "inv_ok t \<Longrightarrow> inv_ok (filter q t)"
  using unique_col_mono [of _ t "filter q t"] by (simp add: inv_ok_def distinct_map_filter)

lemma inv_ok_unregister: "inv_ok t \<Longrightarrow> unregister_project cdc pid reg t = Inr t' \<Longrightarrow> inv_ok t'"
  by (auto simp: unregister_project_def rbind_eq_Inr inv_ok_filter split: option.splits list.splits)

lemma unique_col_set:
  assumes "unique_col g t" and "distinct (map p_project_id t)"
    and "\<not> (\<exists>r \<in> set t. p_project_id r \<noteq> pid \<and> g r = Some v)"
    and "\<And>r. g (f r) = Some v" and "\<And>r. p_project_id (f r) = p_project_id r"
  shows "unique_col g (update_where (\<lambda>r. p_project_id r = pid) f t)"
proof (rule unique_colI)
  fix r s x
  assume r: "r \<in> set (update_where (\<lambda>r. p_project_id r = pid) f t)" and s: "s \<in> set (update_where (\<lambda>r. p_project_id r = pid) f t)"
    and x: "g r = Some x" "g s = Some x"
  obtain r0 s0 where r0: "r0 \<in> set t" "r = (if p_project_id r0 = pid then f r0 else r0)"
      and s0: "s0 \<in> set t" "s = (if p_project_id s0 = pid then f s0 else s0)"
    using r s by (auto simp: set_update_where)
  show "p_project_id r = p_project_id s"
  proof (cases "p_project_id r0 = pid \<or> p_project_id s0 = pid")
    case True
    then have "x = v" using r0(2) s0(2) x assms(4) by (auto split: if_splits)
    then have "p_project_id r0 = pid" "p_project_id s0 = pid"
      using assms(3) r0 s0 x by (metis (full_types))+
    then show ?thesis using r0(2) s0(2) assms(5) by simp
  next
    case False
    then show ?thesis using unique_colD [OF assms(1) r0(1) s0(1)] r0(2) s0(2) x by simp
  qed
qed

lemma runtime_row_valid:
  "row_valid r \<Longrightarrow> validate_runtime_endpoint endpoint = Inr u \<Longrightarrow> row_valid (runtime_row home profile endpoint key_ref state r)"
  by (simp add: row_valid_def runtime_row_def profile.parse_as_str del: profile_as_str.simps)

lemma inv_ok_runtime:
  assumes inv: "inv_ok t" and set: "set_profile_runtime pid home profile endpoint key_ref state t = Inr t'"
  shows "inv_ok t'"
proof -
  let ?f = "runtime_row home profile endpoint key_ref state"
  obtain u where u: "validate_runtime_endpoint endpoint = Inr u" and t': "t' = update_where (\<lambda>r. p_project_id r = pid) ?f t"
      and pr: "\<not> (\<exists>r \<in> set t. p_project_id r \<noteq> pid \<and> p_hermes_profile r = Some profile)"
      and ho: "\<not> (\<exists>r \<in> set t. p_project_id r \<noteq> pid \<and> p_hermes_home r = Some home)"
    using set row_by_SomeD [of p_project_id pid t]
    by (auto simp: set_profile_runtime_def rbind_eq_Inr update_project_Inr split: if_splits)
  have "unique_col p_hermes_home t'" unfolding t'
    by (rule unique_col_set [OF _ _ ho]) (use inv in \<open>auto simp: inv_ok_def runtime_row_def\<close>)
  moreover have "unique_col p_hermes_profile t'" unfolding t'
    by (rule unique_col_set [OF _ _ pr]) (use inv in \<open>auto simp: inv_ok_def runtime_row_def\<close>)
  moreover have "map p_project_id t' = map p_project_id t" "map p_workspace_path t' = map p_workspace_path t"
    unfolding t' by (simp_all add: map_key_update_where runtime_row_def)
  moreover have "\<forall>r \<in> set t'. row_valid r"
    using inv runtime_row_valid [OF _ u] by (auto simp: t' set_update_where inv_ok_def)
  ultimately show ?thesis using inv by (simp add: inv_ok_def)
qed

lemma inv_ok_bind: "inv_ok t \<Longrightarrow> bind_existing_profile pid home profile endpoint key_ref t = Inr (b, t') \<Longrightarrow> inv_ok t'"
  by (auto simp: bind_existing_profile_def rbind_eq_Inr split: option.splits if_splits intro: inv_ok_runtime)

lemma inv_ok_state: "inv_ok t \<Longrightarrow> set_profile_state pid state failure t = Inr t' \<Longrightarrow> inv_ok t'"
  unfolding set_profile_state_def
  by (erule (1) inv_ok_update_project)
     (auto simp: keeps_place_def row_valid_def profile.parse_as_str simp del: profile_as_str.simps)

lemma inv_ok_credential: "inv_ok t \<Longrightarrow> set_project_credential pid credential t = Inr t' \<Longrightarrow> inv_ok t'"
  by (auto simp: set_project_credential_def rbind_eq_Inr keeps_place_def row_valid_def is_ok_iff map_sum_def
      split: option.splits sum.splits elim!: inv_ok_update_project)

lemma inv_ok_model: "inv_ok t \<Longrightarrow> set_project_model pid chosen t = Inr t' \<Longrightarrow> inv_ok t'"
  by (auto simp: set_project_model_def rbind_eq_Inr keeps_place_def row_valid_def is_ok_iff map_sum_def
      split: option.splits sum.splits elim!: inv_ok_update_project)

lemma inv_ok_suspended: "inv_ok t \<Longrightarrow> set_project_suspended pid at t = Inr t' \<Longrightarrow> inv_ok t'"
  unfolding set_project_suspended_def
  by (erule (1) inv_ok_update_project) (auto simp: keeps_place_def row_valid_def)

lemma inv_ok_endpoint:
  assumes "inv_ok t" and "set_project_runtime_endpoint cdc pid endpoint t = Inr (p, t')"
  shows "inv_ok t'"
proof -
  have valid: "case endpoint of Some e \<Rightarrow> is_ok (validate_runtime_endpoint e) | None \<Rightarrow> True"
    and upd: "update_project pid (\<lambda>r. r\<lparr>p_runtime_endpoint := endpoint\<rparr>) t = Inr t'"
    using assms(2) unfolding set_project_runtime_endpoint_def
    by (simp_all only: rbind_eq_Inr is_ok_iff) (auto split: option.splits)
  show ?thesis
    by (rule inv_ok_update_project [OF assms(1) upd]) (use valid in \<open>simp_all add: keeps_place_def row_valid_def\<close>)
qed

lemma inv_ok_release: "inv_ok t \<Longrightarrow> inv_ok (release_endpoint pid t)"
  unfolding release_endpoint_def by (rule inv_ok_update) (simp_all add: keeps_place_def row_valid_def)

section \<open>Port endpoints\<close>

lemma graphic_no_ws:
  assumes "list_all graphic s"
  shows "\<not> contains_ws s" and "trim s = s"
proof -
  show no: "\<not> contains_ws s"
  proof
    assume "contains_ws s"
    then obtain p a b where "p \<in> set unicode_ws" "s = a @ p @ b" by (auto simp: contains_ws_def list_ex_iff str_simps)
    moreover have "hd p \<in> set p" using unicode_ws_not_graphic [OF calculation(1)] by simp
    ultimately show False using assms unicode_ws_not_graphic [of p] by (auto simp: list_all_iff)
  qed
  have "\<not> starts_ws s" "\<not> ends_ws s" using no
    by (auto simp: contains_ws_def list_ex_iff starts_ws_def ends_ws_def str_simps) (metis append_Nil, metis append_Nil2)
  then show "trim s = s" by (rule trim_id)
qed

lemma digit_distinct: "is_ascii_digit c \<Longrightarrow> c \<noteq> CHR '':'' \<and> c \<noteq> CHR ''/'' \<and> c \<noteq> CHR ''+'' \<and> graphic c"
  by (auto simp: is_ascii_digit_def graphic_def)

lemma parse_u16_show: "n < 65536 \<Longrightarrow> parse_u16 (show_nat n) = Some n"
proof -
  assume n: "n < 65536"
  have "strip_prefix ''+'' (show_nat n) = None"
    using show_nat_digits [of n] digit_distinct by (cases "strip_prefix ''+'' (show_nat n)") (auto simp: str_simps)
  then show ?thesis using n by (simp add: parse_u16_def Let_def show_nat_value show_nat_digits show_nat_nonempty)
qed

lemma endpoint_port_port_endpoint: "port < 65536 \<Longrightarrow> endpoint_port (port_endpoint port) = Some port"
proof -
  assume port: "port < 65536"
  let ?d = "show_nat port"
  have no: "\<forall>c \<in> set ?d. c \<noteq> CHR '':'' \<and> c \<noteq> CHR ''/''" using show_nat_digits [of port] digit_distinct by (auto simp: list_all_iff)
  have "takeWhile (\<lambda>c. c \<noteq> CHR '':'') (rev (port_endpoint port)) = rev ?d"
    using no takeWhile_append2 [of "rev ?d" "\<lambda>c. c \<noteq> CHR '':''" "rev ''http://127.0.0.1:''"] by (simp add: port_endpoint_def)
  moreover have "trim_end_slashes ?d = ?d"
    using no dropWhile_eq_self_iff [of "\<lambda>c. c = CHR ''/''" "rev ?d"] show_nat_nonempty [of port]
    by (simp add: trim_end_slashes_def hd_rev)
  ultimately show ?thesis by (simp add: endpoint_port_def parse_u16_show port)
qed

lemma port_endpoint_valid: "validate_runtime_endpoint (port_endpoint port) = Inr ()"
proof -
  have "list_all graphic (show_nat port)" using show_nat_digits [of port] digit_distinct by (auto simp: list_all_iff)
  then have g: "list_all graphic (port_endpoint port)" by (simp add: port_endpoint_def graphic_def)
  show ?thesis using graphic_no_ws [OF g]
    by (simp add: validate_runtime_endpoint_def Let_def) (simp add: port_endpoint_def starts_with_def)
qed

section \<open>Handing out ports\<close>

lemma in_taken_ports:
  "port \<in> set (taken_ports held t) \<longleftrightarrow>
     port \<in> set held \<or> (\<exists>r \<in> set t. \<exists>e. p_runtime_endpoint r = Some e \<and> endpoint_port e = Some port)"
  by (force simp: taken_ports_def allocated_endpoints_def List.map_filter_def)

lemma candidate_port_Some:
  "candidate_port lo hi held occupied t = Some port \<Longrightarrow>
     lo \<le> port \<and> port \<le> hi \<and> port \<notin> set (taken_ports held t) \<and> \<not> occupied port"
  unfolding candidate_port_def
  by (metis (mono_tags, lifting) atLeastLessThan_iff find_Some_iff less_Suc_eq_le nth_mem set_upt)

lemma candidate_port_None:
  "candidate_port lo hi held occupied t = None \<longleftrightarrow>
     (\<forall>port \<in> {lo..hi}. port \<in> set (taken_ports held t) \<or> occupied port)"
  unfolding candidate_port_def find_None_iff by (auto simp: atLeastLessThanSuc_atLeastAtMost)

lemma claim_endpoint_True:
  assumes "claim_endpoint pid e t = (True, t')"
  shows "\<forall>r \<in> set t. p_runtime_endpoint r \<noteq> Some e"
    and "t' = update_where (\<lambda>r. p_project_id r = pid \<and> p_runtime_endpoint r = None) (\<lambda>r. r\<lparr>p_runtime_endpoint := Some e\<rparr>) t"
    and "\<exists>r \<in> set t. p_project_id r = pid \<and> p_runtime_endpoint r = None"
  using assms by (auto simp: claim_endpoint_def split: if_splits)

lemma inv_ok_claim: "inv_ok t \<Longrightarrow> inv_ok (snd (claim_endpoint pid (port_endpoint port) t))"
  by (auto simp: claim_endpoint_def keeps_place_def row_valid_def port_endpoint_valid intro: inv_ok_update)

text \<open>The endpoint is the project's, it is a port of the range, and no other project has it.\<close>

definition granted :: "string \<Rightarrow> nat \<Rightarrow> nat \<Rightarrow> nat list \<Rightarrow> string \<Rightarrow> projects \<Rightarrow> bool" where
  "granted pid lo hi held e t \<longleftrightarrow>
     (\<exists>port. e = port_endpoint port \<and> lo \<le> port \<and> port \<le> hi \<and> port \<notin> set held) \<and>
     (\<exists>r \<in> set t. p_project_id r = pid) \<and>
     (\<forall>r \<in> set t. p_runtime_endpoint r = Some e \<longleftrightarrow> p_project_id r = pid)"

lemma claim_grants:
  assumes "distinct (map p_project_id t)" and "claim_endpoint pid (port_endpoint port) t = (True, t')"
    and "lo \<le> port" and "port \<le> hi" and "port \<notin> set held"
  shows "granted pid lo hi held (port_endpoint port) t'"
proof -
  note c = claim_endpoint_True [OF assms(2)]
  obtain r0 where r0: "r0 \<in> set t" "p_project_id r0 = pid" "p_runtime_endpoint r0 = None" using c(3) by blast
  have only: "r = r0" if "r \<in> set t" "p_project_id r = pid" for r
    using assms(1) r0(1,2) that by (metis distinct_map inj_onD)
  have "r0\<lparr>p_runtime_endpoint := Some (port_endpoint port)\<rparr> \<in> set t'"
    using in_update_where [OF r0(1), of "\<lambda>r. p_project_id r = pid \<and> p_runtime_endpoint r = None"
        "\<lambda>r. r\<lparr>p_runtime_endpoint := Some (port_endpoint port)\<rparr>"] r0(2,3) by (simp add: c(2))
  then have "\<exists>r \<in> set t'. p_project_id r = pid" using r0(2) by (rule_tac bexI) simp_all
  moreover have "\<forall>r \<in> set t'. p_runtime_endpoint r = Some (port_endpoint port) \<longleftrightarrow> p_project_id r = pid"
    using c(1) only r0(3) by (auto simp: c(2) set_update_where)
  ultimately show ?thesis using assms(3-5) unfolding granted_def by blast
qed

definition unassigned :: "string \<Rightarrow> projects \<Rightarrow> bool" where
  "unassigned pid t \<longleftrightarrow> (\<exists>r \<in> set t. p_project_id r = pid \<and> p_runtime_endpoint r = None)"

lemma project_row_unassigned:
  "inv_ok t \<Longrightarrow> unassigned pid t \<Longrightarrow> \<exists>r. project_row pid t = Some r \<and> p_runtime_endpoint r = None"
  by (auto simp: inv_ok_def unassigned_def row_by_Some_iff)

lemma claim_endpoint_False:
  "unassigned pid t \<Longrightarrow> claim_endpoint pid e t = (False, t') \<Longrightarrow>
     t' = t \<and> (\<exists>r \<in> set t. p_runtime_endpoint r = Some e)"
  by (auto simp: claim_endpoint_def unassigned_def split: if_splits)

text \<open>What a reservation may answer, and what is then stored.\<close>

definition reservation_ok ::
  "string \<Rightarrow> nat \<Rightarrow> nat \<Rightarrow> nat list \<Rightarrow> (nat \<Rightarrow> nat \<Rightarrow> bool) \<Rightarrow> (inventory_error, string) result \<Rightarrow> projects \<Rightarrow> bool" where
  "reservation_ok pid lo hi held occupied res t \<longleftrightarrow>
     (case res of
        Inr e \<Rightarrow> granted pid lo hi held e t \<and> (\<exists>k port. e = port_endpoint port \<and> \<not> occupied k port)
      | Inl err \<Rightarrow> unassigned pid t \<and>
          (err = RangeKeptChanging pid \<or>
           err = NoFreePort lo hi pid \<and> (\<exists>k. \<forall>port \<in> {lo..hi}. port \<in> set (taken_ports held t) \<or> occupied k port)))"

lemma reserve_attempts_ok:
  assumes "\<And>k s. inv_ok s \<Longrightarrow> inv_ok (others k s)" and "\<And>k s. unassigned pid s \<Longrightarrow> unassigned pid (others k s)"
    and "inv_ok t" and "unassigned pid t"
    and "reserve_attempts pid lo hi held occupied others k n t = (res, t')"
  shows "inv_ok t' \<and> reservation_ok pid lo hi held occupied res t'"
  using assms(3-5)
proof (induction n arbitrary: k t)
  case 0
  then show ?case by (auto simp: reservation_ok_def)
next
  case (Suc n)
  let ?t1 = "others (2 * k) t"
  have t1: "inv_ok ?t1" "unassigned pid ?t1" using Suc.prems(1,2) assms(1,2) by blast+
  let ?t2 = "others (2 * k + 1) ?t1"
  have t2: "inv_ok ?t2" "unassigned pid ?t2" using t1 assms(1,2) by blast+
  obtain r where r: "project_row pid ?t1 = Some r" "p_runtime_endpoint r = None"
    using project_row_unassigned [OF t1] by blast
  show ?case
  proof (cases "candidate_port lo hi held (occupied k) ?t1")
    case None
    then have "res = Inl (NoFreePort lo hi pid)" "t' = ?t1" using Suc.prems(3) r by (simp_all add: Let_def)
    then show ?thesis using t1 None by (auto simp: reservation_ok_def candidate_port_None)
  next
    case (Some port)
    note c = candidate_port_Some [OF Some]
    obtain b s where bs: "claim_endpoint pid (port_endpoint port) ?t2 = (b, s)" by fastforce
    have run: "(case b of True \<Rightarrow> (Inr (port_endpoint port), s)
        | False \<Rightarrow> reserve_attempts pid lo hi held occupied others (Suc k) n s) = (res, t')"
      using Suc.prems(3) r Some bs by (simp add: Let_def split: bool.splits)
    have s: "inv_ok s" using inv_ok_claim [OF t2(1), of pid port] bs by simp
    show ?thesis
    proof (cases b)
      case True
      then have "granted pid lo hi held (port_endpoint port) s"
        using claim_grants bs t2(1) c by (auto simp: inv_ok_def in_taken_ports)
      moreover have "res = Inr (port_endpoint port)" "t' = s" using True run by simp_all
      ultimately show ?thesis using s c by (simp add: reservation_ok_def) blast
    next
      case False
      then have "s = ?t2" using claim_endpoint_False [OF t2(2)] bs by simp
      then show ?thesis using Suc.IH [OF s] t2(2) run False by simp
    qed
  qed
qed

text \<open>With nobody else at the table, the first attempt settles it.\<close>

lemma reserve_quiet:
  assumes "inv_ok t" and "unassigned pid t" and "hi < 65536"
    and "candidate_port lo hi held (occupied k) t = Some port"
  shows "\<exists>t'. reserve_attempts pid lo hi held occupied (\<lambda>_ s. s) k (Suc n) t = (Inr (port_endpoint port), t')"
proof -
  obtain r where r: "project_row pid t = Some r" "p_runtime_endpoint r = None"
    using project_row_unassigned [OF assms(1,2)] by blast
  note c = candidate_port_Some [OF assms(4)]
  have "endpoint_port (port_endpoint port) = Some port" using c assms(3) by (intro endpoint_port_port_endpoint) simp
  then have free: "\<not> (\<exists>r \<in> set t. p_runtime_endpoint r = Some (port_endpoint port))" using c by (auto simp: in_taken_ports)
  obtain s where "claim_endpoint pid (port_endpoint port) t = (True, s)"
    using free assms(2) by (auto simp: claim_endpoint_def unassigned_def)
  then show ?thesis using r assms(4) by (simp add: Let_def)
qed

lemma reserve_quiet_iff:
  assumes "inv_ok t" and "unassigned pid t" and "hi < 65536" and "0 < n"
    and "reserve_attempts pid lo hi held occupied (\<lambda>_ s. s) k n t = (res, t')"
  shows "is_ok res \<longleftrightarrow> candidate_port lo hi held (occupied k) t \<noteq> None"
proof -
  obtain m where n: "n = Suc m" using assms(4) by (cases n) auto
  obtain r where r: "project_row pid t = Some r" "p_runtime_endpoint r = None"
    using project_row_unassigned [OF assms(1,2)] by blast
  show ?thesis
  proof (cases "candidate_port lo hi held (occupied k) t")
    case None
    then show ?thesis using assms(5) r by (auto simp: n Let_def is_ok_iff)
  next
    case (Some port)
    then show ?thesis using reserve_quiet [of t pid hi lo held occupied k port m] assms(1-3,5) unfolding n by (auto simp: is_ok_iff)
  qed
qed

section \<open>The inventory over time\<close>

text \<open>One call on the inventory.\<close>

inductive inv_step :: "codec \<Rightarrow> projects \<Rightarrow> projects \<Rightarrow> bool" for cdc where
  register: "register_project cdc now pid workspace name metadata endpoint ownership t = Inr (p, t') \<Longrightarrow> inv_step cdc t t'"
| unregister: "unregister_project cdc pid reg t = Inr t' \<Longrightarrow> inv_step cdc t t'"
| runtime: "set_profile_runtime pid home profile endpoint key_ref state t = Inr t' \<Longrightarrow> inv_step cdc t t'"
| profile_state: "set_profile_state pid state failure t = Inr t' \<Longrightarrow> inv_step cdc t t'"
| bind: "bind_existing_profile pid home profile endpoint key_ref t = Inr (b, t') \<Longrightarrow> inv_step cdc t t'"
| claim: "inv_step cdc t (snd (claim_endpoint pid (port_endpoint port) t))"
| release: "inv_step cdc t (release_endpoint pid t)"
| credential: "set_project_credential pid credential t = Inr t' \<Longrightarrow> inv_step cdc t t'"
| model_choice: "set_project_model pid chosen t = Inr t' \<Longrightarrow> inv_step cdc t t'"
| suspended: "set_project_suspended pid at t = Inr t' \<Longrightarrow> inv_step cdc t t'"
| endpoint: "set_project_runtime_endpoint cdc pid e t = Inr (p, t') \<Longrightarrow> inv_step cdc t t'"

lemma inv_ok_step: "inv_step cdc t t' \<Longrightarrow> inv_ok t \<Longrightarrow> inv_ok t'"
  by (induction rule: inv_step.induct)
     (blast intro: inv_ok_register inv_ok_unregister inv_ok_runtime inv_ok_state inv_ok_bind inv_ok_claim
        inv_ok_release inv_ok_credential inv_ok_model inv_ok_suspended inv_ok_endpoint)+

lemma inv_ok_Nil: "inv_ok []"
  by (simp add: inv_ok_def unique_col_def)

interpretation inv_sys: guarded_system "inv_step cdc" "[]" inv_ok for cdc
  by unfold_locales (auto intro: inv_ok_Nil inv_ok_step)

section \<open>Reading it back\<close>

lemma map_project_total:
  assumes "row_valid r"
  shows "\<exists>p. map_project cdc r = Inr p"
  using assms by (auto simp: row_valid_def map_project_def is_ok_iff)

lemma map_project_fields:
  "map_project cdc r = Inr p \<Longrightarrow> rp_project_id p = p_project_id r \<and> rp_workspace_path p = p_workspace_path r \<and>
     rp_hermes_home p = p_hermes_home r \<and> rp_hermes_profile p = p_hermes_profile r"
  by (auto simp: map_project_def split: sum.splits)

lemma list_projects_total:
  assumes "inv_ok t"
  obtains ps where "list_projects cdc t = Inr ps" "list_all2 (\<lambda>r p. map_project cdc r = Inr p) (sort_key p_project_id t) ps"
proof -
  have "\<forall>r \<in> set t. \<exists>p. map_project cdc r = Inr p" using assms map_project_total by (auto simp: inv_ok_def)
  then obtain g where "\<forall>r \<in> set t. map_project cdc r = Inr (g r)" by metis
  then have "list_all2 (\<lambda>r p. map_project cdc r = Inr p) (sort_key p_project_id t) (map g (sort_key p_project_id t))"
    by (simp add: list_all2_map2 list_all2_same)
  then show ?thesis using that [of "map g (sort_key p_project_id t)"] by (simp add: list_projects_def map_result_Inr)
qed

lemma loaded_column:
  assumes "list_all2 (\<lambda>r p. map_project cdc r = Inr p) rs ps" and "\<And>r p. map_project cdc r = Inr p \<Longrightarrow> g p = f r"
  shows "map g ps = map f rs"
  using assms(1) by (induction rule: list_all2_induct) (auto simp: assms(2))

lemma loaded_project:
  assumes "inv_ok t" and "list_all2 (\<lambda>r p. map_project cdc r = Inr p) (sort_key p_project_id t) ps" and "p \<in> set ps"
  shows "\<exists>r \<in> set t. map_project cdc r = Inr p" and "project cdc (rp_project_id p) t = Inr (Some p)"
proof -
  obtain i where i: "i < length ps" "p = ps ! i" using assms(3) by (auto simp: in_set_conv_nth)
  let ?r = "sort_key p_project_id t ! i"
  have len: "i < length (sort_key p_project_id t)" using list_all2_lengthD [OF assms(2)] i(1) by simp
  have "?r \<in> set t" using nth_mem [OF len] by simp
  moreover have "map_project cdc ?r = Inr p" using list_all2_nthD [OF assms(2) len] i(2) by simp
  ultimately obtain r where r: "r \<in> set t" "map_project cdc r = Inr p" by blast
  then show "\<exists>r \<in> set t. map_project cdc r = Inr p" by blast
  have "project_row (p_project_id r) t = Some r" using assms(1) r(1) by (intro row_by_unique) (auto simp: inv_ok_def)
  then show "project cdc (rp_project_id p) t = Inr (Some p)" using r(2) map_project_fields by (simp add: project_def)
qed

lemma same_home_same_project:
  assumes "inv_ok t" and "r \<in> set t" and "s \<in> set t" and "p_hermes_home r = Some h" and "p_hermes_home s = Some h"
  shows "r = s"
proof -
  have "p_project_id r = p_project_id s" using assms unique_colD [of p_hermes_home t r s h] by (simp add: inv_ok_def)
  then show ?thesis using assms(1-3) by (auto simp: inv_ok_def distinct_map dest: inj_onD)
qed

section \<open>Binding projects of older nodes\<close>

lemma bind_True:
  assumes "inv_ok t" and "bind_existing_profile pid home profile endpoint key_ref t = Inr (True, t')"
  shows "inv_ok t' \<and> (\<exists>r \<in> set t'. p_hermes_home r = Some home) \<and> (\<forall>r \<in> set t. p_project_id r \<noteq> pid \<longrightarrow> r \<in> set t')"
proof -
  obtain r where r: "project_row pid t = Some r"
      and upd: "t' = update_where (\<lambda>r. p_project_id r = pid) (runtime_row home profile endpoint key_ref Ready) t"
    using assms(2)
    by (auto simp: bind_existing_profile_def set_profile_runtime_def rbind_eq_Inr update_project_Inr split: option.splits if_splits)
  have "runtime_row home profile endpoint key_ref Ready r \<in> set t'"
    using in_update_where [of r t "\<lambda>r. p_project_id r = pid" "runtime_row home profile endpoint key_ref Ready"] row_by_SomeD [OF r]
    by (simp add: upd)
  moreover have "p_hermes_home (runtime_row home profile endpoint key_ref Ready r) = Some home" by (simp add: runtime_row_def)
  moreover have "\<forall>r \<in> set t. p_project_id r \<noteq> pid \<longrightarrow> r \<in> set t'" by (auto simp: upd set_update_where)
  ultimately show ?thesis using inv_ok_bind [OF assms] by blast
qed

lemma bind_home_taken:
  assumes "inv_ok t" and "\<exists>r \<in> set t. p_hermes_home r = Some home"
  shows "bind_existing_profile pid home profile endpoint key_ref t \<noteq> Inr (True, t')"
proof
  assume bind: "bind_existing_profile pid home profile endpoint key_ref t = Inr (True, t')"
  obtain r where r: "project_row pid t = Some r" "p_hermes_home r = None"
      and free: "\<not> (\<exists>r \<in> set t. p_project_id r \<noteq> pid \<and> p_hermes_home r = Some home)"
    using bind row_by_SomeD [of p_project_id pid t]
    by (auto simp: bind_existing_profile_def set_profile_runtime_def rbind_eq_Inr update_project_Inr split: option.splits if_splits)
  obtain s where s: "s \<in> set t" "p_hermes_home s = Some home" using assms(2) by blast
  then have "p_project_id s = pid" using free by blast
  then have "project_row pid t = Some s" using assms(1) s(1) by (simp add: inv_ok_def row_by_Some_iff)
  then show False using r s(2) by simp
qed

lemma bind_projects_taken:
  "inv_ok t \<Longrightarrow> \<exists>r \<in> set t. p_hermes_home r = Some home \<Longrightarrow> bind_projects home base_url ps t = ([], t)"
  by (induction ps) (auto simp: bind_home_taken split: sum.splits bool.splits)

lemma bind_projects_at_most_one:
  assumes "inv_ok t" and "bind_projects home base_url ps t = (bound, t')"
  shows "inv_ok t' \<and> length bound \<le> 1 \<and> (\<forall>r \<in> set t. p_project_id r \<notin> set bound \<longrightarrow> r \<in> set t')"
  using assms(2)
proof (induction ps)
  case Nil
  then show ?case using assms(1) by simp
next
  case (Cons p ps)
  let ?bind = "bind_existing_profile (rp_project_id p) home (default_profile_name (rp_project_id p)) base_url [] t"
  show ?case
  proof (cases "rp_hermes_home p = None \<and> (\<exists>s. ?bind = Inr (True, s))")
    case True
    then obtain s where s: "?bind = Inr (True, s)" by blast
    have "bound = [rp_project_id p]" "t' = s"
      using Cons.prems True s bind_projects_taken [of s home base_url ps] bind_True [OF assms(1) s] by auto
    then show ?thesis using bind_True [OF assms(1) s] by auto
  next
    case False
    then have "bind_projects home base_url ps t = (bound, t')" using Cons.prems
      by (auto split: if_splits sum.splits prod.splits bool.splits)
    then show ?thesis by (rule Cons.IH)
  qed
qed

section \<open>Properties\<close>

definition demo_projects :: "codec \<Rightarrow> projects" where
  "demo_projects cdc =
     [new_project cdc 0 ''alpha'' ''/srv/a'' None None None ManagedContainer, new_project cdc 0 ''beta'' ''/srv/b'' None None None ManagedContainer]"

lemma demo_projects_reachable: "(inv_step cdc)\<^sup>*\<^sup>* [] (demo_projects cdc)"
proof -
  have v: "validate_identifier ''project_id'' ''alpha'' = Inr ()" "validate_identifier ''project_id'' ''beta'' = Inr ()"
    by code_simp+
  have "\<exists>p. register_project cdc 0 ''alpha'' (Some (''/srv/a'', True)) None None None ManagedContainer [] =
      Inr (p, [new_project cdc 0 ''alpha'' ''/srv/a'' None None None ManagedContainer])"
    by (simp add: register_project_def v(1) table_simps new_project_def map_project_def profile.parse_as_str ownership.parse_as_str
        Let_def del: profile_as_str.simps ownership_as_str.simps)
  moreover have "\<exists>p. register_project cdc 0 ''beta'' (Some (''/srv/b'', True)) None None None ManagedContainer
      [new_project cdc 0 ''alpha'' ''/srv/a'' None None None ManagedContainer] = Inr (p, demo_projects cdc)"
    by (simp add: register_project_def v(2) table_simps new_project_def map_project_def profile.parse_as_str ownership.parse_as_str
        Let_def demo_projects_def del: profile_as_str.simps ownership_as_str.simps)
  ultimately show ?thesis by (meson inv_step.register rtranclp.rtrancl_refl rtranclp.rtrancl_into_rtrancl)
qed

text \<open>
  C27.  Whatever calls are made on the inventory, from an empty table, it can always be
  read: listing the projects never meets a corrupt row, gives them in order of their ids,
  with no id and no workspace twice, looking one up gives the same project, and no two
  projects share a Hermes home.
\<close>

theorem inventory_always_loads:
  assumes "(inv_step cdc)\<^sup>*\<^sup>* [] t"
  shows "\<exists>ps. list_projects cdc t = Inr ps \<and> map rp_project_id ps = sort (map p_project_id t) \<and>
    distinct (map rp_project_id ps) \<and> distinct (map rp_workspace_path ps) \<and>
    (\<forall>p \<in> set ps. project cdc (rp_project_id p) t = Inr (Some p)) \<and>
    (\<forall>p \<in> set ps. \<forall>q \<in> set ps. rp_hermes_home p \<noteq> None \<longrightarrow> rp_hermes_home p = rp_hermes_home q \<longrightarrow> p = q)"
proof -
  have inv: "inv_ok t" by (rule inv_sys.inv_reachable [OF assms])
  let ?rs = "sort_key p_project_id t"
  obtain ps where ps: "list_projects cdc t = Inr ps" and l: "list_all2 (\<lambda>r p. map_project cdc r = Inr p) ?rs ps"
    using inv by (rule list_projects_total)
  have ids: "map rp_project_id ps = map p_project_id ?rs" by (rule loaded_column [OF l]) (simp add: map_project_fields)
  have works: "map rp_workspace_path ps = map p_workspace_path ?rs" by (rule loaded_column [OF l]) (simp add: map_project_fields)
  have "map p_project_id ?rs = sort (map p_project_id t)" by (rule properties_for_sort [symmetric]) simp_all
  moreover have "distinct (map p_project_id ?rs)" "distinct (map p_workspace_path ?rs)"
    using inv by (simp_all add: inv_ok_def distinct_map)
  moreover have "p = q" if pq: "p \<in> set ps" "q \<in> set ps" "rp_hermes_home p \<noteq> None" "rp_hermes_home p = rp_hermes_home q" for p q
  proof -
    obtain r s where rs: "r \<in> set t" "map_project cdc r = Inr p" "s \<in> set t" "map_project cdc s = Inr q"
      using loaded_project(1) [OF inv l] pq(1,2) by meson
    then show "p = q" using same_home_same_project [OF inv, of r s] pq(3,4) map_project_fields by force
  qed
  ultimately show ?thesis using ps ids works loaded_project(2) [OF inv l] by (intro exI [of _ ps]) auto
qed

theorem inventory_always_loads_witness:
  "(\<exists>p q. list_projects \<lparr>to_string = \<lambda>_. [], from_str = \<lambda>_. None\<rparr>
       (demo_projects \<lparr>to_string = \<lambda>_. [], from_str = \<lambda>_. None\<rparr>) = Inr [p, q] \<and>
     rp_project_id p = ''alpha'' \<and> rp_project_id q = ''beta'')"
proof -
  let ?c = "\<lparr>to_string = \<lambda>_. [], from_str = \<lambda>_. None\<rparr>"
  have ids: "map p_project_id (demo_projects ?c) = [''alpha'', ''beta'']" by (simp add: demo_projects_def new_project_def)
  have sorted: "sort [''alpha'', ''beta''] = [''alpha'', ''beta'']" by code_simp
  obtain ps where ps: "list_projects ?c (demo_projects ?c) = Inr ps" "map rp_project_id ps = sort (map p_project_id (demo_projects ?c))"
    using inventory_always_loads [OF demo_projects_reachable [of ?c]] by blast
  have "map rp_project_id ps = [''alpha'', ''beta'']" using ps(2) unfolding ids sorted .
  then obtain p q where "ps = [p, q]" "rp_project_id p = ''alpha''" "rp_project_id q = ''beta''" by (auto simp: map_eq_Cons_conv)
  then show ?thesis using ps(1) by blast
qed



text \<open>
  C29.  Binding the projects of an older node to the node's own Hermes home binds at most
  one of them: the home is unique in the table, so every later project is refused, and the
  refusal is passed over.  All projects not named in the answer are left as they were.
\<close>

theorem binding_reaches_one_project:
  assumes "(inv_step cdc)\<^sup>*\<^sup>* [] t" and "bind_existing_profiles cdc home base_url t = (bound, t')"
  shows "length bound \<le> 1 \<and> (\<forall>r \<in> set t. p_project_id r \<notin> set bound \<longrightarrow> r \<in> set t')"
proof -
  have inv: "inv_ok t" by (rule inv_sys.inv_reachable [OF assms(1)])
  obtain ps where "list_projects cdc t = Inr ps" using inv by (rule list_projects_total)
  then have "bind_projects home base_url ps t = (bound, t')" using assms(2) by (simp add: bind_existing_profiles_def)
  then show ?thesis using bind_projects_at_most_one [OF inv] by blast
qed

theorem binding_reaches_one_project_witness:
  "\<exists>t'. bind_existing_profiles \<lparr>to_string = \<lambda>_. [], from_str = \<lambda>_. None\<rparr> ''/h'' ''http://h''
      (demo_projects \<lparr>to_string = \<lambda>_. [], from_str = \<lambda>_. None\<rparr>) = ([''alpha''], t') \<and>
    demo_projects \<lparr>to_string = \<lambda>_. [], from_str = \<lambda>_. None\<rparr> ! 1 \<in> set t'"
proof -
  let ?c = "\<lparr>to_string = \<lambda>_. [], from_str = \<lambda>_. None\<rparr>"
  obtain bound t' where b: "bind_existing_profiles ?c ''/h'' ''http://h'' (demo_projects ?c) = (bound, t')" by fastforce
  have "fst (bind_existing_profiles ?c ''/h'' ''http://h'' (demo_projects ?c)) = [''alpha'']" by code_simp
  then have bound: "bound = [''alpha'']" using b by simp
  have "demo_projects ?c ! 1 \<in> set (demo_projects ?c)" "p_project_id (demo_projects ?c ! 1) = ''beta''"
    by (simp_all add: demo_projects_def new_project_def)
  then have "demo_projects ?c ! 1 \<in> set t'"
    using binding_reaches_one_project [OF demo_projects_reachable b] by (simp add: bound)
  then show ?thesis using b bound by blast
qed

end
