(* ===== verification/Config_Policy.thy ===== *)
theory Config_Policy
  imports Rust_Str Prelude
begin

text \<open>
  \<open>src/src/policy.rs\<close>: the narrow reader and writer of a Hermes \<open>config.yaml\<close>, and
  the decision whether a project may start in the configuration that was read.
\<close>

section \<open>Lines of a configuration\<close>

text \<open>\<open>strip_comment\<close>, with the two quote flags of its loop.\<close>

fun strip_comment_from :: "bool \<Rightarrow> bool \<Rightarrow> string \<Rightarrow> string" where
  "strip_comment_from in_single in_double [] = []"
| "strip_comment_from in_single in_double (c # cs) =
     (if c = CHR 0x27 \<and> \<not> in_double then c # strip_comment_from (\<not> in_single) in_double cs
      else if c = CHR 0x22 \<and> \<not> in_single then c # strip_comment_from in_single (\<not> in_double) cs
      else if c = CHR ''#'' \<and> \<not> in_single \<and> \<not> in_double then []
      else c # strip_comment_from in_single in_double cs)"

definition strip_comment :: "string \<Rightarrow> string" where
  "strip_comment line = strip_comment_from False False line"

definition is_blank :: "char \<Rightarrow> bool" where
  "is_blank c \<longleftrightarrow> c = CHR '' '' \<or> c = CHR 0x09"

definition indented :: "string \<Rightarrow> bool" where
  "indented l \<longleftrightarrow> l \<noteq> [] \<and> is_blank (hd l)"

text \<open>\<open>trim_end_matches(':')\<close>, and the test for the header of a section.\<close>

definition trim_end_colons :: "string \<Rightarrow> string" where
  "trim_end_colons s = rev (dropWhile (\<lambda>c. c = CHR '':'') (rev s))"

definition is_header :: "string \<Rightarrow> string \<Rightarrow> bool" where
  "is_header section l \<longleftrightarrow> trim_end_colons (trim_end l) = section \<and> ends_with '':'' (trim_end l)"

text \<open>\<open>trim_matches\<close> with both quotes.\<close>

definition is_quote :: "char \<Rightarrow> bool" where
  "is_quote c \<longleftrightarrow> c = CHR 0x22 \<or> c = CHR 0x27"

definition unquote :: "string \<Rightarrow> string" where
  "unquote s = rev (dropWhile is_quote (rev (dropWhile is_quote s)))"

section \<open>Reading a setting\<close>

fun lookup_lines :: "string \<Rightarrow> string \<Rightarrow> bool \<Rightarrow> string list \<Rightarrow> string option" where
  "lookup_lines section key in_section [] = None"
| "lookup_lines section key in_section (raw # ls) =
     (let without_comment = strip_comment raw in
      if trim without_comment = [] then lookup_lines section key in_section ls
      else if \<not> indented without_comment then lookup_lines section key (is_header section without_comment) ls
      else if \<not> in_section then lookup_lines section key in_section ls
      else case strip_prefix (key @ '':'') (trim without_comment) of
          Some value_text \<Rightarrow>
            (let found = unquote (trim value_text) in if found = [] then None else Some found)
        | None \<Rightarrow> lookup_lines section key in_section ls)"

definition lookup :: "string \<Rightarrow> string \<Rightarrow> string \<Rightarrow> string option" where
  "lookup body section key = lookup_lines section key False (str_lines body)"

record RuntimeConfiguration =
  openai_runtime :: "string option"
  approvals_mode :: "string option"

definition parse_runtime_configuration :: "string \<Rightarrow> RuntimeConfiguration" where
  "parse_runtime_configuration body =
     \<lparr>openai_runtime = lookup body ''model'' ''openai_runtime'', approvals_mode = lookup body ''approvals'' ''mode''\<rparr>"

text \<open>The file is an argument: its text, when it can be read.\<close>

datatype config_error = ConfigUnreadable

definition read_runtime_configuration :: "string option \<Rightarrow> (config_error, RuntimeConfiguration) result" where
  "read_runtime_configuration file_body =
     (case file_body of None \<Rightarrow> Inl ConfigUnreadable | Some body \<Rightarrow> Inr (parse_runtime_configuration body))"

definition uses_native_codex :: "RuntimeConfiguration \<Rightarrow> bool" where
  "uses_native_codex config \<longleftrightarrow> openai_runtime config = Some ''codex_app_server''"

definition approvals_bypassed :: "RuntimeConfiguration \<Rightarrow> bool" where
  "approvals_bypassed config \<longleftrightarrow> approvals_mode config = Some ''off''"

section \<open>The decision\<close>

datatype PolicyDecision = Allow | AllowWithOverride | Deny

definition evaluate :: "RuntimeConfiguration \<Rightarrow> bool \<Rightarrow> PolicyDecision" where
  "evaluate config override =
     (if \<not> (uses_native_codex config \<and> approvals_bypassed config) then Allow
      else if override then AllowWithOverride
      else Deny)"

datatype policy_refusal = UnsafeRuntime string | OverrideRequired | OverrideNotApplicable

definition enforce :: "string \<Rightarrow> RuntimeConfiguration \<Rightarrow> bool \<Rightarrow> (policy_refusal, unit) result" where
  "enforce pid config override =
     (case evaluate config override of
        Allow \<Rightarrow> Inr ()
      | AllowWithOverride \<Rightarrow> Inr ()
      | Deny \<Rightarrow> Inl (UnsafeRuntime pid))"

definition require_override_for_unsafe_test :: "RuntimeConfiguration \<Rightarrow> bool \<Rightarrow> (policy_refusal, unit) result" where
  "require_override_for_unsafe_test config override =
     (if \<not> override then Inl OverrideRequired
      else if \<not> uses_native_codex config then Inl OverrideNotApplicable
      else Inr ())"

section \<open>Writing a setting\<close>

definition setting_line :: "string \<Rightarrow> string \<Rightarrow> string \<Rightarrow> string" where
  "setting_line indent key v = indent @ key @ '': '' @ v"

text \<open>The loop of \<open>set_setting\<close> and what follows it; the result is the list of lines written.\<close>

fun set_lines :: "string \<Rightarrow> string \<Rightarrow> string \<Rightarrow> bool \<Rightarrow> bool \<Rightarrow> bool \<Rightarrow> string \<Rightarrow> string list \<Rightarrow> string list" where
  "set_lines section key v in_section wrote section_seen indent [] =
     (if wrote then []
      else (if section_seen then [] else [section @ '':'']) @ [setting_line indent key v])"
| "set_lines section key v in_section wrote section_seen indent (raw # ls) =
     (let without_comment = strip_comment raw in
      if trim without_comment \<noteq> [] \<and> \<not> indented without_comment then
        (let leaving = in_section \<and> \<not> wrote;
             header = is_header section without_comment
         in (if leaving then [setting_line indent key v] else []) @
            raw # set_lines section key v header (wrote \<or> leaving) (section_seen \<or> header) indent ls)
      else if in_section \<and> \<not> wrote then
        (let indent' = (if trim without_comment \<noteq> [] then takeWhile is_blank without_comment else indent) in
         if starts_with (key @ '':'') (trim without_comment)
         then setting_line indent' key v # set_lines section key v in_section True section_seen indent' ls
         else raw # set_lines section key v in_section wrote section_seen indent' ls)
      else raw # set_lines section key v in_section wrote section_seen indent ls)"

definition set_setting :: "string \<Rightarrow> string \<Rightarrow> string \<Rightarrow> string \<Rightarrow> string" where
  "set_setting body section key v =
     join_with [CHR 0x0A] (set_lines section key v False False False ''  '' (str_lines body)) @ [CHR 0x0A]"

section \<open>What may be written\<close>

definition special :: "char \<Rightarrow> bool" where
  "special c \<longleftrightarrow> c \<in> {CHR ''#'', CHR 0x22, CHR 0x27, CHR 0x0A, CHR 0x0D}"

definition plain_name :: "string \<Rightarrow> bool" where
  "plain_name s \<longleftrightarrow> s \<noteq> [] \<and> list_all (\<lambda>c. graphic c \<and> c \<noteq> CHR '':'' \<and> \<not> special c) s"

definition plain_value :: "string \<Rightarrow> bool" where
  "plain_value s \<longleftrightarrow> s \<noteq> [] \<and> graphic (hd s) \<and> graphic (last s) \<and> list_all (\<lambda>c. \<not> special c) s"

definition blanks :: "string \<Rightarrow> bool" where
  "blanks s \<longleftrightarrow> s \<noteq> [] \<and> list_all is_blank s"

lemma plain_nameD: "plain_name s \<Longrightarrow> s \<noteq> [] \<and> graphic (hd s) \<and> graphic (last s) \<and> CHR '':'' \<notin> set s \<and> list_all (\<lambda>c. \<not> special c) s"
  by (auto simp: plain_name_def list_all_iff)

lemma strip_comment_from_id: "list_all (\<lambda>c. \<not> special c) s \<Longrightarrow> strip_comment_from False False s = s"
  by (induction s) (auto simp: special_def)

lemma strip_comment_id: "list_all (\<lambda>c. \<not> special c) s \<Longrightarrow> strip_comment s = s"
  by (simp add: strip_comment_def strip_comment_from_id)

lemma is_blank_not_special: "is_blank c \<Longrightarrow> \<not> special c"
  by (auto simp: is_blank_def special_def)

lemma blanks_not_special: "blanks s \<Longrightarrow> list_all (\<lambda>c. \<not> special c) s"
  by (simp add: blanks_def list_all_iff is_blank_not_special)

lemma trim_start_blank: "is_blank c \<Longrightarrow> trim_start (c # s) = trim_start s"
  unfolding trim_start_def by (subst trim_with.simps) (auto simp: is_blank_def unicode_ws_def)

lemma trim_start_blanks: "list_all is_blank b \<Longrightarrow> trim_start (b @ s) = trim_start s"
  by (induction b) (auto simp: trim_start_blank)

lemma trim_blanks: "list_all is_blank b \<Longrightarrow> trim (b @ s) = trim s"
  by (simp add: trim_def trim_start_blanks)

lemma trim_setting_line:
  assumes "blanks b" and "plain_name k" and "plain_value v"
  shows "trim (setting_line b k v) = k @ '': '' @ v"
proof -
  have "trim (k @ '': '' @ v) = k @ '': '' @ v"
    using assms(3) plain_nameD [OF assms(2)] by (intro trim_graphic) (auto simp: plain_value_def)
  then show ?thesis using assms(1) trim_blanks [of b "k @ '': '' @ v"] by (simp add: setting_line_def blanks_def)
qed

lemma unquote_id: "plain_value v \<Longrightarrow> unquote v = v"
proof -
  assume v: "plain_value v"
  have quote: "is_quote c \<Longrightarrow> special c" for c by (auto simp: special_def is_quote_def)
  have ne: "v \<noteq> []" and clean: "\<forall>c \<in> set v. \<not> special c" using v by (simp_all add: plain_value_def list_all_iff)
  have "\<not> is_quote (hd v)" "\<not> is_quote (last v)" using clean quote hd_in_set [OF ne] last_in_set [OF ne] by blast+
  then have "dropWhile is_quote v = v" "dropWhile is_quote (rev v) = rev v" by (simp_all add: dropWhile_eq_self_iff hd_rev)
  then show ?thesis by (simp add: unquote_def)
qed

lemma prefix_key_unique:
  assumes "plain_name k" and "plain_name k'" and "k @ CHR '':'' # r = k' @ CHR '':'' # r'"
  shows "k' = k"
proof -
  have "split_byte (CHR '':'') (k @ CHR '':'' # r) = Some (k, r)" using plain_nameD [OF assms(1)] by (simp add: split_byte_Some)
  moreover have "split_byte (CHR '':'') (k' @ CHR '':'' # r') = Some (k', r')" using plain_nameD [OF assms(2)] by (simp add: split_byte_Some)
  ultimately show ?thesis unfolding assms(3) by (metis Pair_inject option.inject)
qed

lemma setting_line_clean:
  assumes "blanks b" and "plain_name k" and "plain_value v"
  shows "list_all (\<lambda>c. \<not> special c) (setting_line b k v)"
proof -
  have "list_all (\<lambda>c. \<not> special c) '': ''" by (simp add: special_def)
  then show ?thesis using blanks_not_special [OF assms(1)] plain_nameD [OF assms(2)] assms(3)
    by (simp add: setting_line_def plain_value_def)
qed

lemma header_clean: "plain_name s \<Longrightarrow> list_all (\<lambda>c. \<not> special c) (s @ '':'')"
  using plain_nameD [of s] by (simp add: special_def)

text \<open>How the reader sees a written line.\<close>

lemma setting_line_read:
  assumes "blanks b" and "plain_name k" and "plain_value v"
  shows "strip_comment (setting_line b k v) = setting_line b k v" and "trim (setting_line b k v) \<noteq> []"
    and "indented (setting_line b k v)"
    and "strip_prefix (k' @ '':'') (trim (setting_line b k v)) = Some r \<Longrightarrow> plain_name k' \<Longrightarrow> k' = k"
proof -
  show "strip_comment (setting_line b k v) = setting_line b k v"
    by (rule strip_comment_id, rule setting_line_clean) (rule assms)+
  show "trim (setting_line b k v) \<noteq> []" using plain_nameD [OF assms(2)] by (simp add: trim_setting_line [OF assms])
  show "indented (setting_line b k v)" using assms(1) by (cases b) (auto simp: indented_def setting_line_def blanks_def)
  show "k' = k" if "strip_prefix (k' @ '':'') (trim (setting_line b k v)) = Some r" and "plain_name k'"
  proof -
    have "k' @ CHR '':'' # r = k @ CHR '':'' # ('' '' @ v)"
      using that(1) by (simp add: trim_setting_line [OF assms] str_simps)
    then show ?thesis by (rule prefix_key_unique [OF that(2) assms(2), symmetric])
  qed
qed

lemma lookup_setting_line:
  assumes "blanks b" and "plain_name k" and "plain_value v"
  shows "lookup_lines sec k True (setting_line b k v # ls) = Some v"
proof -
  have "trim ('' '' @ v) = trim v" by (rule trim_blanks) (simp add: is_blank_def)
  also have "trim v = v" using assms(3) by (intro trim_graphic) (auto simp: plain_value_def)
  finally have "trim (CHR '' '' # v) = v" by simp
  moreover have "strip_prefix (k @ '':'') (trim (setting_line b k v)) = Some (CHR '' '' # v)"
    using trim_setting_line [OF assms] by (simp add: str_simps)
  ultimately show ?thesis
    using setting_line_read(1-3) [OF assms] unquote_id [OF assms(3)] assms(3) by (simp add: Let_def plain_value_def)
qed

lemma lookup_skips_setting_line:
  assumes "blanks b" and "plain_name k" and "plain_value v" and "plain_name k'" and "k' \<noteq> k \<or> \<not> inside"
  shows "lookup_lines sec k' inside (setting_line b k v # ls) = lookup_lines sec k' inside ls"
  using setting_line_read [OF assms(1-3)] assms(4,5) by (auto simp: Let_def split: option.splits)

lemma header_read:
  assumes "plain_name s"
  shows "strip_comment (s @ '':'') = s @ '':''" and "trim (s @ '':'') \<noteq> []" and "\<not> indented (s @ '':'')"
    and "is_header sec (s @ '':'') \<longleftrightarrow> sec = s"
proof -
  note n = plain_nameD [OF assms]
  show "strip_comment (s @ '':'') = s @ '':''" by (rule strip_comment_id, rule header_clean, rule assms)
  have "trim (s @ '':'') = s @ '':''" using n by (intro trim_graphic) (auto simp: graphic_def)
  then show "trim (s @ '':'') \<noteq> []" by simp
  show "\<not> indented (s @ '':'')" using n by (auto simp: indented_def is_blank_def graphic_def)
  have e: "trim_end (s @ '':'') = s @ '':''" by (rule trim_end_id, rule ends_ws_graphic) (auto simp: graphic_def)
  have "last s \<noteq> CHR '':''" using n last_in_set [of s] by metis
  then have "trim_end_colons (s @ '':'') = s"
    using n dropWhile_eq_self_iff [of "\<lambda>c. c = CHR '':''" "rev s"] by (auto simp: trim_end_colons_def hd_rev)
  then show "is_header sec (s @ '':'') \<longleftrightarrow> sec = s" by (auto simp: is_header_def e ends_with_iff)
qed

section \<open>Reading back what was written\<close>

lemma set_lines_wrote: "set_lines sec k v inside True seen b ls = ls"
  by (induction ls arbitrary: inside seen b) (auto simp: Let_def)

lemma blanks_of_line:
  assumes "indented l"
  shows "blanks (takeWhile is_blank l)"
proof -
  have "takeWhile is_blank l \<noteq> []" using assms by (cases l) (simp_all add: indented_def)
  moreover have "list_all is_blank (takeWhile is_blank l)" unfolding list_all_iff by (auto dest: set_takeWhileD)
  ultimately show ?thesis by (simp add: blanks_def)
qed

lemma not_special_line_ok: "list_all (\<lambda>c. \<not> special c) l \<Longrightarrow> line_ok l"
  by (auto simp: line_ok_def special_def list_all_iff)

lemma setting_line_ok: "blanks b \<Longrightarrow> plain_name k \<Longrightarrow> plain_value v \<Longrightarrow> line_ok (setting_line b k v)"
  by (rule not_special_line_ok) (rule setting_line_clean)

lemma header_ok: "plain_name s \<Longrightarrow> line_ok (s @ '':'')"
  by (rule not_special_line_ok) (rule header_clean)

text \<open>What one line does to the writer.\<close>

definition next_indent :: "string \<Rightarrow> string \<Rightarrow> string" where
  "next_indent b raw = (if trim (strip_comment raw) \<noteq> [] then takeWhile is_blank (strip_comment raw) else b)"

definition at_margin :: "string \<Rightarrow> bool" where
  "at_margin raw \<longleftrightarrow> trim (strip_comment raw) \<noteq> [] \<and> \<not> indented (strip_comment raw)"

definition has_key :: "string \<Rightarrow> string \<Rightarrow> bool" where
  "has_key k raw \<longleftrightarrow> starts_with (k @ '':'') (trim (strip_comment raw))"

lemma blanks_next_indent: "blanks b \<Longrightarrow> \<not> at_margin raw \<Longrightarrow> blanks (next_indent b raw)"
  by (auto simp: next_indent_def at_margin_def intro: blanks_of_line)

lemma set_lines_step:
  "at_margin raw \<Longrightarrow> set_lines sec k v inside False inside b (raw # ls) =
     (if inside then setting_line b k v # raw # ls
      else raw # set_lines sec k v (is_header sec (strip_comment raw)) False (is_header sec (strip_comment raw)) b ls)"
  "\<not> at_margin raw \<Longrightarrow> inside \<Longrightarrow> has_key k raw \<Longrightarrow>
     set_lines sec k v inside False inside b (raw # ls) = setting_line (next_indent b raw) k v # ls"
  "\<not> at_margin raw \<Longrightarrow> \<not> (inside \<and> has_key k raw) \<Longrightarrow>
     set_lines sec k v inside False inside b (raw # ls) =
       raw # set_lines sec k v inside False inside (if inside then next_indent b raw else b) ls"
  by (auto simp: at_margin_def has_key_def next_indent_def Let_def set_lines_wrote)

lemma lookup_step:
  "at_margin raw \<Longrightarrow> lookup_lines sec k inside (raw # ls) = lookup_lines sec k (is_header sec (strip_comment raw)) ls"
  "\<not> at_margin raw \<Longrightarrow> \<not> (inside \<and> has_key k raw) \<Longrightarrow> lookup_lines sec k inside (raw # ls) = lookup_lines sec k inside ls"
  by (auto simp: at_margin_def has_key_def starts_with_def Let_def split: option.splits)

lemma lookup_cong:
  "\<not> at_margin raw \<Longrightarrow> lookup_lines sec k inside xs = lookup_lines sec k inside ys \<Longrightarrow>
     lookup_lines sec k inside (raw # xs) = lookup_lines sec k inside (raw # ys)"
  by (auto simp: at_margin_def Let_def split: option.splits)

lemma has_key_unique:
  assumes "plain_name k" and "plain_name k'" and "has_key k raw" and "has_key k' raw"
  shows "k' = k"
proof -
  obtain r r' where "trim (strip_comment raw) = k @ CHR '':'' # r" "trim (strip_comment raw) = k' @ CHR '':'' # r'"
    using assms(3,4) by (auto simp: has_key_def starts_with_iff)
  then have "k @ CHR '':'' # r = k' @ CHR '':'' # r'" by (rule trans [OF sym])
  then show ?thesis by (rule prefix_key_unique [OF assms(1,2)])
qed

text \<open>While nothing is written, the writer is inside the section exactly when it has seen its header.\<close>

lemma lookup_set_lines:
  assumes "plain_name sec" and "plain_name k" and "plain_value v"
  shows "blanks b \<Longrightarrow> lookup_lines sec k inside (set_lines sec k v inside False inside b ls) = Some v"
proof (induction ls arbitrary: inside b)
  case Nil
  have "lookup_lines sec k True [setting_line b k v] = Some v" by (rule lookup_setting_line [OF Nil assms(2,3)])
  then show ?case
    using lookup_step(1) [of "sec @ '':''" sec k inside] header_read [OF assms(1)] by (cases inside) (simp_all add: at_margin_def)
next
  case (Cons raw ls)
  consider "at_margin raw" | "\<not> at_margin raw" "inside" "has_key k raw" | "\<not> at_margin raw" "\<not> (inside \<and> has_key k raw)" by blast
  then show ?case
  proof cases
    case 1
    then show ?thesis
      using Cons.IH [OF Cons.prems, of "is_header sec (strip_comment raw)"] lookup_setting_line [OF Cons.prems assms(2,3), of sec "raw # ls"]
      by (cases inside) (simp_all add: set_lines_step lookup_step del: set_lines.simps lookup_lines.simps)
  next
    case 2
    then show ?thesis
      using lookup_setting_line [OF blanks_next_indent [OF Cons.prems 2(1)] assms(2,3), of sec ls] by (simp add: set_lines_step del: set_lines.simps lookup_lines.simps)
  next
    case 3
    have "blanks (if inside then next_indent b raw else b)" using blanks_next_indent [OF Cons.prems 3(1)] Cons.prems by simp
    then show ?thesis using Cons.IH 3 by (simp add: set_lines_step lookup_step del: set_lines.simps lookup_lines.simps)
  qed
qed

lemma lookup_set_lines_other:
  assumes "plain_name sec" and "plain_name k" and "plain_value v" and "plain_name k'" and "(sec', k') \<noteq> (sec, k)"
  shows "blanks b \<Longrightarrow> (sec' = sec \<Longrightarrow> here = inside) \<Longrightarrow> (sec' \<noteq> sec \<Longrightarrow> inside \<Longrightarrow> \<not> here) \<Longrightarrow>
    lookup_lines sec' k' here (set_lines sec k v inside False inside b ls) = lookup_lines sec' k' here ls"
proof (induction ls arbitrary: inside here b)
  case Nil
  have "lookup_lines sec' k' h [setting_line b k v] = None" if "k' \<noteq> k \<or> \<not> h" for h
    using lookup_skips_setting_line [OF Nil.prems(1) assms(2-4) that, of sec' "[]"] by simp
  then show ?case using lookup_step(1) [of "sec @ '':''" sec' k' here] header_read [OF assms(1)] assms(5) Nil.prems(2,3)
    by (cases inside) (auto simp: at_margin_def)
next
  case (Cons raw ls)
  let ?h = "is_header sec (strip_comment raw)" and ?h' = "is_header sec' (strip_comment raw)"
  have skip: "lookup_lines sec' k' here (setting_line c k v # xs) = lookup_lines sec' k' here xs" if "inside" and "blanks c" for c xs
    by (rule lookup_skips_setting_line [OF that(2) assms(2-4)]) (use Cons.prems(2,3) assms(5) that(1) in auto)
  have heads: "sec' = sec \<Longrightarrow> ?h' = ?h" "sec' \<noteq> sec \<Longrightarrow> ?h \<Longrightarrow> \<not> ?h'" by (auto simp: is_header_def)
  consider "at_margin raw" | "\<not> at_margin raw" "inside" "has_key k raw" | "\<not> at_margin raw" "\<not> (inside \<and> has_key k raw)" by blast
  then show ?case
  proof cases
    case 1
    then show ?thesis using Cons.IH [OF Cons.prems(1) heads] skip [OF _ Cons.prems(1)]
      by (cases inside) (simp_all add: set_lines_step lookup_step del: set_lines.simps lookup_lines.simps)
  next
    case 2
    then have "\<not> (here \<and> has_key k' raw)" using has_key_unique [OF assms(2,4)] Cons.prems(2,3) assms(5) by auto
    then show ?thesis using 2 skip [OF _ blanks_next_indent [OF Cons.prems(1) 2(1)]] by (simp add: set_lines_step lookup_step del: set_lines.simps lookup_lines.simps)
  next
    case 3
    have "blanks (if inside then next_indent b raw else b)" using blanks_next_indent [OF Cons.prems(1) 3(1)] Cons.prems(1) by simp
    then have "lookup_lines sec' k' here (set_lines sec k v inside False inside (if inside then next_indent b raw else b) ls) = lookup_lines sec' k' here ls"
      by (rule Cons.IH) (use Cons.prems in auto)
    then show ?thesis unfolding set_lines_step(3) [OF 3] by (rule lookup_cong [OF 3(1)])
  qed
qed

lemma set_lines_ok:
  assumes "plain_name sec" and "plain_name k" and "plain_value v"
  shows "blanks b \<Longrightarrow> \<forall>l \<in> set ls. line_ok l \<Longrightarrow> \<forall>l \<in> set (set_lines sec k v inside False inside b ls). line_ok l"
proof (induction ls arbitrary: inside b)
  case Nil
  then show ?case using setting_line_ok [OF _ assms(2,3)] header_ok [OF assms(1)] by simp
next
  case (Cons raw ls)
  consider "at_margin raw" | "\<not> at_margin raw" "inside" "has_key k raw" | "\<not> at_margin raw" "\<not> (inside \<and> has_key k raw)" by blast
  then show ?case
  proof cases
    case 1
    then show ?thesis using Cons.IH [OF Cons.prems(1)] Cons.prems(2) setting_line_ok [OF Cons.prems(1) assms(2,3)]
      by (auto simp: set_lines_step simp del: set_lines.simps)
  next
    case 2
    then show ?thesis using Cons.prems(2) setting_line_ok [OF blanks_next_indent [OF Cons.prems(1) 2(1)] assms(2,3)]
      by (auto simp: set_lines_step simp del: set_lines.simps)
  next
    case 3
    have "blanks (if inside then next_indent b raw else b)" using blanks_next_indent [OF Cons.prems(1) 3(1)] Cons.prems(1) by simp
    then show ?thesis using Cons.IH Cons.prems(2) unfolding set_lines_step(3) [OF 3] by simp
  qed
qed

lemma set_lines_nonempty: "set_lines sec k v inside False inside b ls \<noteq> []"
  by (cases ls) (simp_all add: Let_def)

lemma lines_of_set_setting:
  assumes "CHR 0x0D \<notin> set body" and "plain_name sec" and "plain_name k" and "plain_value v"
  shows "str_lines (set_setting body sec k v) = set_lines sec k v False False False ''  '' (str_lines body)"
proof -
  have "blanks ''  ''" by (simp add: blanks_def is_blank_def)
  then have "\<forall>l \<in> set (set_lines sec k v False False False ''  '' (str_lines body)). line_ok l"
    using set_lines_ok [OF assms(2-4)] str_lines_ok [OF assms(1)] by blast
  then show ?thesis unfolding set_setting_def line_ok_def by (intro str_lines_join set_lines_nonempty)
qed

text \<open>
  C30.  Writing a setting and reading the configuration again gives the value that was
  written, whatever the file held, and leaves every other setting of every section as it
  was.  Names are printable words, and a value is text without quotes, comments or line
  ends.
\<close>

theorem setting_reads_back:
  assumes "CHR 0x0D \<notin> set body" and "plain_name sec" and "plain_name key" and "plain_value v"
  shows "lookup (set_setting body sec key v) sec key = Some v \<and>
    (\<forall>sec' key'. plain_name key' \<longrightarrow> (sec', key') \<noteq> (sec, key) \<longrightarrow>
       lookup (set_setting body sec key v) sec' key' = lookup body sec' key')"
proof -
  have b: "blanks ''  ''" by (simp add: blanks_def is_blank_def)
  have "lookup (set_setting body sec key v) sec key = Some v"
    unfolding lookup_def lines_of_set_setting [OF assms] by (rule lookup_set_lines [OF assms(2-4) b])
  moreover have "lookup (set_setting body sec key v) sec' key' = lookup body sec' key'"
    if "plain_name key'" and "(sec', key') \<noteq> (sec, key)" for sec' key'
    unfolding lookup_def lines_of_set_setting [OF assms] by (rule lookup_set_lines_other [OF assms(2-4) that b]) simp_all
  ultimately show ?thesis by (intro conjI allI impI)
qed

theorem setting_reads_back_witness:
  "lookup (set_setting ''model:'' ''model'' ''openai_runtime'' ''auto'') ''model'' ''openai_runtime'' = Some ''auto'' \<and>
   lookup (set_setting ''model:'' ''model'' ''openai_runtime'' ''auto'') ''approvals'' ''mode'' = lookup ''model:'' ''approvals'' ''mode''"
proof -
  have "plain_name ''model''" "plain_name ''openai_runtime''" "plain_name ''mode''" "plain_value ''auto''"
    by (simp_all add: plain_name_def plain_value_def graphic_def special_def)
  moreover have "CHR 0x0D \<notin> set ''model:''" by simp
  ultimately show ?thesis using setting_reads_back [of "''model:''" "''model''" "''openai_runtime''" "''auto''"] by simp
qed

end
