(* ===== verification/Disk.thy ===== *)
theory Disk
  imports Rust_Str Prelude
begin

text \<open>
  The part of the file system the credential code uses.  A disk maps absolute paths to
  inodes; a directory reached through a link is not resolved, the code names every file by
  one path.  The kernel may refuse any call: which ones is an argument, and a call that
  fails for a missing directory on the way to its path is one of them.  A computation
  yields, besides its result, the disks it passes through, one for each change, because
  the node may be stopped between any two of them.
\<close>

section \<open>Inodes\<close>

datatype node = Dir | File string | Link string

record Inode =
  i_node :: node
  i_uid :: nat
  i_mode :: nat

type_synonym disk = "string \<Rightarrow> Inode option"

datatype io_error = NotFound | AlreadyExists | Refused

text \<open>The name of the call and its path; \<open>True\<close> when the kernel refuses it.\<close>

type_synonym kernel = "string \<Rightarrow> string \<Rightarrow> bool"

definition is_symlink :: "Inode \<Rightarrow> bool" where
  "is_symlink i \<longleftrightarrow> (case i_node i of Link _ \<Rightarrow> True | _ \<Rightarrow> False)"

definition is_file :: "Inode \<Rightarrow> bool" where
  "is_file i \<longleftrightarrow> (case i_node i of File _ \<Rightarrow> True | _ \<Rightarrow> False)"

definition is_dir :: "Inode \<Rightarrow> bool" where
  "is_dir i \<longleftrightarrow> i_node i = Dir"

text \<open>\<open>mode & 0o077 != 0\<close>: group or others have a permission.\<close>

definition open_beyond_owner :: "Inode \<Rightarrow> bool" where
  "open_beyond_owner i \<longleftrightarrow> i_mode i mod 64 \<noteq> 0"

section \<open>Paths\<close>

definition path_join :: "string \<Rightarrow> string \<Rightarrow> string" where
  "path_join p q =
     (if starts_with ''/'' q then q
      else if p = [] \<or> ends_with ''/'' p then p @ q
      else p @ ''/'' @ q)"

text \<open>Split at every slash; the result is never empty.\<close>

function segments :: "string \<Rightarrow> string list" where
  "segments s = (case split_byte (CHR ''/'') s of None \<Rightarrow> [s] | Some (a, b) \<Rightarrow> a # segments b)"
  by pat_completeness auto
termination
  by (relation "measure length") (auto dest: split_byte_length)

declare segments.simps [simp del]

datatype Component = RootDir | CurDir | ParentDir | Normal string

definition seg_component :: "string \<Rightarrow> Component" where
  "seg_component s = (if s = ''..'' then ParentDir else Normal s)"

text \<open>\<open>Path::components\<close>: repeated slashes and interior dots are dropped.\<close>

definition components :: "string \<Rightarrow> Component list" where
  "components p =
     (if starts_with ''/'' p then [RootDir] else if hd (segments p) = ''.'' then [CurDir] else []) @
     map seg_component (filter (\<lambda>s. s \<noteq> [] \<and> s \<noteq> ''.'') (segments p))"

text \<open>\<open>Path::strip_prefix\<close>, in terms of the components that remain.\<close>

fun strip_components :: "Component list \<Rightarrow> Component list \<Rightarrow> Component list option" where
  "strip_components [] cs = Some cs"
| "strip_components (b # bs) [] = None"
| "strip_components (b # bs) (c # cs) = (if b = c then strip_components bs cs else None)"

definition parent_dir :: "string \<Rightarrow> string" where
  "parent_dir p =
     (let d = rev (drop 1 (dropWhile (\<lambda>c. c \<noteq> CHR ''/'') (rev p)))
      in if d = [] \<and> starts_with ''/'' p then ''/'' else d)"

definition file_name :: "string \<Rightarrow> string" where
  "file_name p = rev (takeWhile (\<lambda>c. c \<noteq> CHR ''/'') (rev p))"

section \<open>Looking\<close>

definition symlink_metadata :: "kernel \<Rightarrow> string \<Rightarrow> disk \<Rightarrow> (io_error, Inode) result" where
  "symlink_metadata k p d =
     (if k ''lstat'' p then Inl Refused else case d p of None \<Rightarrow> Inl NotFound | Some i \<Rightarrow> Inr i)"

definition link_target :: "string \<Rightarrow> string \<Rightarrow> string" where
  "link_target p t = path_join (parent_dir p) t"

text \<open>Following links, at most as many as the kernel does.\<close>

fun follow_links :: "nat \<Rightarrow> string \<Rightarrow> disk \<Rightarrow> (string \<times> Inode) option" where
  "follow_links 0 p d = None"
| "follow_links (Suc n) p d =
     (case d p of
        None \<Rightarrow> None
      | Some i \<Rightarrow> (case i_node i of Link t \<Rightarrow> follow_links n (link_target p t) d | _ \<Rightarrow> Some (p, i)))"

definition MAX_LINKS :: nat where "MAX_LINKS = 40"

definition path_exists :: "kernel \<Rightarrow> string \<Rightarrow> disk \<Rightarrow> bool" where
  "path_exists k p d \<longleftrightarrow> \<not> k ''stat'' p \<and> follow_links (Suc MAX_LINKS) p d \<noteq> None"

definition read_file :: "kernel \<Rightarrow> string \<Rightarrow> disk \<Rightarrow> (io_error, string) result" where
  "read_file k p d =
     (if k ''open'' p then Inl Refused
      else case follow_links (Suc MAX_LINKS) p d of
          None \<Rightarrow> Inl NotFound
        | Some (_, i) \<Rightarrow> (case i_node i of File content \<Rightarrow> Inr content | _ \<Rightarrow> Inl Refused))"

section \<open>Changing\<close>

type_synonym ('e, 'a) fop = "disk \<Rightarrow> ('e, 'a) result \<times> disk list"

definition fop_ok :: "'a \<Rightarrow> ('e, 'a) fop" where
  "fop_ok x = (\<lambda>d. (Inr x, []))"

definition fop_err :: "'e \<Rightarrow> ('e, 'a) fop" where
  "fop_err e = (\<lambda>d. (Inl e, []))"

definition fop_get :: "(disk \<Rightarrow> ('e, 'a) result) \<Rightarrow> ('e, 'a) fop" where
  "fop_get f = (\<lambda>d. (f d, []))"

definition fop_bind :: "('e, 'a) fop \<Rightarrow> ('a \<Rightarrow> ('e, 'b) fop) \<Rightarrow> ('e, 'b) fop" where
  "fop_bind m f = (\<lambda>d.
     case m d of
       (Inl e, t) \<Rightarrow> (Inl e, t)
     | (Inr x, t) \<Rightarrow> (case f x (last (d # t)) of (r, t') \<Rightarrow> (r, t @ t')))"

definition fop_try :: "('e, 'a) fop \<Rightarrow> ('f, ('e, 'a) result) fop" where
  "fop_try m = (\<lambda>d. case m d of (r, t) \<Rightarrow> (Inr r, t))"

definition fop_map_err :: "('e \<Rightarrow> 'f) \<Rightarrow> ('e, 'a) fop \<Rightarrow> ('f, 'a) fop" where
  "fop_map_err g m = (\<lambda>d. case m d of (r, t) \<Rightarrow> (map_sum g id r, t))"

text \<open>The disk a computation leaves, and all disks it may be stopped at.\<close>

definition fop_final :: "('e, 'a) fop \<Rightarrow> disk \<Rightarrow> disk" where
  "fop_final m d = last (d # snd (m d))"

definition fop_states :: "('e, 'a) fop \<Rightarrow> disk \<Rightarrow> disk list" where
  "fop_states m d = d # snd (m d)"

definition rename :: "kernel \<Rightarrow> string \<Rightarrow> string \<Rightarrow> (io_error, unit) fop" where
  "rename k a b = (\<lambda>d.
     if k ''rename'' a then (Inl Refused, [])
     else case d a of
         None \<Rightarrow> (Inl NotFound, [])
       | Some i \<Rightarrow>
           if is_dir i \<or> (case d b of Some j \<Rightarrow> is_dir j | None \<Rightarrow> False) then (Inl Refused, [])
           else (Inr (), [d(a := None, b := Some i)]))"

definition remove_file :: "kernel \<Rightarrow> string \<Rightarrow> (io_error, unit) fop" where
  "remove_file k p = (\<lambda>d.
     if k ''unlink'' p then (Inl Refused, [])
     else case d p of
         None \<Rightarrow> (Inl NotFound, [])
       | Some i \<Rightarrow> if is_dir i then (Inl Refused, []) else (Inr (), [d(p := None)]))"

definition create_dir :: "kernel \<Rightarrow> nat \<Rightarrow> nat \<Rightarrow> string \<Rightarrow> (io_error, unit) fop" where
  "create_dir k uid mode p = (\<lambda>d.
     if k ''mkdir'' p then (Inl Refused, [])
     else if d p \<noteq> None then (Inl AlreadyExists, [])
     else (Inr (), [d(p \<mapsto> \<lparr>i_node = Dir, i_uid = uid, i_mode = mode\<rparr>)]))"

text \<open>\<open>Path::is_file\<close> and \<open>Path::is_dir\<close> follow links and read an error as no.\<close>

definition path_is_file :: "kernel \<Rightarrow> string \<Rightarrow> disk \<Rightarrow> bool" where
  "path_is_file k p d \<longleftrightarrow> \<not> k ''stat'' p \<and>
     (case follow_links (Suc MAX_LINKS) p d of Some (_, i) \<Rightarrow> is_file i | None \<Rightarrow> False)"

definition path_is_dir :: "kernel \<Rightarrow> string \<Rightarrow> disk \<Rightarrow> bool" where
  "path_is_dir k p d \<longleftrightarrow> \<not> k ''stat'' p \<and>
     (case follow_links (Suc MAX_LINKS) p d of Some (_, i) \<Rightarrow> is_dir i | None \<Rightarrow> False)"

text \<open>The directories on the way to a path, outermost first; all of them are made.\<close>

definition ancestors :: "string \<Rightarrow> string list" where
  "ancestors p = map (\<lambda>n. take n p) (filter (\<lambda>n. p ! n = CHR ''/'') [1..<length p]) @ [p]"

fun create_dirs :: "kernel \<Rightarrow> nat \<Rightarrow> nat \<Rightarrow> string list \<Rightarrow> (io_error, unit) fop" where
  "create_dirs k uid mode [] = fop_ok ()"
| "create_dirs k uid mode (p # ps) =
     fop_bind (\<lambda>d. if path_is_dir k p d then (Inr (), []) else create_dir k uid mode p d) (\<lambda>_. create_dirs k uid mode ps)"

definition create_dir_all :: "kernel \<Rightarrow> nat \<Rightarrow> nat \<Rightarrow> string \<Rightarrow> (io_error, unit) fop" where
  "create_dir_all k uid mode p = create_dirs k uid mode (filter (\<lambda>q. q \<noteq> []) (ancestors p))"

text \<open>
  What lies at a path or below it; a tree is removed or renamed as a whole, and takes the
  place of a directory only when that one is empty.
\<close>

definition below :: "string \<Rightarrow> string \<Rightarrow> bool" where
  "below p q \<longleftrightarrow> q = p \<or> starts_with (p @ ''/'') q"

definition remove_dir_all :: "kernel \<Rightarrow> string \<Rightarrow> (io_error, unit) fop" where
  "remove_dir_all k p = (\<lambda>d.
     if k ''rmdir'' p then (Inl Refused, [])
     else case d p of
         None \<Rightarrow> (Inl NotFound, [])
       | Some i \<Rightarrow> (Inr (), [\<lambda>q. if below p q then None else d q]))"

definition rename_dir :: "kernel \<Rightarrow> string \<Rightarrow> string \<Rightarrow> (io_error, unit) fop" where
  "rename_dir k a b = (\<lambda>d.
     if k ''rename'' a then (Inl Refused, [])
     else if d a = None then (Inl NotFound, [])
     else if (case d b of None \<Rightarrow> False | Some j \<Rightarrow> \<not> is_dir j \<or> (\<exists>q. below b q \<and> q \<noteq> b \<and> d q \<noteq> None)) then (Inl Refused, [])
     else (Inr (), [\<lambda>q. if below b q then d (a @ drop (length b) q) else if below a q then None else d q]))"

definition chown_to :: "kernel \<Rightarrow> nat \<Rightarrow> string \<Rightarrow> (io_error, unit) fop" where
  "chown_to k uid p = (\<lambda>d.
     if k ''chown'' p then (Inl Refused, [])
     else case follow_links (Suc MAX_LINKS) p d of
         None \<Rightarrow> (Inl NotFound, [])
       | Some (q, i) \<Rightarrow> (Inr (), [d(q \<mapsto> i\<lparr>i_uid := uid\<rparr>)]))"

definition set_permissions :: "kernel \<Rightarrow> string \<Rightarrow> nat \<Rightarrow> (io_error, unit) fop" where
  "set_permissions k p mode = (\<lambda>d.
     if k ''chmod'' p then (Inl Refused, [])
     else case follow_links (Suc MAX_LINKS) p d of
         None \<Rightarrow> (Inl NotFound, [])
       | Some (q, i) \<Rightarrow> (Inr (), [d(q \<mapsto> i\<lparr>i_mode := mode\<rparr>)]))"

definition symlink :: "kernel \<Rightarrow> nat \<Rightarrow> string \<Rightarrow> string \<Rightarrow> (io_error, unit) fop" where
  "symlink k uid target p = (\<lambda>d.
     if k ''symlink'' p then (Inl Refused, [])
     else if d p \<noteq> None then (Inl AlreadyExists, [])
     else (Inr (), [d(p \<mapsto> \<lparr>i_node = Link target, i_uid = uid, i_mode = 511\<rparr>)]))"

text \<open>\<open>std::fs::write\<close>: the old content is replaced, or a new file made; a write that fails may leave anything.\<close>

definition write_file :: "kernel \<Rightarrow> nat \<Rightarrow> nat \<Rightarrow> (string \<Rightarrow> string \<Rightarrow> string) \<Rightarrow> string \<Rightarrow> string \<Rightarrow> (io_error, unit) fop" where
  "write_file k uid mode torn p content = (\<lambda>d.
     if k ''open'' p then (Inl Refused, [])
     else
       let q = (case follow_links (Suc MAX_LINKS) p d of Some (q, _) \<Rightarrow> q | None \<Rightarrow> p);
           put = (\<lambda>c. case d q of
              Some i \<Rightarrow> d(q \<mapsto> i\<lparr>i_node := File c\<rparr>)
            | None \<Rightarrow> d(q \<mapsto> \<lparr>i_node = File c, i_uid = uid, i_mode = mode\<rparr>))
       in if (case d q of Some i \<Rightarrow> is_dir i | None \<Rightarrow> False) then (Inl Refused, [])
          else if k ''write'' p then (Inl Refused, [put (torn p content)])
          else (Inr (), [put content]))"

text \<open>Opening a file and syncing it changes nothing that is modelled, but it can fail.\<close>

definition sync :: "kernel \<Rightarrow> string \<Rightarrow> (io_error, unit) fop" where
  "sync k p = fop_get (\<lambda>d. if k ''fsync'' p then Inl Refused else if path_exists k p d then Inr () else Inl NotFound)"

section \<open>Reasoning about computations\<close>

lemma fop_bind_ok [simp]: "fop_bind (fop_ok x) f = f x"
  by (simp add: fop_bind_def fop_ok_def)

lemma fop_bind_Inr:
  "fst (fop_bind m f d) = Inr y \<longleftrightarrow> (\<exists>x. fst (m d) = Inr x \<and> fst (f x (fop_final m d)) = Inr y)"
  by (auto simp: fop_bind_def fop_final_def split: prod.splits sum.splits)

lemma fop_fst_bind: "fst (fop_bind m f d) = (case fst (m d) of Inl e \<Rightarrow> Inl e | Inr x \<Rightarrow> fst (f x (fop_final m d)))"
  by (auto simp: fop_bind_def fop_final_def split: prod.splits sum.splits)

lemma fop_final_bind:
  "fop_final (fop_bind m f) d = (case fst (m d) of Inl e \<Rightarrow> fop_final m d | Inr x \<Rightarrow> fop_final (f x) (fop_final m d))"
  by (auto simp: fop_bind_def fop_final_def split: prod.splits sum.splits)

lemma fop_states_bind:
  "set (fop_states (fop_bind m f) d) =
     set (fop_states m d) \<union> (case fst (m d) of Inl e \<Rightarrow> {} | Inr x \<Rightarrow> set (fop_states (f x) (fop_final m d)))"
proof -
  have "last (d # t) \<in> set (d # t)" for t by (rule last_in_set) simp
  then show ?thesis by (auto simp: fop_bind_def fop_final_def fop_states_def split: prod.splits sum.splits)
qed

lemma fop_final_state: "fop_final m d \<in> set (fop_states m d)"
  unfolding fop_final_def fop_states_def by (rule last_in_set) simp

text \<open>Every disk the computation passes through satisfies \<open>P\<close>, and the one it ends in \<open>Q\<close>.\<close>

definition through :: "(disk \<Rightarrow> bool) \<Rightarrow> ('e, 'a) fop \<Rightarrow> disk \<Rightarrow> (('e, 'a) result \<Rightarrow> disk \<Rightarrow> bool) \<Rightarrow> bool" where
  "through P m d Q \<longleftrightarrow> (\<forall>s \<in> set (fop_states m d). P s) \<and> Q (fst (m d)) (fop_final m d)"

lemma through_ok: "P d \<Longrightarrow> Q (Inr x) d \<Longrightarrow> through P (fop_ok x) d Q"
  by (simp add: through_def fop_ok_def fop_states_def fop_final_def)

lemma through_err: "P d \<Longrightarrow> Q (Inl e) d \<Longrightarrow> through P (fop_err e) d Q"
  by (simp add: through_def fop_err_def fop_states_def fop_final_def)

lemma through_get: "P d \<Longrightarrow> Q (f d) d \<Longrightarrow> through P (fop_get f) d Q"
  by (simp add: through_def fop_get_def fop_states_def fop_final_def)

lemma through_bind:
  assumes "through P m d (\<lambda>r s. case r of Inl e \<Rightarrow> Q (Inl e) s | Inr x \<Rightarrow> through P (f x) s Q)"
  shows "through P (fop_bind m f) d Q"
  using assms
  by (auto simp: through_def fop_states_bind fop_final_bind fop_fst_bind split: sum.splits)

lemma through_ask [simp]: "through P (fop_bind (fop_get (\<lambda>d. Inr (f d))) m) d Q = through P (m (f d)) d Q"
  by (simp add: through_def fop_states_def fop_final_def fop_bind_def fop_get_def split: prod.splits)

lemma through_map_err:
  "through P m d (\<lambda>r. Q (map_sum g id r)) \<Longrightarrow> through P (fop_map_err g m) d Q"
  by (auto simp: through_def fop_map_err_def fop_states_def fop_final_def split: prod.splits)

lemma through_mono:
  "through P m d Q \<Longrightarrow> (\<And>r s. Q r s \<Longrightarrow> Q' r s) \<Longrightarrow> through P m d Q'"
  by (auto simp: through_def)

lemma through_rename:
  assumes "P d" and "\<And>e. Q (Inl e) d"
    and "\<And>i. d a = Some i \<Longrightarrow> \<not> is_dir i \<Longrightarrow> P (d(a := None, b := Some i)) \<and> Q (Inr ()) (d(a := None, b := Some i))"
  shows "through P (rename k a b) d Q"
  using assms by (auto simp: through_def rename_def fop_states_def fop_final_def split: option.splits)

lemma through_remove_file:
  assumes "P d" and "\<And>e. Q (Inl e) d" and "\<And>i. d p = Some i \<Longrightarrow> P (d(p := None)) \<and> Q (Inr ()) (d(p := None))"
  shows "through P (remove_file k p) d Q"
  using assms by (auto simp: through_def remove_file_def fop_states_def fop_final_def split: option.splits)

lemma through_symlink:
  assumes "P d" and "\<And>e. Q (Inl e) d"
    and "\<And>i. d p = None \<Longrightarrow> i_node i = Link target \<Longrightarrow> P (d(p \<mapsto> i)) \<and> Q (Inr ()) (d(p \<mapsto> i))"
  shows "through P (symlink k uid target p) d Q"
  using assms by (auto simp: through_def symlink_def fop_states_def fop_final_def)

lemma through_try: "through P m d (\<lambda>r. Q (Inr r)) \<Longrightarrow> through P (fop_try m) d Q"
  by (auto simp: through_def fop_try_def fop_states_def fop_final_def split: prod.splits)

lemma through_sync: "P d \<Longrightarrow> (\<And>r. Q r d) \<Longrightarrow> through P (sync k p) d Q"
  unfolding sync_def by (rule through_get) auto

end
