(* ===== verification/Credential_Swap.thy ===== *)
theory Credential_Swap
  imports Disk
begin

text \<open>
  \<open>src/src/credential_swap.rs\<close>: replacing what a credential holds.  The staged store is
  renamed over the credential's own, the old one is kept aside until the new one is proven,
  and after a restart the two names tell how far the replacement had come.
\<close>

section \<open>Names and checks\<close>

definition CREDENTIAL_FILE :: string where "CREDENTIAL_FILE = ''auth.json''"
definition ROLLBACK_FILE :: string where "ROLLBACK_FILE = ''auth.json.rollback''"
definition STAGING_ROOT :: string where "STAGING_ROOT = ''reauth''"

datatype swap_error =
    SwapIo io_error
  | IsSymlink
  | NotRegular
  | WrongOwner nat
  | OpenBeyondOwner
  | SwapWaiting
  | NothingToRollBack

abbreviation live_store :: "string \<Rightarrow> string" where "live_store home \<equiv> path_join home CREDENTIAL_FILE"
abbreviation rollback_store :: "string \<Rightarrow> string" where "rollback_store home \<equiv> path_join home ROLLBACK_FILE"

definition check_plain_private_file :: "kernel \<Rightarrow> string \<Rightarrow> nat \<Rightarrow> (swap_error, unit) fop" where
  "check_plain_private_file k p uid = fop_get (\<lambda>d.
     case symlink_metadata k p d of
       Inl e \<Rightarrow> Inl (SwapIo e)
     | Inr i \<Rightarrow>
         if is_symlink i then Inl IsSymlink
         else if \<not> is_file i then Inl NotRegular
         else if i_uid i \<noteq> uid then Inl (WrongOwner (i_uid i))
         else if open_beyond_owner i then Inl OpenBeyondOwner
         else Inr ())"

definition fsync_file_and_parent :: "kernel \<Rightarrow> string \<Rightarrow> (io_error, unit) fop" where
  "fsync_file_and_parent k p = fop_bind (sync k p) (\<lambda>_. sync k (parent_dir p))"

abbreviation ask :: "(disk \<Rightarrow> 'a) \<Rightarrow> ('e, 'a) fop" where "ask f \<equiv> fop_get (\<lambda>d. Inr (f d))"
abbreviation io :: "(io_error, 'a) fop \<Rightarrow> (swap_error, 'a) fop" where "io m \<equiv> fop_map_err SwapIo m"

section \<open>A home to stage a login in\<close>

text \<open>
  \<open>nonce\<close> is the random name of the home, \<open>me\<close> the account the node runs as; the home
  is dropped with the attempt it was made for.
\<close>

definition swap_chown :: "kernel \<Rightarrow> string \<Rightarrow> nat \<Rightarrow> (swap_error, unit) fop" where
  "swap_chown k p uid = (\<lambda>d.
     case symlink_metadata k p d of
       Inl e \<Rightarrow> (Inl (SwapIo e), [])
     | Inr i \<Rightarrow> if i_uid i = uid then (Inr (), []) else io (chown_to k uid p) d)"

definition staging_create :: "kernel \<Rightarrow> nat \<Rightarrow> nat \<Rightarrow> string \<Rightarrow> string \<Rightarrow> nat \<Rightarrow> (swap_error, string) fop" where
  "staging_create k me umask_mode nonce node_home uid =
     (let root = path_join node_home STAGING_ROOT; path = path_join root nonce in
      fop_bind (io (create_dir_all k me umask_mode root)) (\<lambda>_.
      fop_bind (io (set_permissions k root 448)) (\<lambda>_.
      fop_bind (io (create_dir k me umask_mode path)) (\<lambda>_.
      fop_bind (io (set_permissions k path 448)) (\<lambda>_.
      fop_bind (swap_chown k path uid) (\<lambda>_. fop_ok path))))))"

definition staging_store :: "string \<Rightarrow> string" where
  "staging_store path = path_join path CREDENTIAL_FILE"

definition staging_drop :: "kernel \<Rightarrow> string \<Rightarrow> (swap_error, unit) fop" where
  "staging_drop k path = fop_bind (fop_try (remove_dir_all k path)) (\<lambda>_. fop_ok ())"

section \<open>The three shapes of a home\<close>

datatype SwapState = Settled | Swapped | Interrupted

definition swap_state :: "kernel \<Rightarrow> string \<Rightarrow> disk \<Rightarrow> SwapState" where
  "swap_state k home d =
     (let live = path_exists k (live_store home) d;
          rollback = path_exists k (rollback_store home) d
      in if live \<and> \<not> rollback then Settled
         else if live \<and> rollback then Swapped
         else if rollback then Interrupted
         else Settled)"

section \<open>Swapping, undoing, accepting\<close>

definition swap_in :: "kernel \<Rightarrow> string \<Rightarrow> string \<Rightarrow> nat \<Rightarrow> (swap_error, unit) fop" where
  "swap_in k home staged uid =
     (let live = live_store home; rollback = rollback_store home in
      fop_bind (check_plain_private_file k staged uid) (\<lambda>_.
      fop_bind (ask (path_exists k live)) (\<lambda>live_exists.
      fop_bind (if live_exists then check_plain_private_file k live uid else fop_ok ()) (\<lambda>_.
      fop_bind (ask (path_exists k rollback)) (\<lambda>rollback_exists.
      if rollback_exists then fop_err SwapWaiting
      else
        fop_bind (io (set_permissions k staged 384)) (\<lambda>_.
        fop_bind (io (fsync_file_and_parent k staged)) (\<lambda>_.
        fop_bind (ask (path_exists k live)) (\<lambda>still_exists.
        fop_bind (if still_exists then io (rename k live rollback) else fop_ok ()) (\<lambda>_.
        fop_bind (io (rename k staged live)) (\<lambda>_.
        io (sync k home)))))))))))"

definition roll_back :: "kernel \<Rightarrow> string \<Rightarrow> (swap_error, unit) fop" where
  "roll_back k home =
     (let live = live_store home; rollback = rollback_store home in
      fop_bind (ask (path_exists k rollback)) (\<lambda>rollback_exists.
      if \<not> rollback_exists then fop_err NothingToRollBack
      else
        fop_bind (ask (path_exists k live)) (\<lambda>live_exists.
        fop_bind (if live_exists then io (remove_file k live) else fop_ok ()) (\<lambda>_.
        fop_bind (io (rename k rollback live)) (\<lambda>_.
        io (sync k home))))))"

definition accept :: "kernel \<Rightarrow> string \<Rightarrow> (swap_error, unit) fop" where
  "accept k home =
     (let rollback = rollback_store home in
      fop_bind (ask (path_exists k rollback)) (\<lambda>rollback_exists.
      if rollback_exists
      then fop_bind (io (remove_file k rollback)) (\<lambda>_. io (sync k home))
      else fop_ok ()))"

section \<open>Contents\<close>

definition holds :: "disk \<Rightarrow> string \<Rightarrow> string \<Rightarrow> bool" where
  "holds d p content \<longleftrightarrow> (\<exists>i. d p = Some i \<and> i_node i = File content)"

definition stat_works :: "kernel \<Rightarrow> bool" where
  "stat_works k \<longleftrightarrow> (\<forall>p. \<not> k ''stat'' p)"

lemma holdsI: "d p = Some i \<Longrightarrow> i_node i = File content \<Longrightarrow> holds d p content"
  by (auto simp: holds_def)

lemma holds_exists: "holds d p content \<Longrightarrow> stat_works k \<Longrightarrow> path_exists k p d"
  by (auto simp: holds_def path_exists_def stat_works_def)

lemma absent_not_exists: "d p = None \<Longrightarrow> \<not> path_exists k p d"
  by (simp add: path_exists_def)

lemma holds_follow: "holds d p content \<Longrightarrow> follow_links (Suc n) p d = Some (p, the (d p))"
  by (auto simp: holds_def)

lemma stores_differ: "live_store home \<noteq> rollback_store home"
  by (simp add: path_join_def CREDENTIAL_FILE_def ROLLBACK_FILE_def)

text \<open>The home with the old store in place, with the old store only aside, with both.\<close>

definition with_old :: "string \<Rightarrow> string \<Rightarrow> disk \<Rightarrow> bool" where
  "with_old home old d \<longleftrightarrow> holds d (live_store home) old \<and> d (rollback_store home) = None"

definition set_aside :: "string \<Rightarrow> string \<Rightarrow> disk \<Rightarrow> bool" where
  "set_aside home old d \<longleftrightarrow> d (live_store home) = None \<and> holds d (rollback_store home) old"

definition with_both :: "string \<Rightarrow> string \<Rightarrow> string \<Rightarrow> disk \<Rightarrow> bool" where
  "with_both home old new d \<longleftrightarrow> holds d (live_store home) new \<and> holds d (rollback_store home) old"

definition shaped :: "string \<Rightarrow> string \<Rightarrow> string \<Rightarrow> disk \<Rightarrow> bool" where
  "shaped home old new d \<longleftrightarrow> with_old home old d \<or> set_aside home old d \<or> with_both home old new d"

lemma swap_state_tells:
  assumes "stat_works k"
  shows "with_old home old d \<Longrightarrow> swap_state k home d = Settled"
    and "set_aside home old d \<Longrightarrow> swap_state k home d = Interrupted"
    and "with_both home old new d \<Longrightarrow> swap_state k home d = Swapped"
  using assms by (auto simp: swap_state_def with_old_def set_aside_def with_both_def absent_not_exists holds_exists Let_def)

lemma holds_upd: "holds (d(p := x)) q c \<longleftrightarrow> (if q = p then \<exists>i. x = Some i \<and> i_node i = File c else holds d q c)"
  by (auto simp: holds_def)

lemma through_check:
  assumes "P d" and "\<And>e. Q (Inl e) d" and "\<And>i. d p = Some i \<Longrightarrow> is_file i \<Longrightarrow> Q (Inr ()) d"
  shows "through P (check_plain_private_file k p uid) d Q"
  unfolding check_plain_private_file_def
  by (rule through_get) (use assms in \<open>auto simp: symlink_metadata_def split: option.splits sum.splits\<close>)

lemma through_chmod:
  assumes "P d" and "\<And>e. Q (Inl e) d" and "holds d p c"
    and "\<And>i. i_node i = File c \<Longrightarrow> P (d(p \<mapsto> i)) \<and> Q (Inr ()) (d(p \<mapsto> i))"
  shows "through P (set_permissions k p mode) d Q"
  using assms(1,2,4) assms(3) [unfolded holds_def]
  by (auto simp: through_def set_permissions_def fop_states_def fop_final_def)

lemma through_fsync: "P d \<Longrightarrow> (\<And>r. Q r d) \<Longrightarrow> through P (fsync_file_and_parent k p) d Q"
  unfolding fsync_file_and_parent_def
  by (intro through_bind through_sync) (auto split: sum.splits intro: through_sync)

section \<open>Stopping anywhere\<close>

text \<open>The store is put in place once the old one is aside.\<close>

lemma put_in_place:
  assumes "set_aside home old d" and "holds d staged new" and "staged \<noteq> live_store home" and "staged \<noteq> rollback_store home"
  shows "through (shaped home old new) (fop_bind (io (rename k staged (live_store home))) (\<lambda>_. io (sync k home))) d
    (\<lambda>r s. is_ok r \<longrightarrow> with_both home old new s)"
proof (intro through_bind through_map_err through_rename)
  show now: "shaped home old new d" using assms(1) by (simp add: shaped_def)
  fix i assume i: "d staged = Some i"
  let ?s = "d(staged := None, live_store home := Some i)"
  have both: "with_both home old new ?s"
    using assms i stores_differ [of home] by (auto simp: with_both_def set_aside_def holds_upd) (simp add: holds_def)
  then have "shaped home old new ?s" by (simp add: shaped_def)
  with both show "shaped home old new ?s \<and>
      (case map_sum SwapIo id (Inr ()) of Inl e \<Rightarrow> is_ok (Inl e) \<longrightarrow> with_both home old new ?s
       | Inr x \<Rightarrow> through (shaped home old new) (io (sync k home)) ?s (\<lambda>r s. is_ok r \<longrightarrow> with_both home old new s))"
    by (auto intro: through_map_err through_sync)
qed simp

lemma move_aside:
  assumes "stat_works k" and "with_old home old d" and "holds d staged new"
    and "staged \<noteq> live_store home" and "staged \<noteq> rollback_store home"
  shows "through (shaped home old new)
    (fop_bind (ask (path_exists k (live_store home))) (\<lambda>still_exists.
     fop_bind (if still_exists then io (rename k (live_store home) (rollback_store home)) else fop_ok ()) (\<lambda>_.
     fop_bind (io (rename k staged (live_store home))) (\<lambda>_. io (sync k home))))) d
    (\<lambda>r s. is_ok r \<longrightarrow> with_both home old new s)"
proof -
  let ?L = "live_store home" and ?R = "rollback_store home"
  have there: "path_exists k ?L d" using assms(1,2) by (auto simp: with_old_def intro: holds_exists)
  have now: "shaped home old new d" using assms(2) by (simp add: shaped_def)
  have aside: "set_aside home old (d(?L := None, ?R := Some i)) \<and> holds (d(?L := None, ?R := Some i)) staged new" if "d ?L = Some i" for i
    using assms(2-5) that stores_differ [of home] by (auto simp: set_aside_def with_old_def holds_upd) (simp add: holds_def)
  have "through (shaped home old new) (fop_bind (io (rename k ?L ?R)) (\<lambda>_.
      fop_bind (io (rename k staged ?L)) (\<lambda>_. io (sync k home)))) d (\<lambda>r s. is_ok r \<longrightarrow> with_both home old new s)"
    by (intro through_bind [of _ "io (rename k ?L ?R)"] through_map_err through_rename)
      (use now aside put_in_place [OF _ _ assms(4,5)] in \<open>auto simp: shaped_def\<close>)
  then show ?thesis using there by simp
qed

lemma swap_in_through:
  assumes stat: "stat_works k" and old: "with_old home old d" and new: "holds d staged new"
    and apart: "staged \<noteq> live_store home" "staged \<noteq> rollback_store home"
  shows "through (shaped home old new) (swap_in k home staged uid) d (\<lambda>r s. is_ok r \<longrightarrow> with_both home old new s)"
proof -
  let ?L = "live_store home" and ?R = "rollback_store home" and ?P = "shaped home old new"
  let ?Q = "\<lambda>r s. is_ok (r :: (swap_error, unit) result) \<longrightarrow> with_both home old new s"
  let ?tail = "fop_bind (ask (path_exists k ?L)) (\<lambda>still_exists.
     fop_bind (if still_exists then io (rename k ?L ?R) else fop_ok ()) (\<lambda>_.
     fop_bind (io (rename k staged ?L)) (\<lambda>_. io (sync k home))))"
  have now: "?P d" using old by (simp add: shaped_def)
  have free: "\<not> path_exists k ?R d" using old by (simp add: with_old_def absent_not_exists)
  have kept: "with_old home old (d(staged \<mapsto> i))" "holds (d(staged \<mapsto> i)) staged new" if "i_node i = File new" for i
    using old apart that by (auto simp: with_old_def holds_upd)
  have tail: "through ?P ?tail (d(staged \<mapsto> i)) ?Q" if "i_node i = File new" for i
    by (rule move_aside [OF stat kept [OF that] apart])
  have synced: "through ?P (fop_bind (io (fsync_file_and_parent k staged)) (\<lambda>_. ?tail)) (d(staged \<mapsto> i)) ?Q" if "i_node i = File new" for i
    by (intro through_bind [of _ "io (fsync_file_and_parent k staged)"] through_map_err through_fsync)
      (use kept(1) [OF that] tail [OF that] in \<open>auto simp: shaped_def split: sum.splits\<close>)
  have chmod: "through ?P (fop_bind (io (set_permissions k staged 384)) (\<lambda>_.
      fop_bind (io (fsync_file_and_parent k staged)) (\<lambda>_. ?tail))) d ?Q"
    by (intro through_bind [of _ "io (set_permissions k staged 384)"] through_map_err through_chmod [OF _ _ new])
      (use now kept synced in \<open>auto simp: shaped_def\<close>)
  let ?wait = "fop_bind (ask (path_exists k ?R)) (\<lambda>rollback_exists.
      if rollback_exists then fop_err SwapWaiting else fop_bind (io (set_permissions k staged 384)) (\<lambda>_.
        fop_bind (io (fsync_file_and_parent k staged)) (\<lambda>_. ?tail)))"
  have waiting: "through ?P ?wait d ?Q"
    using free chmod by simp
  have checked: "through ?P (fop_bind (check_plain_private_file k p uid) (\<lambda>_. m)) d ?Q" if "through ?P m d ?Q" for p m
    by (intro through_bind [of _ "check_plain_private_file k p uid"] through_check) (use now that in simp_all)
  have guarded: "through ?P (fop_bind (if b then check_plain_private_file k ?L uid else fop_ok ()) (\<lambda>_. ?wait)) d ?Q" for b
    using checked [OF waiting] waiting by (cases b) simp_all
  show ?thesis unfolding swap_in_def Let_def by (rule checked) (simp only: through_ask guarded)
qed


text \<open>Undoing a swap keeps the old store on the disk all the way, and ends with it in place.\<close>

lemma restore:
  assumes "set_aside home old d"
  shows "through (shaped home old new) (fop_bind (io (rename k (rollback_store home) (live_store home))) (\<lambda>_. io (sync k home))) d
    (\<lambda>r s. is_ok r \<longrightarrow> with_old home old s)"
proof (intro through_bind through_map_err through_rename)
  let ?L = "live_store home" and ?R = "rollback_store home"
  show "shaped home old new d" using assms by (simp add: shaped_def)
  fix i assume "d ?R = Some i"
  then have old: "with_old home old (d(?R := None, ?L := Some i))"
    using assms stores_differ [of home] by (auto simp: with_old_def set_aside_def holds_upd) (simp add: holds_def)
  then have "shaped home old new (d(?R := None, ?L := Some i))" by (simp add: shaped_def)
  with old show "shaped home old new (d(?R := None, ?L := Some i)) \<and>
      (case map_sum SwapIo id (Inr ()) of Inl e \<Rightarrow> is_ok (Inl e) \<longrightarrow> with_old home old (d(?R := None, ?L := Some i))
       | Inr x \<Rightarrow> through (shaped home old new) (io (sync k home)) (d(?R := None, ?L := Some i)) (\<lambda>r s. is_ok r \<longrightarrow> with_old home old s))"
    by (auto intro: through_map_err through_sync)
qed simp

lemma roll_back_through:
  assumes "stat_works k" and "set_aside home old d \<or> with_both home old new d"
  shows "through (shaped home old new) (roll_back k home) d (\<lambda>r s. is_ok r \<longrightarrow> with_old home old s)"
proof -
  let ?L = "live_store home" and ?R = "rollback_store home" and ?P = "shaped home old new"
  let ?Q = "\<lambda>r s. is_ok (r :: (swap_error, unit) result) \<longrightarrow> with_old home old s"
  let ?rest = "fop_bind (io (rename k ?R ?L)) (\<lambda>_. io (sync k home))"
  have now: "?P d" using assms(2) by (auto simp: shaped_def)
  have aside: "path_exists k ?R d" using assms by (auto simp: set_aside_def with_both_def intro: holds_exists)
  have "through ?P (fop_bind (if path_exists k ?L d then io (remove_file k ?L) else fop_ok ()) (\<lambda>_. ?rest)) d ?Q"
  proof (cases "path_exists k ?L d")
    case True
    then have both: "with_both home old new d" using assms(2) by (auto simp: set_aside_def absent_not_exists)
    then have "set_aside home old (d(?L := None))"
      using stores_differ [of home] by (auto simp: with_both_def set_aside_def holds_upd)
    then show ?thesis using True now
      by (auto intro!: through_bind [of _ "io (remove_file k ?L)"] through_map_err through_remove_file restore simp: shaped_def)
  next
    case False
    then have "set_aside home old d" using assms by (auto simp: with_both_def dest: holds_exists)
    then show ?thesis using False restore by simp
  qed
  then show ?thesis using aside by (simp add: roll_back_def Let_def)
qed

text \<open>Nothing but a refusal of the kernel stops a roll back.\<close>

definition willing :: "kernel \<Rightarrow> bool" where
  "willing k \<longleftrightarrow> (\<forall>call p. \<not> k call p)"

lemma willing_stat: "willing k \<Longrightarrow> stat_works k"
  by (simp add: willing_def stat_works_def)

lemma store_not_home: "path_join home CREDENTIAL_FILE \<noteq> home" "path_join home ROLLBACK_FILE \<noteq> home"
  by (auto simp: path_join_def CREDENTIAL_FILE_def ROLLBACK_FILE_def)

lemma rename_succeeds:
  assumes "willing k" and "holds d a c" and "\<And>j. d b = Some j \<Longrightarrow> \<not> is_dir j" and "Q (Inr ()) (d(a := None, b := d a))"
  shows "through (\<lambda>_. True) (rename k a b) d Q"
  using assms by (auto simp: through_def rename_def holds_def willing_def is_dir_def fop_states_def fop_final_def split: option.splits)

lemma remove_succeeds:
  assumes "willing k" and "holds d p c" and "Q (Inr ()) (d(p := None))"
  shows "through (\<lambda>_. True) (remove_file k p) d Q"
  using assms by (auto simp: through_def remove_file_def holds_def willing_def is_dir_def fop_states_def fop_final_def)

lemma sync_succeeds:
  assumes "willing k" and "d home = Some i" and "is_dir i" and "Q (Inr ()) d"
  shows "through (\<lambda>_. True) (sync k home) d Q"
  using assms unfolding sync_def by (intro through_get) (auto simp: path_exists_def willing_def is_dir_def)

lemma restore_succeeds:
  assumes "willing k" and "d home = Some i" and "is_dir i" and "set_aside home old d"
  shows "through (\<lambda>_. True) (fop_bind (io (rename k (rollback_store home) (live_store home))) (\<lambda>_. io (sync k home))) d (\<lambda>r s. is_ok r)"
proof (intro through_bind through_map_err rename_succeeds [OF assms(1)])
  show "holds d (rollback_store home) old" using assms(4) by (simp add: set_aside_def)
  show "\<not> is_dir j" if "d (live_store home) = Some j" for j using assms(4) that by (simp add: set_aside_def)
  show "case map_sum SwapIo id (Inr ()) of
      Inl e \<Rightarrow> is_ok (Inl e)
    | Inr x \<Rightarrow> through (\<lambda>_. True) (io (sync k home)) (d(rollback_store home := None, live_store home := d (rollback_store home))) (\<lambda>r s. is_ok r)"
    using assms(2) store_not_home [of home] by (auto intro!: through_map_err sync_succeeds [OF assms(1) _ assms(3)])
qed

lemma roll_back_succeeds:
  assumes "willing k" and "d home = Some i" and "is_dir i" and "set_aside home old d \<or> with_both home old new d"
  shows "is_ok (fst (roll_back k home d))"
proof -
  let ?L = "live_store home" and ?R = "rollback_store home"
  let ?rest = "fop_bind (io (rename k ?R ?L)) (\<lambda>_. io (sync k home))"
  have aside: "path_exists k ?R d" using assms(4) willing_stat [OF assms(1)] by (auto simp: set_aside_def with_both_def intro: holds_exists)
  have "through (\<lambda>_. True) (fop_bind (if path_exists k ?L d then io (remove_file k ?L) else fop_ok ()) (\<lambda>_. ?rest)) d (\<lambda>r s. is_ok r)"
  proof (cases "path_exists k ?L d")
    case True
    then have both: "with_both home old new d" using assms(4) by (auto simp: set_aside_def absent_not_exists)
    then have "set_aside home old (d(?L := None))" "(d(?L := None)) home = Some i"
      using stores_differ [of home] store_not_home [of home] assms(2) by (auto simp: with_both_def set_aside_def holds_upd)
    then have "through (\<lambda>_. True) ?rest (d(?L := None)) (\<lambda>r s. is_ok r)" by (intro restore_succeeds [OF assms(1) _ assms(3)])
    moreover have "holds d ?L new" using both by (simp add: with_both_def)
    ultimately show ?thesis using True
      by (auto intro!: through_bind [of _ "io (remove_file k ?L)"] through_map_err remove_succeeds [OF assms(1)])
  next
    case False
    then have "set_aside home old d" using assms(4) willing_stat [OF assms(1)] by (auto simp: with_both_def dest: holds_exists)
    then have "through (\<lambda>_. True) ?rest d (\<lambda>r s. is_ok r)" by (rule restore_succeeds [of k d home i, OF assms(1-3)])
    then show ?thesis using False by simp
  qed
  then have "through (\<lambda>_. True) (roll_back k home) d (\<lambda>r s. is_ok r)" using aside by (simp add: roll_back_def Let_def)
  then show ?thesis by (simp add: through_def)
qed

lemma accept_through:
  assumes "with_both home old new d"
  shows "through (\<lambda>s. holds s (live_store home) new) (accept k home) d
    (\<lambda>r s. is_ok r \<longrightarrow> path_exists k (rollback_store home) d \<longrightarrow> s (rollback_store home) = None)"
proof -
  let ?L = "live_store home" and ?R = "rollback_store home"
  have "holds d ?L new" using assms by (simp add: with_both_def)
  then have "holds (d(?R := None)) ?L new" using stores_differ [of home] by (simp add: holds_upd)
  then show ?thesis using \<open>holds d ?L new\<close> unfolding accept_def Let_def
    by (auto intro!: through_bind [of _ "io (remove_file k ?R)"] through_map_err through_remove_file through_sync through_ok)
qed

section \<open>Properties\<close>

definition demo_disk :: disk where
  "demo_disk = [''/h'' \<mapsto> \<lparr>i_node = Dir, i_uid = 7, i_mode = 448\<rparr>,
     ''/h/auth.json'' \<mapsto> \<lparr>i_node = File ''old'', i_uid = 7, i_mode = 384\<rparr>,
     ''/s/auth.json'' \<mapsto> \<lparr>i_node = File ''new'', i_uid = 7, i_mode = 384\<rparr>,
     ''/s'' \<mapsto> \<lparr>i_node = Dir, i_uid = 7, i_mode = 448\<rparr>]"

text \<open>
  C31.  A node may be stopped between any two changes it makes to a credential home.
  Whatever moment that is while a staged store is swapped in, the home has one of three
  shapes, and \<open>swap_state\<close> tells which: the old store in place, the old store set aside with
  nothing in place, or the new store in place beside the old one.  From the last two a roll
  back loses the old store at no moment, ends with it in place, and is stopped by nothing but
  the kernel.  A swap that reports success left both stores, and accepting it keeps the new
  one in place throughout and removes the old one.
\<close>

theorem credential_swap_is_recoverable:
  assumes "stat_works k" and "with_old home old d" and "holds d staged new"
    and "staged \<noteq> live_store home" and "staged \<noteq> rollback_store home"
  shows "(\<forall>s \<in> set (fop_states (swap_in k home staged uid) d).
      (case swap_state k home s of
         Settled \<Rightarrow> with_old home old s
       | Interrupted \<Rightarrow> set_aside home old s
       | Swapped \<Rightarrow> with_both home old new s) \<and>
      (swap_state k home s \<noteq> Settled \<longrightarrow>
         (\<forall>t \<in> set (fop_states (roll_back k home) s). holds t (live_store home) old \<or> holds t (rollback_store home) old) \<and>
         (is_ok (fst (roll_back k home s)) \<longrightarrow> with_old home old (fop_final (roll_back k home) s)) \<and>
         (willing k \<longrightarrow> (\<exists>i. s home = Some i \<and> is_dir i) \<longrightarrow> is_ok (fst (roll_back k home s))))) \<and>
    (is_ok (fst (swap_in k home staged uid d)) \<longrightarrow>
       (let s = fop_final (swap_in k home staged uid) d in
        with_both home old new s \<and>
        (\<forall>t \<in> set (fop_states (accept k home) s). holds t (live_store home) new) \<and>
        (is_ok (fst (accept k home s)) \<longrightarrow> fop_final (accept k home) s (rollback_store home) = None)))"
proof -
  have through: "through (shaped home old new) (swap_in k home staged uid) d (\<lambda>r s. is_ok r \<longrightarrow> with_both home old new s)"
    by (rule swap_in_through [OF assms])
  note tells = swap_state_tells [OF assms(1), of home old] swap_state_tells(3) [OF assms(1), of home old new]
  have shape: "(case swap_state k home s of Settled \<Rightarrow> with_old home old s | Interrupted \<Rightarrow> set_aside home old s
      | Swapped \<Rightarrow> with_both home old new s)" if "shaped home old new s" for s
    using that tells by (auto simp: shaped_def)
  have recover: "(\<forall>t \<in> set (fop_states (roll_back k home) s). holds t (live_store home) old \<or> holds t (rollback_store home) old) \<and>
      (is_ok (fst (roll_back k home s)) \<longrightarrow> with_old home old (fop_final (roll_back k home) s)) \<and>
      (willing k \<longrightarrow> (\<exists>i. s home = Some i \<and> is_dir i) \<longrightarrow> is_ok (fst (roll_back k home s)))"
    if "set_aside home old s \<or> with_both home old new s" for s
    using roll_back_through [OF assms(1) that] roll_back_succeeds [OF _ _ _ that]
    by (auto simp: through_def shaped_def with_old_def set_aside_def with_both_def)
  have accepted: "(\<forall>t \<in> set (fop_states (accept k home) s). holds t (live_store home) new) \<and>
      (is_ok (fst (accept k home s)) \<longrightarrow> fop_final (accept k home) s (rollback_store home) = None)" if "with_both home old new s" for s
    using accept_through [OF that, of k] holds_exists [OF _ assms(1)] that by (auto simp: through_def with_both_def)
  have "\<forall>s \<in> set (fop_states (swap_in k home staged uid) d). shaped home old new s" using through by (simp add: through_def)
  moreover have "is_ok (fst (swap_in k home staged uid d)) \<longrightarrow> with_both home old new (fop_final (swap_in k home staged uid) d)"
    using through by (simp add: through_def)
  moreover have "set_aside home old s \<or> with_both home old new s" if "shaped home old new s" "swap_state k home s \<noteq> Settled" for s
    using that tells by (auto simp: shaped_def)
  ultimately show ?thesis unfolding Let_def using shape recover accepted by blast
qed

theorem credential_swap_is_recoverable_witness:
  "is_ok (fst (swap_in (\<lambda>_ _. False) ''/h'' ''/s/auth.json'' 7 demo_disk)) \<and>
   with_both ''/h'' ''old'' ''new'' (fop_final (swap_in (\<lambda>_ _. False) ''/h'' ''/s/auth.json'' 7) demo_disk)"
proof -
  let ?k = "\<lambda>_ _. False"
  have "stat_works ?k" by (simp add: stat_works_def)
  moreover have "with_old ''/h'' ''old'' demo_disk" "holds demo_disk ''/s/auth.json'' ''new''"
    by (simp_all add: with_old_def holds_def demo_disk_def path_join_def CREDENTIAL_FILE_def ROLLBACK_FILE_def ends_with_def)
  moreover have "''/s/auth.json'' \<noteq> live_store ''/h''" "''/s/auth.json'' \<noteq> rollback_store ''/h''"
    by (simp_all add: path_join_def CREDENTIAL_FILE_def ROLLBACK_FILE_def ends_with_def)
  ultimately have "is_ok (fst (swap_in ?k ''/h'' ''/s/auth.json'' 7 demo_disk)) \<longrightarrow>
      with_both ''/h'' ''old'' ''new'' (fop_final (swap_in ?k ''/h'' ''/s/auth.json'' 7) demo_disk)"
    using credential_swap_is_recoverable [of ?k "''/h''" "''old''" demo_disk "''/s/auth.json''" "''new''" 7] by (simp add: Let_def)
  moreover have "is_ok (fst (swap_in ?k ''/h'' ''/s/auth.json'' 7 demo_disk))" by code_simp
  ultimately show ?thesis by blast
qed

end
