(* ===== verification/Credential_Homes.thy ===== *)
theory Credential_Homes
  imports Disk Inventory Credential_Swap
begin

text \<open>
  \<open>src/src/credential_homes.rs\<close>: where an isolated credential lives, what a project's link
  to it may be, and how that link is replaced.
\<close>

section \<open>Paths\<close>

definition ROOT_NAME :: string where "ROOT_NAME = ''credentials''"
definition LOCK_FILE :: string where "LOCK_FILE = ''auth.lock''"

definition managed_root :: "string \<Rightarrow> string" where
  "managed_root node_home = path_join node_home ROOT_NAME"

definition credential_home :: "string \<Rightarrow> string \<Rightarrow> (id_error, string) result" where
  "credential_home root credential_id =
     rbind (validate_credential_id credential_id) (\<lambda>_. Inr (path_join root credential_id))"

definition credential_file :: "string \<Rightarrow> string \<Rightarrow> (id_error, string) result" where
  "credential_file root credential_id =
     rbind (credential_home root credential_id) (\<lambda>home. Inr (path_join home CREDENTIAL_FILE))"

definition lock_file :: "string \<Rightarrow> string \<Rightarrow> (id_error, string) result" where
  "lock_file root credential_id =
     rbind (credential_home root credential_id) (\<lambda>home. Inr (path_join home LOCK_FILE))"

section \<open>Homes on disk\<close>

datatype home_error =
    HomeIo io_error
  | HomeIsSymlink string
  | HomeNotDirectory string
  | HomeOwner string nat
  | HomeOpen string
  | HomeId id_error
  | TargetNotPlain
  | NotReplaced string

definition check_private_dir :: "Inode \<Rightarrow> nat \<Rightarrow> string \<Rightarrow> (home_error, unit) result" where
  "check_private_dir i uid what =
     (if is_symlink i then Inl (HomeIsSymlink what)
      else if \<not> is_dir i then Inl (HomeNotDirectory what)
      else if i_uid i \<noteq> uid then Inl (HomeOwner what (i_uid i))
      else if open_beyond_owner i then Inl (HomeOpen what)
      else Inr ())"

text \<open>\<open>me\<close> and \<open>umask_mode\<close> are the account the node runs as and the mode a new directory gets.\<close>

definition ensure_root :: "kernel \<Rightarrow> nat \<Rightarrow> nat \<Rightarrow> string \<Rightarrow> nat \<Rightarrow> (home_error, unit) fop" where
  "ensure_root k me umask_mode root uid =
     fop_bind (\<lambda>d. case symlink_metadata k root d of
         Inr _ \<Rightarrow> (Inr (), [])
       | Inl NotFound \<Rightarrow>
           fop_bind (fop_map_err HomeIo (create_dir_all k me umask_mode (parent_dir root))) (\<lambda>_.
           fop_bind (fop_map_err HomeIo (create_dir k me umask_mode root)) (\<lambda>_.
             fop_map_err HomeIo (set_permissions k root 448))) d
       | Inl e \<Rightarrow> (Inl (HomeIo e), [])) (\<lambda>_.
     fop_get (\<lambda>d. case symlink_metadata k root d of
         Inl e \<Rightarrow> Inl (HomeIo e)
       | Inr i \<Rightarrow> check_private_dir i uid ''the credential root''))"

definition create_home :: "kernel \<Rightarrow> nat \<Rightarrow> nat \<Rightarrow> string \<Rightarrow> string \<Rightarrow> nat \<Rightarrow> (home_error, string) fop" where
  "create_home k me umask_mode root credential_id uid =
     fop_bind (ensure_root k me umask_mode root uid) (\<lambda>_.
     fop_bind (fop_get (\<lambda>_. map_sum HomeId id (credential_home root credential_id))) (\<lambda>home.
     fop_bind (fop_map_err HomeIo (create_dir k me umask_mode home)) (\<lambda>_.
     fop_bind (fop_map_err HomeIo (set_permissions k home 448)) (\<lambda>_. fop_ok home))))"

datatype HomeState = HomeReady | HomeMissing | HomeInvalid | CredentialMissing | CredentialUnreadable

definition inspect :: "kernel \<Rightarrow> string \<Rightarrow> string \<Rightarrow> nat \<Rightarrow> disk \<Rightarrow> HomeState" where
  "inspect k root credential_id uid d =
     (case credential_home root credential_id of
        Inl _ \<Rightarrow> HomeInvalid
      | Inr home \<Rightarrow>
          (case symlink_metadata k root d of
             Inl _ \<Rightarrow> HomeMissing
           | Inr r \<Rightarrow>
               if \<not> is_ok (check_private_dir r uid ''the credential root'') then HomeInvalid
               else (case symlink_metadata k home d of
                   Inl _ \<Rightarrow> HomeMissing
                 | Inr h \<Rightarrow>
                     if \<not> is_ok (check_private_dir h uid ''the credential home'') then HomeInvalid
                     else (case symlink_metadata k (path_join home CREDENTIAL_FILE) d of
                         Inl NotFound \<Rightarrow> CredentialMissing
                       | Inl _ \<Rightarrow> CredentialUnreadable
                       | Inr i \<Rightarrow>
                           if is_symlink i \<or> \<not> is_file i then CredentialUnreadable
                           else if i_uid i \<noteq> uid \<or> open_beyond_owner i then CredentialUnreadable
                           else if i_node i = File [] then CredentialUnreadable
                           else HomeReady))))"

section \<open>Where a link points\<close>

datatype LinkTarget = LinkMissing | NotALink | LegacySharedPool | Isolated string | Elsewhere

text \<open>The two names that remain below the root, when there are exactly two.\<close>

definition two_below :: "string \<Rightarrow> string \<Rightarrow> (string \<times> string) option" where
  "two_below root target =
     (case strip_components (components root) (components target) of
        Some [Normal a, Normal b] \<Rightarrow> Some (a, b)
      | _ \<Rightarrow> None)"

definition classify_target :: "string \<Rightarrow> string \<Rightarrow> string \<Rightarrow> LinkTarget" where
  "classify_target target root shared_pool =
     (if target = shared_pool then LegacySharedPool
      else case two_below root target of
          None \<Rightarrow> Elsewhere
        | Some (credential_id, name) \<Rightarrow>
            if name \<noteq> CREDENTIAL_FILE then Elsewhere
            else (case credential_file root credential_id of
                Inr expected \<Rightarrow> if expected = target then Isolated credential_id else Elsewhere
              | Inl _ \<Rightarrow> Elsewhere))"

definition read_link :: "kernel \<Rightarrow> string \<Rightarrow> disk \<Rightarrow> string option" where
  "read_link k p d =
     (if k ''readlink'' p then None
      else case d p of Some i \<Rightarrow> (case i_node i of Link t \<Rightarrow> Some t | _ \<Rightarrow> None) | None \<Rightarrow> None)"

definition classify_link :: "kernel \<Rightarrow> string \<Rightarrow> string \<Rightarrow> string \<Rightarrow> disk \<Rightarrow> LinkTarget" where
  "classify_link k link root shared_pool d =
     (case symlink_metadata k link d of
        Inl _ \<Rightarrow> LinkMissing
      | Inr i \<Rightarrow>
          if \<not> is_symlink i then NotALink
          else (case read_link k link d of
              None \<Rightarrow> Elsewhere
            | Some target \<Rightarrow> classify_target target root shared_pool))"

section \<open>Replacing a link\<close>

definition is_plain_absolute :: "string \<Rightarrow> bool" where
  "is_plain_absolute path =
     (case strip_prefix ''/'' path of
        None \<Rightarrow> False
      | Some rest \<Rightarrow> rest \<noteq> [] \<and> list_all (\<lambda>s. s \<noteq> [] \<and> s \<noteq> ''.'' \<and> s \<noteq> ''..'') (segments rest))"

text \<open>\<open>nonce\<close> is the random part of the name the new link is made under.\<close>

definition staging_link :: "string \<Rightarrow> string \<Rightarrow> string" where
  "staging_link link nonce = path_join (parent_dir link) (''.'' @ file_name link @ ''.asterism-'' @ nonce)"

text \<open>The staged link is renamed over the old one, and removed again when that fails.\<close>

definition move_staged :: "kernel \<Rightarrow> string \<Rightarrow> string \<Rightarrow> (home_error, unit) fop" where
  "move_staged k staging link =
     fop_bind (fop_try (rename k staging link)) (\<lambda>moved.
       case moved of
         Inr _ \<Rightarrow> fop_ok ()
       | Inl e \<Rightarrow> fop_bind (fop_try (remove_file k staging)) (\<lambda>_. fop_err (HomeIo e)))"

definition swap_link :: "kernel \<Rightarrow> nat \<Rightarrow> string \<Rightarrow> string \<Rightarrow> string \<Rightarrow> bool \<Rightarrow> (home_error, unit) fop" where
  "swap_link k me nonce target link replace_file =
     (if \<not> is_plain_absolute target then fop_err TargetNotPlain
      else
        fop_bind (fop_get (\<lambda>d. case symlink_metadata k link d of
            Inr i \<Rightarrow> if is_symlink i \<or> is_file i \<and> replace_file then Inr () else Inl (NotReplaced (file_name link))
          | Inl NotFound \<Rightarrow> Inr ()
          | Inl e \<Rightarrow> Inl (HomeIo e))) (\<lambda>_.
        let staging = staging_link link nonce in
        fop_bind (fop_map_err HomeIo (symlink k me target staging)) (\<lambda>_. move_staged k staging link)))"

definition remove_link :: "kernel \<Rightarrow> string \<Rightarrow> (home_error, unit) fop" where
  "remove_link k link = (\<lambda>d.
     case symlink_metadata k link d of
       Inr i \<Rightarrow> if is_symlink i then fop_map_err HomeIo (remove_file k link) d else (Inr (), [])
     | Inl NotFound \<Rightarrow> (Inr (), [])
     | Inl e \<Rightarrow> (Inl (HomeIo e), []))"

section \<open>The judgement of one reference\<close>

datatype ReferenceState =
    RefLegacySharedPool
  | RefIsolated
  | RefHomeMissing
  | RefLinkTargetInvalid
  | RefUnreadable
  | RefUnavailable

fun reference_wire :: "ReferenceState \<Rightarrow> string" where
  "reference_wire RefLegacySharedPool = ''legacy_shared_pool''"
| "reference_wire RefIsolated = ''isolated''"
| "reference_wire RefHomeMissing = ''credential_home_missing''"
| "reference_wire RefLinkTargetInvalid = ''link_target_invalid''"
| "reference_wire RefUnreadable = ''credential_unreadable''"
| "reference_wire RefUnavailable = ''credential_unavailable''"

definition is_healthy :: "ReferenceState \<Rightarrow> bool" where
  "is_healthy s \<longleftrightarrow> s = RefLegacySharedPool \<or> s = RefIsolated"

definition reference_state ::
  "kernel \<Rightarrow> string \<Rightarrow> string \<Rightarrow> string \<Rightarrow> string option \<Rightarrow> nat \<Rightarrow> (string \<Rightarrow> bool) \<Rightarrow> disk \<Rightarrow> ReferenceState" where
  "reference_state k link root shared_pool assignment uid authorized d =
     (let target = classify_link k link root shared_pool d in
      case assignment of
        None \<Rightarrow> if target = LegacySharedPool then RefLegacySharedPool else RefLinkTargetInvalid
      | Some credential_id \<Rightarrow>
          (case inspect k root credential_id uid d of
             HomeMissing \<Rightarrow> RefHomeMissing
           | HomeInvalid \<Rightarrow> RefUnreadable
           | CredentialUnreadable \<Rightarrow> RefUnreadable
           | CredentialMissing \<Rightarrow> RefUnavailable
           | HomeReady \<Rightarrow>
               if target \<noteq> Isolated credential_id then RefLinkTargetInvalid
               else if \<not> authorized credential_id then RefUnavailable
               else RefIsolated))"

section \<open>Only the exact target counts\<close>

lemma segments_plain: "CHR ''/'' \<notin> set s \<Longrightarrow> segments s = [s]"
  by (subst segments.simps) (simp add: split_byte_None [THEN iffD2])

lemma segments_nonempty: "segments s \<noteq> []"
  by (subst segments.simps) (auto split: option.splits)

lemma segments_append: "segments (a @ CHR ''/'' # b) = segments a @ segments b"
proof (induction a rule: segments.induct)
  case (1 a)
  show ?case
  proof (cases "split_byte (CHR ''/'') a")
    case None
    then have "split_byte (CHR ''/'') (a @ CHR ''/'' # b) = Some (a, b)" by (simp add: split_byte_Some)
    moreover have "segments a = [a]" using None by (intro segments_plain) simp
    ultimately show ?thesis by (simp add: segments.simps [of "a @ CHR ''/'' # b"])
  next
    case (Some xy)
    obtain x y where xy: "xy = (x, y)" by fastforce
    have "split_byte (CHR ''/'') (a @ CHR ''/'' # b) = Some (x, y @ CHR ''/'' # b)"
      using split_byte_append [OF Some [unfolded xy]] by simp
    then show ?thesis using 1 [OF Some xy [symmetric]] Some
      by (simp add: xy segments.simps [of a] segments.simps [of "a @ CHR ''/'' # b"])
  qed
qed

lemma strip_components_append: "strip_components a (a @ b) = Some b"
  by (induction a) auto

lemma components_append:
  assumes "a \<noteq> []" and "CHR ''/'' \<notin> set s" and "s \<noteq> []" and "s \<noteq> ''.''" and "s \<noteq> ''..''"
  shows "components (a @ CHR ''/'' # s) = components a @ [Normal s]"
proof -
  have "starts_with ''/'' (a @ CHR ''/'' # s) = starts_with ''/'' a" using assms(1) by (cases a) (auto simp: starts_with_def)
  then show ?thesis
    using assms segments_nonempty [of a] by (simp add: components_def segments_append segments_plain seg_component_def)
qed

lemma safe_token_name:
  assumes "is_safe_token s"
  shows "CHR ''/'' \<notin> set s" and "s \<noteq> []" and "s \<noteq> ''.''" and "s \<noteq> ''..''"
  using assms by (auto simp: is_safe_token_def list_all_iff is_ascii_lower_def is_ascii_digit_def)

lemma validate_credential_id_token: "validate_credential_id s = Inr u \<Longrightarrow> is_safe_token s"
  by (auto simp: validate_credential_id_def split: if_splits)

lemma ends_slash: "CHR ''/'' \<notin> set s \<Longrightarrow> s \<noteq> [] \<Longrightarrow> \<not> ends_with ''/'' (p @ s)"
proof
  assume s: "CHR ''/'' \<notin> set s" "s \<noteq> []" and "ends_with ''/'' (p @ s)"
  then obtain r where "p @ s = r @ ''/''" by (auto simp: ends_with_iff)
  then have "last s = CHR ''/''" using s(2) by (metis last_appendR last_snoc)
  then show False using s last_in_set by metis
qed

lemma path_join_name:
  assumes "CHR ''/'' \<notin> set s" and "p \<noteq> []" and "\<not> ends_with ''/'' p"
  shows "path_join p s = p @ CHR ''/'' # s"
proof -
  have "\<not> starts_with ''/'' s" using assms(1) by (cases s) (auto simp: starts_with_def)
  then show ?thesis using assms(2,3) by (simp add: path_join_def)
qed

lemma credential_file_exact:
  assumes "root \<noteq> []" and "\<not> ends_with ''/'' root" and "validate_credential_id credential_id = Inr u"
  shows "credential_file root credential_id = Inr (root @ CHR ''/'' # credential_id @ CHR ''/'' # CREDENTIAL_FILE)"
    and "two_below root (root @ CHR ''/'' # credential_id @ CHR ''/'' # CREDENTIAL_FILE) = Some (credential_id, CREDENTIAL_FILE)"
proof -
  note n = safe_token_name [OF validate_credential_id_token [OF assms(3)]]
  have f: "CHR ''/'' \<notin> set CREDENTIAL_FILE" "CREDENTIAL_FILE \<noteq> []" "CREDENTIAL_FILE \<noteq> ''.''" "CREDENTIAL_FILE \<noteq> ''..''"
    by (simp_all add: CREDENTIAL_FILE_def)
  let ?home = "root @ CHR ''/'' # credential_id"
  have "\<not> ends_with ''/'' ?home" using ends_slash [OF n(1,2), of "root @ ''/''"] by simp
  then have "path_join ?home CREDENTIAL_FILE = ?home @ CHR ''/'' # CREDENTIAL_FILE" by (intro path_join_name f) simp_all
  then show "credential_file root credential_id = Inr (root @ CHR ''/'' # credential_id @ CHR ''/'' # CREDENTIAL_FILE)"
    using assms(3) path_join_name [OF n(1) assms(1,2)] by (simp add: credential_file_def credential_home_def)
  have "components (?home @ CHR ''/'' # CREDENTIAL_FILE) = components root @ [Normal credential_id, Normal CREDENTIAL_FILE]"
    using components_append [OF _ f, of ?home] components_append [OF assms(1) n] by simp
  then show "two_below root (root @ CHR ''/'' # credential_id @ CHR ''/'' # CREDENTIAL_FILE) = Some (credential_id, CREDENTIAL_FILE)"
    by (simp add: two_below_def strip_components_append)
qed

text \<open>A link counts as isolated exactly when it is, byte for byte, the one this node writes for a valid id.\<close>

lemma classify_target_isolated:
  assumes "root \<noteq> []" and "\<not> ends_with ''/'' root"
  shows "classify_target target root pool = Isolated credential_id \<longleftrightarrow>
    target \<noteq> pool \<and> credential_file root credential_id = Inr target"
proof
  assume "classify_target target root pool = Isolated credential_id"
  then show "target \<noteq> pool \<and> credential_file root credential_id = Inr target"
    by (auto simp: classify_target_def split: if_splits option.splits sum.splits)
next
  assume t: "target \<noteq> pool \<and> credential_file root credential_id = Inr target"
  then obtain u where u: "validate_credential_id credential_id = Inr u"
    by (auto simp: credential_file_def credential_home_def rbind_eq_Inr)
  note e = credential_file_exact [OF assms u]
  then have "target = root @ CHR ''/'' # credential_id @ CHR ''/'' # CREDENTIAL_FILE" using t by simp
  then show "classify_target target root pool = Isolated credential_id" using t e by (simp add: classify_target_def)
qed

section \<open>A link is replaced in one step\<close>

lemma dropWhile_takeWhile_length:
  "length (takeWhile P xs) + length (dropWhile P xs) = length xs"
  by (metis length_append takeWhile_dropWhile_id)

lemma staging_link_differs: "staging_link link nonce \<noteq> link"
proof -
  let ?P = "\<lambda>c. c \<noteq> CHR ''/''"
  have "length (takeWhile ?P (rev link)) + length (dropWhile ?P (rev link)) = length link"
    using dropWhile_takeWhile_length [of ?P "rev link"] by simp
  then have "length link < length (staging_link link nonce)"
    by (auto simp: staging_link_def path_join_def parent_dir_def file_name_def starts_with_def Let_def)
  then show ?thesis by auto
qed

definition links_to :: "disk \<Rightarrow> string \<Rightarrow> string \<Rightarrow> bool" where
  "links_to d p target \<longleftrightarrow> (\<exists>i. d p = Some i \<and> i_node i = Link target)"

text \<open>The staged name of a file never is the name of another file of the same directory.\<close>

lemma parent_dir_join:
  assumes "CHR ''/'' \<notin> set y" and "home \<noteq> []"
  shows "parent_dir (home @ CHR ''/'' # y) = home"
proof -
  have "dropWhile (\<lambda>c. c \<noteq> CHR ''/'') (rev y @ CHR ''/'' # rev home) = dropWhile (\<lambda>c. c \<noteq> CHR ''/'') (CHR ''/'' # rev home)"
    using assms(1) by (intro dropWhile_append2) auto
  then show ?thesis using assms(2) by (simp add: parent_dir_def Let_def)
qed

lemma parent_dir_slash: "CHR ''/'' \<notin> set y \<Longrightarrow> parent_dir (CHR ''/'' # y) = ''/''"
proof -
  assume "CHR ''/'' \<notin> set y"
  then have "dropWhile (\<lambda>c. c \<noteq> CHR ''/'') (rev y @ [CHR ''/'']) = dropWhile (\<lambda>c. c \<noteq> CHR ''/'') [CHR ''/'']"
    by (intro dropWhile_append2) auto
  then show ?thesis by (simp add: parent_dir_def Let_def starts_with_def)
qed

lemma parent_dir_none: "CHR ''/'' \<notin> set y \<Longrightarrow> parent_dir y = []"
proof -
  assume y: "CHR ''/'' \<notin> set y"
  then have "dropWhile (\<lambda>c. c \<noteq> CHR ''/'') (rev y) = []" by auto
  moreover have "\<not> starts_with ''/'' y" using y by (cases y) (auto simp: starts_with_def)
  ultimately show ?thesis by (simp add: parent_dir_def del: dropWhile_eq_Nil_conv)
qed

lemma staging_link_other:
  assumes x: "x \<noteq> []" "hd x \<noteq> CHR ''.''" "hd x \<noteq> CHR ''/''" and y: "CHR ''/'' \<notin> set y" "y \<noteq> []"
  shows "path_join home x \<noteq> staging_link (path_join home y) n"
proof -
  obtain c cs where c: "x = c # cs" "c \<noteq> CHR ''.''" "c \<noteq> CHR ''/''" using x by (cases x) auto
  have sy: "\<not> starts_with ''/'' y" using y by (cases y) (auto simp: starts_with_def)
  have sx: "\<not> starts_with ''/'' x" using c by (simp add: starts_with_def)
  define r where "r = file_name (path_join home y) @ ''.asterism-'' @ n"
  have st: "staging_link (path_join home y) n = path_join (parent_dir (path_join home y)) (CHR ''.'' # r)"
    by (simp add: staging_link_def r_def)
  show ?thesis
  proof (cases "home = [] \<or> ends_with ''/'' home")
    case False
    then show ?thesis unfolding st using sx sy c parent_dir_join [OF y(1), of home] by (simp add: path_join_def starts_with_def)
  next
    case True
    show ?thesis
    proof (cases "home = []")
      case True
      then show ?thesis unfolding st using sx sy c parent_dir_none [OF y(1)] by (simp add: path_join_def starts_with_def)
    next
      case False
      then obtain h where h: "home = h @ ''/''" using True by (auto simp: ends_with_iff)
      then show ?thesis unfolding st using sx sy c True False parent_dir_join [OF y(1), of h] parent_dir_slash [OF y(1)]
        by (cases "h = []") (auto simp: path_join_def starts_with_def ends_with_iff)
    qed
  qed
qed

text \<open>A reader sees the old entry or the new link at every moment, and nothing else changes.\<close>

definition link_kept :: "disk \<Rightarrow> string \<Rightarrow> string \<Rightarrow> string \<Rightarrow> disk \<Rightarrow> bool" where
  "link_kept d link staging target s \<longleftrightarrow>
     (s link = d link \<or> links_to s link target) \<and> (\<forall>p. p \<noteq> link \<longrightarrow> p \<noteq> staging \<longrightarrow> s p = d p)"

definition link_done :: "disk \<Rightarrow> string \<Rightarrow> string \<Rightarrow> string \<Rightarrow> (home_error, unit) result \<Rightarrow> disk \<Rightarrow> bool" where
  "link_done d link staging target r s \<longleftrightarrow>
     (if is_ok r then links_to s link target \<and> s staging = None else s link = d link)"

lemma put_link:
  assumes "staging \<noteq> link" and "i_node i = Link target" and "s = d(staging \<mapsto> i)"
  shows "through (link_kept d link staging target) (move_staged k staging link) s (link_done d link staging target)"
  unfolding move_staged_def
proof (intro through_bind through_try through_rename)
  show now: "link_kept d link staging target s" using assms(1) by (auto simp: link_kept_def assms(3))
  have gone: "link_kept d link staging target (s(staging := None))" using assms(1) by (auto simp: link_kept_def assms(3))
  fix e
  have "through (link_kept d link staging target) (fop_bind (fop_try (remove_file k staging)) (\<lambda>_. fop_err (HomeIo e))) s
      (link_done d link staging target)"
    by (intro through_bind through_try through_remove_file)
      (use now gone assms(1) in \<open>auto simp: assms(3) link_done_def intro!: through_err\<close>)
  then show "case Inr (Inl e) of Inl e \<Rightarrow> link_done d link staging target (Inl e) s
      | Inr x \<Rightarrow> through (link_kept d link staging target)
          (case x of Inl e \<Rightarrow> fop_bind (fop_try (remove_file k staging)) (\<lambda>_. fop_err (HomeIo e)) | Inr xa \<Rightarrow> fop_ok ()) s
          (link_done d link staging target)" by simp
next
  fix j assume "s staging = Some j"
  then have j: "j = i" by (simp add: assms(3))
  let ?t = "s(staging := None, link := Some j)"
  have "link_kept d link staging target ?t" "link_done d link staging target (Inr ()) ?t"
    using assms(1,2) by (auto simp: link_kept_def link_done_def links_to_def assms(3) j)
  then show "link_kept d link staging target ?t \<and>
      (case Inr (Inr ()) of Inl e \<Rightarrow> link_done d link staging target (Inl e) ?t
      | Inr x \<Rightarrow> through (link_kept d link staging target)
          (case x of Inl e \<Rightarrow> fop_bind (fop_try (remove_file k staging)) (\<lambda>_. fop_err (HomeIo e)) | Inr xa \<Rightarrow> fop_ok ()) ?t
          (link_done d link staging target))"
    by (simp add: through_ok)
qed

lemma swap_link_through:
  "through (link_kept d link (staging_link link nonce) target) (swap_link k me nonce target link replace_file) d
    (link_done d link (staging_link link nonce) target)"
proof -
  let ?s = "staging_link link nonce"
  have now: "link_kept d link ?s target d" by (simp add: link_kept_def)
  have kept: "link_kept d link ?s target (d(?s \<mapsto> i))" for i using staging_link_differs [of link nonce] by (auto simp: link_kept_def)
  show ?thesis unfolding swap_link_def Let_def
    by (auto intro!: through_err through_bind [of _ "fop_get _"] through_get through_bind [of _ "fop_map_err HomeIo _"] through_map_err
        through_symlink put_link [OF staging_link_differs] simp: now kept link_done_def [of d link ?s target "Inl _"] split: sum.splits io_error.splits)
qed

end
