(* ===== verification/Credential_Runtime.thy ===== *)
theory Credential_Runtime
  imports Credential_Swap
begin

text \<open>
  \<open>src/src/credential_runtime.rs\<close>: what the runtime's own store says about a credential,
  and when a staged store may replace it.  Decoding the store is \<open>serde\<close>'s: it is the
  argument \<open>decode\<close>.
\<close>

definition STATUS_DEAD :: string where "STATUS_DEAD = ''dead''"
definition TERMINAL_STATUS_CODE :: int where "TERMINAL_STATUS_CODE = 401"

definition TERMINAL_REASONS :: "string list" where
  "TERMINAL_REASONS = [''token_invalidated'', ''token_revoked'', ''invalid_token'', ''invalid_grant'',
     ''unauthorized_client'', ''refresh_token_reused'']"

record RecordMetadata =
  rm_label :: "string option"
  rm_auth_type :: "string option"
  rm_source :: "string option"
  rm_last_status :: "string option"
  rm_last_error_code :: "int option"
  rm_last_error_reason :: "string option"

text \<open>The map of a store, from providers to their records.\<close>

type_synonym StoreMetadata = "(string \<times> RecordMetadata list) list"
type_synonym store_decoder = "string \<Rightarrow> StoreMetadata option"

datatype RuntimeVerdict = Usable | Dead string | Missing | Unreadable

definition record_matches :: "RecordMetadata \<Rightarrow> string \<Rightarrow> bool" where
  "record_matches r credential_id \<longleftrightarrow> rm_label r = Some credential_id"

definition dead_reason :: "RecordMetadata \<Rightarrow> string option" where
  "dead_reason r =
     (if rm_last_status r \<noteq> Some STATUS_DEAD then None
      else if rm_last_error_code r \<noteq> Some TERMINAL_STATUS_CODE then None
      else case rm_last_error_reason r of
          None \<Rightarrow> None
        | Some given \<Rightarrow>
            let reason = map to_ascii_lower (trim given)
            in if reason \<in> set TERMINAL_REASONS then Some reason else None)"

definition verdict :: "kernel \<Rightarrow> store_decoder \<Rightarrow> string \<Rightarrow> string \<Rightarrow> string \<Rightarrow> disk \<Rightarrow> RuntimeVerdict" where
  "verdict k decode store provider_id credential_id d =
     (case read_file k store d of
        Inl NotFound \<Rightarrow> Missing
      | Inl _ \<Rightarrow> Unreadable
      | Inr raw \<Rightarrow>
          (case decode raw of
             None \<Rightarrow> Unreadable
           | Some pool \<Rightarrow>
               (case map_of pool provider_id of
                  None \<Rightarrow> Missing
                | Some records \<Rightarrow>
                    (case find (\<lambda>r. record_matches r credential_id) records of
                       None \<Rightarrow> Missing
                     | Some r \<Rightarrow> (case dead_reason r of Some reason \<Rightarrow> Dead reason | None \<Rightarrow> Usable)))))"

datatype StagedRejection =
    StagedUnreadable
  | RecordCount nat
  | WrongProvider
  | WrongLabel
  | WrongAuthMethod
  | NotUsable

fun rejection_code :: "StagedRejection \<Rightarrow> string" where
  "rejection_code StagedUnreadable = ''staged_store_unreadable''"
| "rejection_code (RecordCount _) = ''staged_store_record_count''"
| "rejection_code WrongProvider = ''staged_store_wrong_provider''"
| "rejection_code WrongLabel = ''staged_store_wrong_label''"
| "rejection_code WrongAuthMethod = ''staged_store_wrong_auth_method''"
| "rejection_code NotUsable = ''staged_store_not_usable''"

definition accept_staged ::
  "kernel \<Rightarrow> store_decoder \<Rightarrow> string \<Rightarrow> string \<Rightarrow> string \<Rightarrow> string \<Rightarrow> disk \<Rightarrow> (StagedRejection, unit) result" where
  "accept_staged k decode store provider_id credential_id auth_method d =
     (case read_file k store d of
        Inl _ \<Rightarrow> Inl StagedUnreadable
      | Inr raw \<Rightarrow>
          (case decode raw of
             None \<Rightarrow> Inl StagedUnreadable
           | Some pool \<Rightarrow>
               let total = sum_list (map (\<lambda>(_, rs). length rs) pool) in
               if total \<noteq> 1 then Inl (RecordCount total)
               else (case map_of pool provider_id of
                   None \<Rightarrow> Inl WrongProvider
                 | Some [] \<Rightarrow> Inl WrongProvider
                 | Some (r # _) \<Rightarrow>
                     if \<not> record_matches r credential_id then Inl WrongLabel
                     else if auth_method = ''device_authorization'' \<and> rm_auth_type r \<noteq> Some ''oauth'' then Inl WrongAuthMethod
                     else if auth_method = ''device_authorization'' \<and>
                         \<not> (case rm_source r of Some src \<Rightarrow> str_contains ''device_code'' src | None \<Rightarrow> False)
                     then Inl WrongAuthMethod
                     else if dead_reason r \<noteq> None then Inl NotUsable
                     else Inr ())))"

text \<open>
  A store that is accepted holds one record, this credential's, and reads as usable once
  its content is what the credential's home holds.
\<close>

lemma accepted_store_is_usable:
  assumes "accept_staged k decode staged provider_id credential_id auth_method d = Inr u"
    and "holds d staged content" and "holds d' store content" and "\<not> k ''open'' store"
  shows "verdict k decode store provider_id credential_id d' = Usable"
proof -
  have "read_file k store d' = Inr content"
    using assms(3,4) by (auto simp: read_file_def holds_def)
  moreover have "read_file k staged d = Inr content"
    using assms(1,2) by (auto simp: accept_staged_def read_file_def holds_def split: if_splits sum.splits)
  ultimately show ?thesis using assms(1)
    by (auto simp: accept_staged_def verdict_def Let_def split: option.splits list.splits if_splits)
qed

end
