(* ===== verification/Profiles.thy ===== *)
theory Profiles
  imports Credential_Homes
begin

text \<open>
  \<open>src/src/profiles.rs\<close>: the files of one project's Hermes home, the references to host
  credentials in it, and the key of its worker.  Building a home from nothing is not
  modelled.
\<close>

section \<open>Layout\<close>

definition HOST_PROFILE :: string where "HOST_PROFILE = ''asterism-host''"

record CredentialPaths =
  cp_home_root :: string
  cp_shared_auth :: string
  cp_codex_auth :: string
  cp_credential_root :: string

record ProfileLayout =
  pl_home :: string
  pl_profile :: string

definition layout_of :: "CredentialPaths \<Rightarrow> string \<Rightarrow> ProfileLayout" where
  "layout_of paths profile = \<lparr>pl_home = path_join (cp_home_root paths) profile, pl_profile = profile\<rparr>"

definition layout_config :: "ProfileLayout \<Rightarrow> string" where
  "layout_config l = path_join (pl_home l) ''config.yaml''"

definition layout_runtime_env :: "ProfileLayout \<Rightarrow> string" where
  "layout_runtime_env l = path_join (pl_home l) ''runtime.env''"

definition layout_auth :: "ProfileLayout \<Rightarrow> string" where
  "layout_auth l = path_join (pl_home l) ''auth.json''"

definition layout_auth_lock :: "ProfileLayout \<Rightarrow> string" where
  "layout_auth_lock l = path_join (pl_home l) LOCK_FILE"

definition layout_codex_home :: "ProfileLayout \<Rightarrow> string" where
  "layout_codex_home l = path_join (pl_home l) ''.codex''"

definition layout_codex_auth :: "ProfileLayout \<Rightarrow> string" where
  "layout_codex_auth l = path_join (layout_codex_home l) ''auth.json''"

definition layout_complete :: "kernel \<Rightarrow> ProfileLayout \<Rightarrow> disk \<Rightarrow> bool" where
  "layout_complete k l d \<longleftrightarrow> path_is_file k (layout_config l) d \<and> path_is_file k (layout_runtime_env l) d"

definition store_for :: "CredentialPaths \<Rightarrow> string option \<Rightarrow> (id_error, string) result" where
  "store_for paths assignment =
     (case assignment of
        Some i \<Rightarrow> credential_file (cp_credential_root paths) i
      | None \<Rightarrow> Inr (cp_shared_auth paths))"

datatype profile_name_error = ProfileLength | ProfileAlphabet string | ProfileDash string

definition validate_profile_name :: "string \<Rightarrow> (profile_name_error, unit) result" where
  "validate_profile_name profile =
     (if profile = [] \<or> length profile > 72 then Inl ProfileLength
      else if \<not> list_all (\<lambda>c. is_ascii_lower c \<or> is_ascii_digit c \<or> c = CHR ''-'') profile then Inl (ProfileAlphabet profile)
      else if starts_with ''-'' profile \<or> ends_with ''-'' profile then Inl (ProfileDash profile)
      else Inr ())"

section \<open>References to credentials\<close>

datatype CredentialLink = LinkCreated | AlreadyCorrect | LinkRepaired | KeptExistingFile | Mismatched

datatype link_error =
    LinkHome home_error
  | LinkIo io_error
  | LinkNotAbsolute string
  | LinkClimbs
  | LinkProfile profile_name_error
  | LinkId id_error

text \<open>Reading a link that is known to be one; the kernel may still refuse.\<close>

definition link_read :: "kernel \<Rightarrow> string \<Rightarrow> (link_error, string) fop" where
  "link_read k p = fop_get (\<lambda>d. case read_link k p d of Some t \<Rightarrow> Inr t | None \<Rightarrow> Inl (LinkIo Refused))"

text \<open>\<open>nonce\<close> names the staged link; \<open>me\<close> and \<open>umask_mode\<close> are the account the node runs as and the mode of the directories it makes.\<close>

definition link_to_host_credential :: "kernel \<Rightarrow> nat \<Rightarrow> nat \<Rightarrow> string \<Rightarrow> string \<Rightarrow> string \<Rightarrow> (link_error, CredentialLink) fop" where
  "link_to_host_credential k me umask_mode nonce target link =
     (if \<not> starts_with ''/'' target then fop_err (LinkNotAbsolute target)
      else if ParentDir \<in> set (components target) then fop_err LinkClimbs
      else (\<lambda>d. case symlink_metadata k link d of
          Inr i \<Rightarrow>
            if is_symlink i then
              fop_bind (link_read k link) (\<lambda>current.
                if components current = components target then fop_ok AlreadyCorrect
                else fop_bind (fop_map_err LinkHome (swap_link k me nonce target link False)) (\<lambda>_. fop_ok LinkRepaired)) d
            else (Inr KeptExistingFile, [])
        | Inl _ \<Rightarrow>
            fop_bind (fop_map_err LinkIo (create_dir_all k me umask_mode (parent_dir link))) (\<lambda>_.
            fop_bind (fop_map_err LinkIo (symlink k me target link)) (\<lambda>_. fop_ok LinkCreated)) d))"

definition point_link :: "kernel \<Rightarrow> nat \<Rightarrow> nat \<Rightarrow> string \<Rightarrow> string \<Rightarrow> string \<Rightarrow> bool \<Rightarrow> (link_error, CredentialLink) fop" where
  "point_link k me umask_mode nonce target link live =
     (\<lambda>d. if live \<and> (case symlink_metadata k link d of Inr i \<Rightarrow> is_symlink i | Inl _ \<Rightarrow> False) then
         fop_bind (link_read k link) (\<lambda>current.
           if components current \<noteq> components target then fop_ok Mismatched
           else link_to_host_credential k me umask_mode nonce target link) d
       else link_to_host_credential k me umask_mode nonce target link d)"

definition point_lock :: "kernel \<Rightarrow> nat \<Rightarrow> string \<Rightarrow> string \<Rightarrow> string \<Rightarrow> bool \<Rightarrow> (link_error, CredentialLink) fop" where
  "point_lock k me nonce target link live =
     (\<lambda>d. case symlink_metadata k link d of
         Inr i \<Rightarrow>
           if is_symlink i then
             fop_bind (link_read k link) (\<lambda>current.
               if components current = components target then fop_ok AlreadyCorrect
               else if live then fop_ok Mismatched
               else fop_bind (fop_map_err LinkHome (swap_link k me nonce target link True)) (\<lambda>_. fop_ok LinkRepaired)) d
           else if live then (Inr Mismatched, [])
           else fop_bind (fop_map_err LinkHome (swap_link k me nonce target link True)) (\<lambda>_. fop_ok LinkRepaired) d
       | Inl _ \<Rightarrow>
           fop_bind (fop_map_err LinkHome (swap_link k me nonce target link True)) (\<lambda>_. fop_ok LinkCreated) d)"

text \<open>The lock follows the store; for the shared pool a lock link of an earlier assignment is removed.\<close>

definition reconcile_lock ::
  "kernel \<Rightarrow> nat \<Rightarrow> string \<Rightarrow> CredentialPaths \<Rightarrow> ProfileLayout \<Rightarrow> string option \<Rightarrow> bool \<Rightarrow> (link_error, (string \<times> CredentialLink) list) fop" where
  "reconcile_lock k me nonce paths l assignment live =
     (case assignment of
        Some i \<Rightarrow>
          fop_bind (fop_get (\<lambda>_. map_sum LinkId id (lock_file (cp_credential_root paths) i))) (\<lambda>lock.
          fop_bind (point_lock k me nonce lock (layout_auth_lock l) live) (\<lambda>outcome. fop_ok [(''lock'', outcome)]))
      | None \<Rightarrow>
          if live then fop_ok []
          else (\<lambda>d. if (case symlink_metadata k (layout_auth_lock l) d of Inr i \<Rightarrow> is_symlink i | Inl _ \<Rightarrow> False)
              then fop_bind (fop_map_err LinkHome (remove_link k (layout_auth_lock l))) (\<lambda>_. fop_ok [(''lock'', LinkRepaired)]) d
              else (Inr [], [])))"

definition reconcile_credentials ::
  "kernel \<Rightarrow> nat \<Rightarrow> nat \<Rightarrow> string \<Rightarrow> CredentialPaths \<Rightarrow> string \<Rightarrow> string option \<Rightarrow> bool
     \<Rightarrow> (link_error, (string \<times> CredentialLink) list) fop" where
  "reconcile_credentials k me umask_mode nonce paths profile assignment live =
     (let l = layout_of paths profile in
      fop_bind (fop_get (\<lambda>_. map_sum LinkProfile id (validate_profile_name profile))) (\<lambda>_.
      fop_bind (fop_get (\<lambda>d. Inr (path_is_dir k (pl_home l) d))) (\<lambda>there.
      if \<not> there then fop_ok []
      else
        fop_bind (fop_get (\<lambda>_. map_sum LinkId id (store_for paths assignment))) (\<lambda>store.
        fop_bind (point_link k me umask_mode nonce store (layout_auth l) live) (\<lambda>hermes.
        fop_bind (reconcile_lock k me nonce paths l assignment live) (\<lambda>lock.
        fop_bind (\<lambda>d. if path_is_dir k (layout_codex_home l) d then (Inr (), [])
            else fop_map_err LinkIo (create_dir_all k me umask_mode (layout_codex_home l)) d) (\<lambda>_.
        fop_bind (fop_map_err LinkIo (set_permissions k (layout_codex_home l) 448)) (\<lambda>_.
        fop_bind (link_to_host_credential k me umask_mode nonce (cp_codex_auth paths) (layout_codex_auth l)) (\<lambda>codex.
        fop_ok ((''hermes'', hermes) # lock @ [(''codex'', codex)])))))))))) "

section \<open>The key of a worker\<close>

datatype key_error = KeyIo io_error | KeySymlink | KeyNotRegular | KeyOwner nat | KeyOpen | KeyMissing

fun find_key :: "string list \<Rightarrow> string option" where
  "find_key [] = None"
| "find_key (line # ls) =
     (case strip_prefix ''API_SERVER_KEY='' line of Some v \<Rightarrow> Some (trim v) | None \<Rightarrow> find_key ls)"

definition read_worker_key :: "kernel \<Rightarrow> string \<Rightarrow> nat \<Rightarrow> disk \<Rightarrow> (key_error, string) result" where
  "read_worker_key k path uid d =
     (case symlink_metadata k path d of
        Inl e \<Rightarrow> Inl (KeyIo e)
      | Inr i \<Rightarrow>
          if is_symlink i then Inl KeySymlink
          else if \<not> is_file i then Inl KeyNotRegular
          else if i_uid i \<noteq> uid then Inl (KeyOwner (i_uid i))
          else if open_beyond_owner i then Inl KeyOpen
          else (case read_file k path d of
              Inl e \<Rightarrow> Inl (KeyIo e)
            | Inr contents \<Rightarrow> ok_or KeyMissing (find_key (str_lines contents))))"

definition render_runtime_env :: "ProfileLayout \<Rightarrow> nat \<Rightarrow> string \<Rightarrow> string" where
  "render_runtime_env l port api_key =
     concat (map (\<lambda>line. line @ [CHR 0x0A])
       [''# Generated by Asterism. One project'' @ [CHR 0x27] @ ''s Hermes worker.'',
        ''HOME='' @ parent_dir (pl_home l),
        ''HERMES_HOME='' @ pl_home l,
        ''HERMES_CONFIG_DIR='' @ pl_home l,
        ''CODEX_HOME='' @ pl_home l @ ''/.codex'',
        ''API_SERVER_ENABLED=true'',
        ''API_SERVER_HOST=127.0.0.1'',
        ''API_SERVER_PORT='' @ show_nat port,
        ''API_SERVER_KEY='' @ api_key,
        ''PYTHONUNBUFFERED=1''])"

end
