(* ===== verification/Workers.thy ===== *)
theory Workers
  imports Profiles Config_Policy
begin

text \<open>
  \<open>src/src/workers.rs\<close>: starting, stopping and changing the Hermes workers of the
  projects.  Systemd and the health endpoint are arguments: which calls they refuse, the
  pids they give and what a worker answers until the deadline.  The state is the disk, the
  table of projects and the main process of every active unit; every call to systemd is
  logged.  A change runs with the lock of its project held.
\<close>

section \<open>Units\<close>

definition WORKER_UNIT_TEMPLATE :: string where "WORKER_UNIT_TEMPLATE = ''asterism-hermes@''"

definition unit_name :: "string \<Rightarrow> (profile_name_error, string) result" where
  "unit_name profile =
     rbind (validate_profile_name profile) (\<lambda>_. Inr (WORKER_UNIT_TEMPLATE @ profile @ ''.service''))"

record Fleet =
  f_disk :: disk
  f_projects :: projects
  f_units :: "string \<Rightarrow> nat option"
  f_calls :: "(string \<times> string) list"
  f_tick :: nat

text \<open>
  What the manager was given, and the answers it gets.  \<open>ct_systemctl\<close> takes the moment, the
  verb, the unit and its main process, and answers whether the call succeeded and the main
  process afterwards; \<open>ct_mute\<close> says when a query cannot be run; \<open>ct_probes\<close> are the
  answers of the health endpoint from a moment on, until the deadline.
\<close>

record Control =
  ct_codec :: codec
  ct_kernel :: "nat \<Rightarrow> kernel"
  ct_systemctl :: "nat \<Rightarrow> string \<Rightarrow> string \<Rightarrow> nat option \<Rightarrow> bool \<times> nat option"
  ct_mute :: "nat \<Rightarrow> string \<Rightarrow> string \<Rightarrow> bool"
  ct_probes :: "nat \<Rightarrow> string \<Rightarrow> string \<Rightarrow> bool list"
  ct_nonce :: "nat \<Rightarrow> string"
  ct_torn :: "nat \<Rightarrow> string \<Rightarrow> string \<Rightarrow> string"
  ct_now :: "nat \<Rightarrow> int"
  ct_me :: nat
  ct_umask :: nat
  ct_runtime_uid :: nat
  ct_paths :: "CredentialPaths option"

type_synonym ('e, 'a) wop = "Fleet \<Rightarrow> ('e, 'a) result \<times> Fleet"

definition w_ok :: "'a \<Rightarrow> ('e, 'a) wop" where "w_ok x = (\<lambda>f. (Inr x, f))"
definition w_err :: "'e \<Rightarrow> ('e, 'a) wop" where "w_err e = (\<lambda>f. (Inl e, f))"

definition w_bind :: "('e, 'a) wop \<Rightarrow> ('a \<Rightarrow> ('e, 'b) wop) \<Rightarrow> ('e, 'b) wop" where
  "w_bind m g = (\<lambda>f. case m f of (Inl e, f') \<Rightarrow> (Inl e, f') | (Inr x, f') \<Rightarrow> g x f')"

definition w_try :: "('e, 'a) wop \<Rightarrow> ('f, ('e, 'a) result) wop" where
  "w_try m = (\<lambda>f. case m f of (r, f') \<Rightarrow> (Inr r, f'))"

definition w_map_err :: "('e \<Rightarrow> 'g) \<Rightarrow> ('e, 'a) wop \<Rightarrow> ('g, 'a) wop" where
  "w_map_err g m = (\<lambda>f. case m f of (r, f') \<Rightarrow> (map_sum g id r, f'))"

definition w_get :: "(Fleet \<Rightarrow> ('e, 'a) result) \<Rightarrow> ('e, 'a) wop" where
  "w_get g = (\<lambda>f. (g f, f))"

section \<open>What systemd does\<close>

definition called :: "string \<Rightarrow> string \<Rightarrow> Fleet \<Rightarrow> Fleet" where
  "called verb unit f = f\<lparr>f_calls := f_calls f @ [(verb, unit)], f_tick := f_tick f + 1\<rparr>"

definition systemctl :: "Control \<Rightarrow> string \<Rightarrow> string \<Rightarrow> (unit, unit) wop" where
  "systemctl ct verb u = (\<lambda>f.
     case ct_systemctl ct (f_tick f) verb u (f_units f u) of
       (done_ok, main) \<Rightarrow> (if done_ok then Inr () else Inl (), called verb u (f\<lparr>f_units := (f_units f)(u := main)\<rparr>)))"

definition start_unit :: "Control \<Rightarrow> string \<Rightarrow> (unit, unit) wop" where
  "start_unit ct u = systemctl ct ''start'' u"

definition stop_unit :: "Control \<Rightarrow> string \<Rightarrow> (unit, unit) wop" where
  "stop_unit ct u = systemctl ct ''stop'' u"

definition restart_unit :: "Control \<Rightarrow> string \<Rightarrow> (unit, unit) wop" where
  "restart_unit ct u = systemctl ct ''restart'' u"

definition unit_active :: "Control \<Rightarrow> string \<Rightarrow> (unit, bool) wop" where
  "unit_active ct u = (\<lambda>f.
     (if ct_mute ct (f_tick f) ''is-active'' u then Inl () else Inr (f_units f u \<noteq> None), called ''is-active'' u f))"

definition main_pid :: "Control \<Rightarrow> string \<Rightarrow> (unit, nat option) wop" where
  "main_pid ct u = (\<lambda>f.
     (if ct_mute ct (f_tick f) ''show'' u then Inl () else Inr (f_units f u), called ''show'' u f))"

text \<open>One probe, and probing until the deadline; the answers given before it passes are the list.\<close>

definition healthy :: "Control \<Rightarrow> string \<Rightarrow> string \<Rightarrow> ('e, bool) wop" where
  "healthy ct endpoint api_key = (\<lambda>f.
     (Inr (case ct_probes ct (f_tick f) endpoint api_key of a # _ \<Rightarrow> a | [] \<Rightarrow> False), f\<lparr>f_tick := f_tick f + 1\<rparr>))"

fun until_healthy :: "bool list \<Rightarrow> bool" where
  "until_healthy [] = False"
| "until_healthy (a # as) = (a \<or> until_healthy as)"

definition wait_healthy :: "Control \<Rightarrow> string \<Rightarrow> string \<Rightarrow> ('e, bool) wop" where
  "wait_healthy ct endpoint api_key = (\<lambda>f.
     (Inr (until_healthy (ct_probes ct (f_tick f) endpoint api_key)), f\<lparr>f_tick := f_tick f + 1\<rparr>))"

text \<open>A disk computation, under the kernel of the moment.\<close>

definition on_disk :: "Control \<Rightarrow> (kernel \<Rightarrow> string \<Rightarrow> ('e, 'a) fop) \<Rightarrow> ('e, 'a) wop" where
  "on_disk ct m = (\<lambda>f.
     case m (ct_kernel ct (f_tick f)) (ct_nonce ct (f_tick f)) (f_disk f) of
       (r, t) \<Rightarrow> (r, f\<lparr>f_disk := last (f_disk f # t), f_tick := f_tick f + 1\<rparr>))"

definition on_projects :: "(projects \<Rightarrow> (inventory_error, projects) result) \<Rightarrow> (inventory_error, unit) wop" where
  "on_projects g = (\<lambda>f. case g (f_projects f) of Inl e \<Rightarrow> (Inl e, f) | Inr t \<Rightarrow> (Inr (), f\<lparr>f_projects := t\<rparr>))"

section \<open>Bindings\<close>

record WorkerBinding =
  wb_project_id :: string
  wb_profile :: string
  wb_unit :: string
  wb_endpoint :: string
  wb_api_key_ref :: string
  wb_credential_id :: "string option"

datatype binding_error =
    BindInventory inventory_error
  | BindNotRegistered
  | BindDisabled
  | BindNoProfile
  | BindHostProfile
  | BindNoEndpoint
  | BindNoKey
  | BindUnit profile_name_error

definition binding :: "codec \<Rightarrow> string \<Rightarrow> projects \<Rightarrow> (binding_error, WorkerBinding) result" where
  "binding cdc pid t =
     (case project cdc pid t of
        Inl e \<Rightarrow> Inl (BindInventory e)
      | Inr None \<Rightarrow> Inl BindNotRegistered
      | Inr (Some p) \<Rightarrow>
          if \<not> rp_is_enabled p then Inl BindDisabled
          else (case rp_hermes_profile p of
              None \<Rightarrow> Inl BindNoProfile
            | Some profile \<Rightarrow>
                if profile = HOST_PROFILE then Inl BindHostProfile
                else (case rp_runtime_endpoint p of
                    None \<Rightarrow> Inl BindNoEndpoint
                  | Some endpoint \<Rightarrow>
                      (case rp_hermes_api_key_ref p of
                         None \<Rightarrow> Inl BindNoKey
                       | Some key_ref \<Rightarrow>
                           if key_ref = [] then Inl BindNoKey
                           else (case unit_name profile of
                               Inl e \<Rightarrow> Inl (BindUnit e)
                             | Inr u \<Rightarrow> Inr
                                 \<lparr>wb_project_id = pid, wb_profile = profile, wb_unit = u, wb_endpoint = endpoint,
                                  wb_api_key_ref = key_ref, wb_credential_id = rp_credential_id p\<rparr>)))))"

record ManagedWorker =
  mw_project_id :: string
  mw_profile :: string
  mw_unit :: string

datatype managed_error = ManagedInventory inventory_error | ManagedUnit profile_name_error

definition managed_workers :: "codec \<Rightarrow> projects \<Rightarrow> (managed_error, ManagedWorker list) result" where
  "managed_workers cdc t =
     rbind (map_sum ManagedInventory id (list_projects cdc t)) (\<lambda>ps.
       map_result (\<lambda>(p, profile). map_sum ManagedUnit
           (\<lambda>u. \<lparr>mw_project_id = rp_project_id p, mw_profile = profile, mw_unit = u\<rparr>) (unit_name profile))
         (List.map_filter (\<lambda>p.
            if owns_container (rp_runtime_ownership p) then map_option (\<lambda>profile. (p, profile)) (rp_hermes_profile p) else None) ps))"

section \<open>Failures\<close>

datatype Reassignment = ReassignUnchanged | ReassignApplied
datatype ModelSelection = ModelUnchanged | ModelApplied
datatype WorkerLifecycle = WorkerStopped | WorkerRunning | WorkerNotManaged

fun lifecycle_wire :: "WorkerLifecycle \<Rightarrow> string" where
  "lifecycle_wire WorkerStopped = ''stopped''"
| "lifecycle_wire WorkerRunning = ''running''"
| "lifecycle_wire WorkerNotManaged = ''not_managed''"

record ReassignFailure =
  rf_code :: string
  rf_restored :: bool

definition untouched :: "string \<Rightarrow> ReassignFailure" where
  "untouched code = \<lparr>rf_code = code, rf_restored = True\<rparr>"

definition unrestored :: "string \<Rightarrow> ReassignFailure" where
  "unrestored code = \<lparr>rf_code = code, rf_restored = False\<rparr>"

abbreviation or_untouched :: "string \<Rightarrow> ('e, 'a) wop \<Rightarrow> (ReassignFailure, 'a) wop" where
  "or_untouched code m \<equiv> w_map_err (\<lambda>_. untouched code) m"

abbreviation or_code :: "string \<Rightarrow> ('e, 'a) wop \<Rightarrow> (string, 'a) wop" where
  "or_code code m \<equiv> w_map_err (\<lambda>_. code) m"

text \<open>The project's binding and its key, or the project is not ready.\<close>

definition ready_binding :: "Control \<Rightarrow> string \<Rightarrow> (ReassignFailure, WorkerBinding \<times> string) wop" where
  "ready_binding ct pid =
     w_bind (or_untouched ''project_not_ready'' (w_get (\<lambda>f. binding (ct_codec ct) pid (f_projects f)))) (\<lambda>b.
     w_bind (or_untouched ''project_not_ready'' (w_get (\<lambda>f.
         read_worker_key (ct_kernel ct (f_tick f)) (wb_api_key_ref b) (ct_runtime_uid ct) (f_disk f)))) (\<lambda>key.
     w_ok (b, key)))"

definition pid_before :: "Control \<Rightarrow> string \<Rightarrow> bool \<Rightarrow> ('e, nat option) wop" where
  "pid_before ct u active =
     (if active then w_bind (w_try (main_pid ct u)) (\<lambda>r. w_ok (case r of Inr p \<Rightarrow> p | Inl _ \<Rightarrow> None)) else w_ok None)"

text \<open>Whether the process serving is seen to be the one from before.\<close>

definition same_process :: "Control \<Rightarrow> string \<Rightarrow> nat option \<Rightarrow> ('e, bool) wop" where
  "same_process ct u before =
     w_bind (w_try (main_pid ct u)) (\<lambda>r.
       w_ok (case (before, r) of (Some p, Inr (Some q)) \<Rightarrow> p = q | _ \<Rightarrow> False))"

section \<open>Changing the credential of a project\<close>

definition put_link_at :: "Control \<Rightarrow> string \<Rightarrow> string \<Rightarrow> bool \<Rightarrow> (home_error, unit) wop" where
  "put_link_at ct target link replace_file =
     on_disk ct (\<lambda>k nonce. swap_link k (ct_me ct) nonce target link replace_file)"

definition drop_link_at :: "Control \<Rightarrow> string \<Rightarrow> (home_error, unit) wop" where
  "drop_link_at ct link = on_disk ct (\<lambda>k _. remove_link k link)"

text \<open>The lock that belongs to an assignment.\<close>

definition point_lock_at :: "Control \<Rightarrow> CredentialPaths \<Rightarrow> ProfileLayout \<Rightarrow> string option \<Rightarrow> (home_error, unit) wop" where
  "point_lock_at ct paths l assignment =
     (case assignment of
        Some i \<Rightarrow>
          w_bind (w_get (\<lambda>_. map_sum HomeId id (lock_file (cp_credential_root paths) i))) (\<lambda>lock.
            put_link_at ct lock (layout_auth_lock l) True)
      | None \<Rightarrow> drop_link_at ct (layout_auth_lock l))"

definition apply_links :: "Control \<Rightarrow> CredentialPaths \<Rightarrow> ProfileLayout \<Rightarrow> string option \<Rightarrow> (home_error, unit) wop" where
  "apply_links ct paths l assignment =
     w_bind (w_get (\<lambda>_. map_sum HomeId id (store_for paths assignment))) (\<lambda>store.
     w_bind (put_link_at ct store (layout_auth l) False) (\<lambda>_.
     point_lock_at ct paths l assignment))"

text \<open>Reading back where the project's link points.\<close>

definition link_now :: "Control \<Rightarrow> string \<Rightarrow> Fleet \<Rightarrow> string option" where
  "link_now ct p f = read_link (ct_kernel ct (f_tick f)) p (f_disk f)"

definition demand :: "'e \<Rightarrow> bool \<Rightarrow> ('e, unit) wop" where
  "demand e fine = (if fine then w_ok () else w_err e)"

definition switch_credential ::
  "Control \<Rightarrow> CredentialPaths \<Rightarrow> WorkerBinding \<Rightarrow> ProfileLayout \<Rightarrow> string \<Rightarrow> string option \<Rightarrow> string \<Rightarrow> bool \<Rightarrow> nat option
     \<Rightarrow> (string, unit) wop" where
  "switch_credential ct paths b l api_key requested desired active before =
     w_bind (if active then or_code ''worker_restart_failed'' (stop_unit ct (wb_unit b)) else w_ok ()) (\<lambda>_.
     w_bind (or_code ''credential_link_invalid'' (apply_links ct paths l requested)) (\<lambda>_.
     w_bind (or_code ''assignment_not_recorded'' (on_projects (set_project_credential (wb_project_id b) requested))) (\<lambda>_.
     w_bind (or_code ''worker_restart_failed'' (start_unit ct (wb_unit b))) (\<lambda>_.
     w_bind (wait_healthy ct (wb_endpoint b) api_key) (\<lambda>well.
     w_bind (demand ''worker_unhealthy'' well) (\<lambda>_.
     w_bind (w_get (\<lambda>f. Inr (link_now ct (layout_auth l) f))) (\<lambda>seen.
     w_bind (demand ''credential_link_invalid'' (map_option components seen = Some (components desired))) (\<lambda>_.
     w_bind (same_process ct (wb_unit b) before) (\<lambda>same.
     demand ''worker_not_restarted'' (\<not> same))))))))))"

definition worker_failed :: "WorkerBinding \<Rightarrow> ('e, unit) wop" where
  "worker_failed b =
     w_bind (w_try (on_projects (set_profile_state (wb_project_id b) ProfileFailed (Some ''worker_unhealthy'')))) (\<lambda>_. w_ok ())"

text \<open>Whether a worker that was active is up and answers again.\<close>

definition bring_up :: "Control \<Rightarrow> WorkerBinding \<Rightarrow> string \<Rightarrow> ('e, bool) wop" where
  "bring_up ct b api_key =
     w_bind (w_try (start_unit ct (wb_unit b))) (\<lambda>started.
       if is_ok started then wait_healthy ct (wb_endpoint b) api_key else w_ok False)"

definition restore_credential ::
  "Control \<Rightarrow> CredentialPaths \<Rightarrow> WorkerBinding \<Rightarrow> ProfileLayout \<Rightarrow> string \<Rightarrow> string option \<Rightarrow> string option \<Rightarrow> bool
     \<Rightarrow> ('e, bool) wop" where
  "restore_credential ct paths b l api_key previous previous_target was_active =
     w_bind (w_try (stop_unit ct (wb_unit b))) (\<lambda>_.
     w_bind (w_try (case previous_target of
         Some target \<Rightarrow> put_link_at ct target (layout_auth l) False
       | None \<Rightarrow> drop_link_at ct (layout_auth l))) (\<lambda>link_back.
     w_bind (w_try (point_lock_at ct paths l previous)) (\<lambda>lock_back.
     w_bind (w_try (on_projects (set_project_credential (wb_project_id b) previous))) (\<lambda>row_back.
     w_bind (if was_active then bring_up ct b api_key else w_ok True) (\<lambda>running.
     let restored = is_ok link_back \<and> is_ok lock_back \<and> is_ok row_back \<and> running in
     w_bind (if restored then w_ok () else worker_failed b) (\<lambda>_. w_ok restored))))))"

text \<open>The target of the link from before; a file in its place is somebody's credential.\<close>

definition previous_link :: "Control \<Rightarrow> string \<Rightarrow> Fleet \<Rightarrow> (ReassignFailure, string option) result" where
  "previous_link ct link f =
     (case symlink_metadata (ct_kernel ct (f_tick f)) link (f_disk f) of
        Inl _ \<Rightarrow> Inr None
      | Inr i \<Rightarrow>
          if is_symlink i then
            (case link_now ct link f of
               Some target \<Rightarrow> Inr (Some target)
             | None \<Rightarrow> Inl (untouched ''credential_link_invalid''))
          else Inl (untouched ''credential_link_occupied''))"

text \<open>The reassignment, once the project, its key and the requested store are known.\<close>

definition reassign_ready ::
  "Control \<Rightarrow> CredentialPaths \<Rightarrow> WorkerBinding \<Rightarrow> string \<Rightarrow> string option \<Rightarrow> string \<Rightarrow> (ReassignFailure, Reassignment) wop" where
  "reassign_ready ct paths b api_key requested desired =
     (let l = layout_of paths (wb_profile b); previous = wb_credential_id b in
      w_bind (w_get (previous_link ct (layout_auth l))) (\<lambda>previous_target.
      w_bind (or_untouched ''worker_restart_failed'' (unit_active ct (wb_unit b))) (\<lambda>active.
      w_bind (if active \<and> map_option components previous_target = Some (components desired) \<and> previous = requested
          then healthy ct (wb_endpoint b) api_key else w_ok False) (\<lambda>unchanged.
      if unchanged then w_ok ReassignUnchanged
      else
        w_bind (pid_before ct (wb_unit b) active) (\<lambda>before.
        w_bind (w_try (switch_credential ct paths b l api_key requested desired active before)) (\<lambda>switched.
        case switched of
          Inr _ \<Rightarrow> w_ok ReassignApplied
        | Inl code \<Rightarrow>
            w_bind (restore_credential ct paths b l api_key previous previous_target active) (\<lambda>restored.
            w_err \<lparr>rf_code = code, rf_restored = restored\<rparr>)))))))"

definition reassign_credential :: "Control \<Rightarrow> string \<Rightarrow> string option \<Rightarrow> (ReassignFailure, Reassignment) wop" where
  "reassign_credential ct pid requested =
     (case ct_paths ct of
        None \<Rightarrow> w_err (untouched ''credential_paths_unavailable'')
      | Some paths \<Rightarrow>
          w_bind (ready_binding ct pid) (\<lambda>(b, api_key).
          w_bind (or_untouched ''credential_id_invalid'' (w_get (\<lambda>_. store_for paths requested))) (\<lambda>desired.
          reassign_ready ct paths b api_key requested desired)))"

section \<open>Replacing what a credential holds\<close>

text \<open>A worker that reads the credential: its binding, its key, whether it was active, its process.\<close>

type_synonym target = "WorkerBinding \<times> string \<times> bool \<times> nat option"

fun collect_targets :: "Control \<Rightarrow> string list \<Rightarrow> (ReassignFailure, target list) wop" where
  "collect_targets ct [] = w_ok []"
| "collect_targets ct (pid # pids) =
     w_bind (ready_binding ct pid) (\<lambda>(b, api_key).
     w_bind (or_untouched ''worker_restart_failed'' (unit_active ct (wb_unit b))) (\<lambda>active.
     w_bind (pid_before ct (wb_unit b) active) (\<lambda>before.
     w_bind (collect_targets ct pids) (\<lambda>ts. w_ok ((b, api_key, active, before) # ts)))))"

fun stop_targets :: "Control \<Rightarrow> target list \<Rightarrow> (ReassignFailure, unit) wop" where
  "stop_targets ct [] = w_ok ()"
| "stop_targets ct ((b, _, active, _) # ts) =
     w_bind (if active then or_untouched ''worker_restart_failed'' (stop_unit ct (wb_unit b)) else w_ok ()) (\<lambda>_.
     stop_targets ct ts)"

fun start_and_prove :: "Control \<Rightarrow> target list \<Rightarrow> (string, unit) wop" where
  "start_and_prove ct [] = w_ok ()"
| "start_and_prove ct ((b, api_key, active, before) # ts) =
     (if \<not> active then start_and_prove ct ts
      else
        w_bind (or_code ''worker_restart_failed'' (start_unit ct (wb_unit b))) (\<lambda>_.
        w_bind (wait_healthy ct (wb_endpoint b) api_key) (\<lambda>well.
        w_bind (demand ''worker_unhealthy'' well) (\<lambda>_.
        w_bind (same_process ct (wb_unit b) before) (\<lambda>same.
        w_bind (demand ''worker_not_restarted'' (\<not> same)) (\<lambda>_.
        start_and_prove ct ts))))))"

fun restart_all :: "Control \<Rightarrow> target list \<Rightarrow> ('e, bool) wop" where
  "restart_all ct [] = w_ok True"
| "restart_all ct ((b, api_key, active, _) # ts) =
     (if \<not> active then restart_all ct ts
      else
        w_bind (bring_up ct b api_key) (\<lambda>up.
        w_bind (restart_all ct ts) (\<lambda>restored. w_ok (up \<and> restored))))"

fun stop_all :: "Control \<Rightarrow> target list \<Rightarrow> ('e, unit) wop" where
  "stop_all ct [] = w_ok ()"
| "stop_all ct ((b, _) # ts) = w_bind (w_try (stop_unit ct (wb_unit b))) (\<lambda>_. stop_all ct ts)"

definition swap_credential_material ::
  "Control \<Rightarrow> string list \<Rightarrow> string \<Rightarrow> string \<Rightarrow> nat \<Rightarrow> (ReassignFailure, unit) wop" where
  "swap_credential_material ct project_ids home staged uid =
     w_bind (collect_targets ct project_ids) (\<lambda>targets.
     w_bind (stop_targets ct targets) (\<lambda>_.
     w_bind (w_try (on_disk ct (\<lambda>k _. swap_in k home staged uid))) (\<lambda>swapped.
     case swapped of
       Inl _ \<Rightarrow>
         w_bind (restart_all ct targets) (\<lambda>restored.
         w_err \<lparr>rf_code = ''credential_swap_failed'', rf_restored = restored\<rparr>)
     | Inr _ \<Rightarrow>
         w_bind (w_try (start_and_prove ct targets)) (\<lambda>proven.
         case proven of
           Inr _ \<Rightarrow> w_ok ()
         | Inl code \<Rightarrow>
             w_bind (stop_all ct targets) (\<lambda>_.
             w_bind (w_try (on_disk ct (\<lambda>k _. roll_back k home))) (\<lambda>rolled_back.
             w_bind (if is_ok rolled_back then restart_all ct targets else w_ok False) (\<lambda>restored.
             w_err \<lparr>rf_code = code, rf_restored = restored\<rparr>)))))))"

section \<open>Changing the model of a project\<close>

definition write_config :: "Control \<Rightarrow> string \<Rightarrow> string \<Rightarrow> (io_error, unit) wop" where
  "write_config ct config body = (\<lambda>f.
     on_disk ct (\<lambda>k _. write_file k (ct_me ct) (ct_umask ct) (ct_torn ct (f_tick f)) config body) f)"

definition read_config :: "Control \<Rightarrow> string \<Rightarrow> Fleet \<Rightarrow> (io_error, string) result" where
  "read_config ct config f = read_file (ct_kernel ct (f_tick f)) config (f_disk f)"

definition switch_model ::
  "Control \<Rightarrow> WorkerBinding \<Rightarrow> string \<Rightarrow> string \<Rightarrow> string \<Rightarrow> string \<Rightarrow> bool \<Rightarrow> nat option \<Rightarrow> (string, unit) wop" where
  "switch_model ct b config before_body api_key chosen active before =
     w_bind (if active then or_code ''worker_restart_failed'' (stop_unit ct (wb_unit b)) else w_ok ()) (\<lambda>_.
     w_bind (or_code ''worker_configuration_unwritable''
         (write_config ct config (set_setting before_body ''model'' ''default'' chosen))) (\<lambda>_.
     w_bind (or_code ''model_not_recorded'' (on_projects (set_project_model (wb_project_id b) (Some chosen)))) (\<lambda>_.
     w_bind (or_code ''worker_restart_failed'' (start_unit ct (wb_unit b))) (\<lambda>_.
     w_bind (wait_healthy ct (wb_endpoint b) api_key) (\<lambda>well.
     w_bind (demand ''worker_unhealthy'' well) (\<lambda>_.
     w_bind (w_get (\<lambda>f. Inr (read_config ct config f))) (\<lambda>body.
     w_bind (demand ''model_not_applied''
         (case body of Inr s \<Rightarrow> lookup s ''model'' ''default'' = Some chosen | Inl _ \<Rightarrow> False)) (\<lambda>_.
     w_bind (same_process ct (wb_unit b) before) (\<lambda>same.
     demand ''worker_not_restarted'' (\<not> same))))))))))"

definition restore_model ::
  "Control \<Rightarrow> WorkerBinding \<Rightarrow> string \<Rightarrow> string \<Rightarrow> string \<Rightarrow> string option \<Rightarrow> bool \<Rightarrow> ('e, bool) wop" where
  "restore_model ct b config before_body api_key previous_model was_active =
     w_bind (w_try (stop_unit ct (wb_unit b))) (\<lambda>_.
     w_bind (w_try (write_config ct config before_body)) (\<lambda>written.
     w_bind (w_try (on_projects (set_project_model (wb_project_id b) previous_model))) (\<lambda>row_back.
     w_bind (if was_active then bring_up ct b api_key else w_ok True) (\<lambda>running.
     let restored = is_ok written \<and> is_ok row_back \<and> running in
     w_bind (if restored then w_ok () else worker_failed b) (\<lambda>_. w_ok restored)))))"

definition recorded_model :: "Control \<Rightarrow> string \<Rightarrow> Fleet \<Rightarrow> string option" where
  "recorded_model ct pid f =
     (case project (ct_codec ct) pid (f_projects f) of Inr (Some p) \<Rightarrow> rp_model p | _ \<Rightarrow> None)"

definition select_model :: "Control \<Rightarrow> string \<Rightarrow> string \<Rightarrow> (ReassignFailure, ModelSelection) wop" where
  "select_model ct pid chosen =
     (if \<not> is_ok (validate_model_id chosen) then w_err (untouched ''model_id_invalid'')
      else
        w_bind (ready_binding ct pid) (\<lambda>(b, api_key).
        case ct_paths ct of
          None \<Rightarrow> w_err (untouched ''credential_paths_unavailable'')
        | Some paths \<Rightarrow>
            let config = layout_config (layout_of paths (wb_profile b)) in
            w_bind (or_untouched ''worker_configuration_unreadable'' (w_get (read_config ct config))) (\<lambda>before_body.
            w_bind (w_get (\<lambda>f. Inr (recorded_model ct pid f))) (\<lambda>previous_model.
            w_bind (or_untouched ''worker_restart_failed'' (unit_active ct (wb_unit b))) (\<lambda>active.
            w_bind (if active \<and> lookup before_body ''model'' ''default'' = Some chosen \<and> previous_model = Some chosen
                then healthy ct (wb_endpoint b) api_key else w_ok False) (\<lambda>unchanged.
            if unchanged then w_ok ModelUnchanged
            else
              w_bind (pid_before ct (wb_unit b) active) (\<lambda>before.
              w_bind (w_try (switch_model ct b config before_body api_key chosen active before)) (\<lambda>switched.
              case switched of
                Inr _ \<Rightarrow> w_ok ModelApplied
              | Inl code \<Rightarrow>
                  w_bind (restore_model ct b config before_body api_key previous_model active) (\<lambda>restored.
                  w_err \<lparr>rf_code = code, rf_restored = restored\<rparr>))))))))) "

section \<open>Starting, suspending and resuming\<close>

datatype worker_error =
    WorkerBinding binding_error
  | WorkerKey key_error
  | WorkerUnit
  | WorkerState inventory_error
  | WorkerUnhealthy

definition reconcile_worker_credentials :: "Control \<Rightarrow> WorkerBinding \<Rightarrow> bool \<Rightarrow> ('e, unit) wop" where
  "reconcile_worker_credentials ct b live =
     (case ct_paths ct of
        None \<Rightarrow> w_ok ()
      | Some paths \<Rightarrow>
          w_bind (w_try (on_disk ct (\<lambda>k nonce.
              reconcile_credentials k (ct_me ct) (ct_umask ct) nonce paths (wb_profile b) (wb_credential_id b) live))) (\<lambda>_. w_ok ()))"

definition ensure_running :: "Control \<Rightarrow> string \<Rightarrow> (worker_error, WorkerBinding) wop" where
  "ensure_running ct pid =
     w_bind (w_map_err WorkerBinding (w_get (\<lambda>f. binding (ct_codec ct) pid (f_projects f)))) (\<lambda>b.
     w_bind (w_map_err WorkerKey (w_get (\<lambda>f.
         read_worker_key (ct_kernel ct (f_tick f)) (wb_api_key_ref b) (ct_runtime_uid ct) (f_disk f)))) (\<lambda>api_key.
     w_bind (w_map_err (\<lambda>_. WorkerUnit) (unit_active ct (wb_unit b))) (\<lambda>active.
     w_bind (reconcile_worker_credentials ct b active) (\<lambda>_.
     w_bind (if active then w_ok () else w_map_err (\<lambda>_. WorkerUnit) (start_unit ct (wb_unit b))) (\<lambda>_.
     w_bind (wait_healthy ct (wb_endpoint b) api_key) (\<lambda>well.
     if well then
       w_bind (w_map_err WorkerState (on_projects (set_profile_state pid Ready None))) (\<lambda>_. w_ok b)
     else
       w_bind (w_map_err WorkerState (on_projects (set_profile_state pid ProfileFailed (Some ''worker_unhealthy'')))) (\<lambda>_.
       w_err WorkerUnhealthy)))))))"

text \<open>The project a lifecycle command names.\<close>

definition known_project :: "Control \<Rightarrow> string \<Rightarrow> (ReassignFailure, RegisteredProject) wop" where
  "known_project ct pid =
     w_bind (or_untouched ''project_state_unreadable'' (w_get (\<lambda>f. project (ct_codec ct) pid (f_projects f)))) (\<lambda>p.
       case p of Some q \<Rightarrow> w_ok q | None \<Rightarrow> w_err (untouched ''project_not_registered''))"

definition mark_suspended :: "string \<Rightarrow> int option \<Rightarrow> (ReassignFailure, unit) wop" where
  "mark_suspended pid at = or_untouched ''project_state_unreadable'' (on_projects (set_project_suspended pid at))"

definition now_at :: "Control \<Rightarrow> ('e, int) wop" where
  "now_at ct = w_get (\<lambda>f. Inr (ct_now ct (f_tick f)))"

definition suspend_worker :: "Control \<Rightarrow> string \<Rightarrow> (ReassignFailure, WorkerLifecycle) wop" where
  "suspend_worker ct pid =
     w_bind (known_project ct pid) (\<lambda>p.
     if rp_runtime_ownership p = External then w_ok WorkerNotManaged
     else
       w_bind (if rp_suspended_at p = None then w_bind (now_at ct) (\<lambda>now. mark_suspended pid (Some now)) else w_ok ()) (\<lambda>_.
       if rp_profile_state p \<noteq> Ready \<or> rp_hermes_profile p = None then w_ok WorkerStopped
       else
         w_bind (or_untouched ''project_not_ready'' (w_get (\<lambda>_. unit_name (the (rp_hermes_profile p))))) (\<lambda>u.
         w_bind (or_untouched ''worker_stop_failed'' (unit_active ct u)) (\<lambda>active.
         w_bind (if active then w_map_err (\<lambda>_. unrestored ''worker_stop_failed'') (stop_unit ct u) else w_ok ()) (\<lambda>_.
         w_bind (w_try (unit_active ct u)) (\<lambda>still.
         if still = Inr False then w_ok WorkerStopped else w_err (unrestored ''worker_stop_failed'')))))))"

definition resume_worker :: "Control \<Rightarrow> string \<Rightarrow> (ReassignFailure, WorkerLifecycle) wop" where
  "resume_worker ct pid =
     w_bind (known_project ct pid) (\<lambda>p.
     if rp_runtime_ownership p = External then w_ok WorkerNotManaged
     else
       w_bind (if rp_suspended_at p \<noteq> None then mark_suspended pid None else w_ok ()) (\<lambda>_.
       if rp_hermes_profile p = None then w_ok WorkerRunning
       else
         w_bind (w_map_err (\<lambda>_. unrestored ''worker_unhealthy'') (ensure_running ct pid)) (\<lambda>_. w_ok WorkerRunning)))"

definition stop_owned_worker :: "Control \<Rightarrow> string \<Rightarrow> (worker_error, unit) wop" where
  "stop_owned_worker ct pid =
     w_bind (w_map_err WorkerBinding (w_get (\<lambda>f. binding (ct_codec ct) pid (f_projects f)))) (\<lambda>b.
     w_map_err (\<lambda>_. WorkerUnit) (stop_unit ct (wb_unit b)))"

definition restart_owned_worker :: "Control \<Rightarrow> string \<Rightarrow> (worker_error, unit) wop" where
  "restart_owned_worker ct pid =
     w_bind (w_map_err WorkerBinding (w_get (\<lambda>f. binding (ct_codec ct) pid (f_projects f)))) (\<lambda>b.
     w_map_err (\<lambda>_. WorkerUnit) (restart_unit ct (wb_unit b)))"

definition health_check :: "Control \<Rightarrow> string \<Rightarrow> (worker_error, bool) wop" where
  "health_check ct pid =
     w_bind (w_map_err WorkerBinding (w_get (\<lambda>f. binding (ct_codec ct) pid (f_projects f)))) (\<lambda>b.
     w_bind (w_map_err WorkerKey (w_get (\<lambda>f.
         read_worker_key (ct_kernel ct (f_tick f)) (wb_api_key_ref b) (ct_runtime_uid ct) (f_disk f)))) (\<lambda>api_key.
     healthy ct (wb_endpoint b) api_key))"

definition to_supervise :: "RegisteredProject \<Rightarrow> bool" where
  "to_supervise p \<longleftrightarrow>
     rp_is_enabled p \<and> rp_profile_state p = Ready \<and> rp_runtime_ownership p \<noteq> External \<and> rp_suspended_at p = None"

fun reconcile_each :: "Control \<Rightarrow> RegisteredProject list \<Rightarrow> ('e, (string \<times> worker_error) list) wop" where
  "reconcile_each ct [] = w_ok []"
| "reconcile_each ct (p # ps) =
     (if \<not> to_supervise p then reconcile_each ct ps
      else
        w_bind (w_try (ensure_running ct (rp_project_id p))) (\<lambda>r.
        w_bind (reconcile_each ct ps) (\<lambda>failures.
        w_ok ((case r of Inl e \<Rightarrow> [(rp_project_id p, e)] | Inr _ \<Rightarrow> []) @ failures))))"

definition reconcile_workers :: "Control \<Rightarrow> ('e, (string \<times> worker_error) list) wop" where
  "reconcile_workers ct =
     w_bind (w_get (\<lambda>f. Inr (case list_projects (ct_codec ct) (f_projects f) of Inr ps \<Rightarrow> ps | Inl _ \<Rightarrow> []))) (\<lambda>ps.
     reconcile_each ct ps)"

end
