(* ===== verification/Workers_Inv.thy ===== *)
theory Workers_Inv
  imports Workers
begin

text \<open>
  Weakest preconditions for the computations of the worker manager, and the outcome of a
  reassignment of a credential.
\<close>

section \<open>Reasoning about the manager\<close>

definition wp :: "('e, 'a) wop \<Rightarrow> Fleet \<Rightarrow> (('e, 'a) result \<Rightarrow> Fleet \<Rightarrow> bool) \<Rightarrow> bool" where
  "wp m f Q \<longleftrightarrow> (case m f of (r, f') \<Rightarrow> Q r f')"

lemma wpD: "wp m f Q \<Longrightarrow> m f = (r, f') \<Longrightarrow> Q r f'"
  by (simp add: wp_def)

lemma wp_mono: "wp m f Q \<Longrightarrow> (\<And>r f'. Q r f' \<Longrightarrow> Q' r f') \<Longrightarrow> wp m f Q'"
  by (auto simp: wp_def split: prod.splits)

lemma wp_bind: "wp (w_bind m g) f Q \<longleftrightarrow> wp m f (\<lambda>r f'. case r of Inl e \<Rightarrow> Q (Inl e) f' | Inr x \<Rightarrow> wp (g x) f' Q)"
  by (auto simp: wp_def w_bind_def split: prod.splits sum.splits)

lemma wp_basic [simp]:
  "wp (w_ok x) f Q \<longleftrightarrow> Q (Inr x) f"
  "wp (w_err e) f Q \<longleftrightarrow> Q (Inl e) f"
  "wp (w_get h) f Q \<longleftrightarrow> Q (h f) f"
  by (simp_all add: wp_def w_ok_def w_err_def w_get_def)

lemma wp_try: "wp (w_try m) f Q \<longleftrightarrow> wp m f (\<lambda>r. Q (Inr r))"
  by (auto simp: wp_def w_try_def split: prod.splits)

lemma wp_map_err: "wp (w_map_err h m) f Q \<longleftrightarrow> wp m f (\<lambda>r. Q (map_sum h id r))"
  by (auto simp: wp_def w_map_err_def split: prod.splits)

lemma wp_demand: "wp (demand e x) f Q \<longleftrightarrow> (if x then Q (Inr ()) f else Q (Inl e) f)"
  by (simp add: demand_def)

lemmas wp_simps = wp_bind wp_try wp_map_err wp_demand

text \<open>A relation between the state before and after, kept by every step.\<close>

locale fleet_order =
  fixes R :: "Fleet \<Rightarrow> Fleet \<Rightarrow> bool"
  assumes order_refl: "R f f"
    and order_trans: "R f g \<Longrightarrow> R g h \<Longrightarrow> R f h"
begin

definition keeps :: "('e, 'a) wop \<Rightarrow> bool" where
  "keeps m \<longleftrightarrow> (\<forall>f r f'. m f = (r, f') \<longrightarrow> R f f')"

lemma kept_allI: "(\<And>f r f'. m f = (r, f') \<Longrightarrow> R f f') \<Longrightarrow> keeps m" by (simp add: keeps_def)
lemma kept_allD: "keeps m \<Longrightarrow> m f = (r, f') \<Longrightarrow> R f f'" by (simp add: keeps_def)

lemma keeps_wp: "keeps m \<Longrightarrow> (\<And>r f'. R f f' \<Longrightarrow> Q r f') \<Longrightarrow> wp m f Q" by (auto simp: keeps_def wp_def split: prod.splits)

lemma keeps_also: "keeps m \<Longrightarrow> wp m f P \<Longrightarrow> (\<And>r f'. R f f' \<Longrightarrow> P r f' \<Longrightarrow> Q r f') \<Longrightarrow> wp m f Q"
  by (auto simp: keeps_def wp_def split: prod.splits)

lemma keeps_ok [intro]: "keeps (w_ok x)" by (simp add: keeps_def w_ok_def order_refl)
lemma keeps_err [intro]: "keeps (w_err x)" by (simp add: keeps_def w_err_def order_refl)
lemma keeps_get [intro]: "keeps (w_get x)" by (simp add: keeps_def w_get_def order_refl)

lemma keeps_bind [intro]:
  assumes "keeps m" and "\<And>x. keeps (g x)"
  shows "keeps (w_bind m g)"
  using assms order_trans by (force simp: keeps_def w_bind_def split: prod.splits sum.splits)

lemma keeps_try [intro]: "keeps m \<Longrightarrow> keeps (w_try m)"
  by (auto simp: keeps_def w_try_def split: prod.splits)

lemma keeps_map_err [intro]: "keeps m \<Longrightarrow> keeps (w_map_err h m)"
  by (fastforce simp: keeps_def w_map_err_def split: prod.splits)

lemma keeps_if [intro]: "keeps m \<Longrightarrow> keeps m' \<Longrightarrow> keeps (if c then m else m')"
  by simp

lemma keeps_option [intro]: "keeps m \<Longrightarrow> (\<And>x. keeps (g x)) \<Longrightarrow> keeps (case a of None \<Rightarrow> m | Some x \<Rightarrow> g x)"
  by (cases a) auto

lemma keeps_sum [intro]: "(\<And>x. keeps (g x)) \<Longrightarrow> (\<And>x. keeps (h x)) \<Longrightarrow> keeps (case a of Inl x \<Rightarrow> g x | Inr x \<Rightarrow> h x)"
  by (cases a) auto

lemma keeps_demand [intro]: "keeps (demand e x)"
  by (auto simp: demand_def)

end

section \<open>What a change to one project leaves alone\<close>

text \<open>The row of a project without what a change of credential or model may write to it.\<close>

definition row_core :: "string \<Rightarrow> ProjectRow \<Rightarrow> ProjectRow" where
  "row_core pid r =
     (if p_project_id r = pid
      then r\<lparr>p_credential_id := None, p_model := None, p_profile_state := [], p_profile_failure := None\<rparr> else r)"

definition own_path :: "ProfileLayout \<Rightarrow> string \<Rightarrow> bool" where
  "own_path l p \<longleftrightarrow>
     (\<exists>q \<in> {layout_auth l, layout_auth_lock l}. p = q \<or> (\<exists>n. p = staging_link q n))"

definition confined :: "WorkerBinding \<Rightarrow> ProfileLayout \<Rightarrow> Fleet \<Rightarrow> Fleet \<Rightarrow> bool" where
  "confined b l f f' \<longleftrightarrow>
     (\<forall>u. u \<noteq> wb_unit b \<longrightarrow> f_units f' u = f_units f u) \<and>
     (\<exists>new. f_calls f' = f_calls f @ new \<and> snd ` set new \<subseteq> {wb_unit b}) \<and>
     map (row_core (wb_project_id b)) (f_projects f') = map (row_core (wb_project_id b)) (f_projects f) \<and>
     (\<forall>p. \<not> own_path l p \<longrightarrow> f_disk f' p = f_disk f p)"

interpretation conf: fleet_order "confined b l" for b l
proof
  fix f show "confined b l f f" by (auto simp: confined_def intro: exI [of _ "[]"])
next
  fix f g h assume fg: "confined b l f g" and gh: "confined b l g h"
  then obtain x y where "f_calls g = f_calls f @ x" "snd ` set x \<subseteq> {wb_unit b}"
    "f_calls h = f_calls g @ y" "snd ` set y \<subseteq> {wb_unit b}" by (auto simp: confined_def)
  then have "\<exists>new. f_calls h = f_calls f @ new \<and> snd ` set new \<subseteq> {wb_unit b}" by (intro exI [of _ "x @ y"]) auto
  then show "confined b l f h" using fg gh by (simp add: confined_def)
qed

text \<open>The same for the assignment alone, which leaves the state of the project.\<close>

definition row_unassigned :: "string \<Rightarrow> ProjectRow \<Rightarrow> ProjectRow" where
  "row_unassigned pid r = (if p_project_id r = pid then r\<lparr>p_credential_id := None\<rparr> else r)"

definition assigns_only :: "string \<Rightarrow> Fleet \<Rightarrow> Fleet \<Rightarrow> bool" where
  "assigns_only pid f f' \<longleftrightarrow> map (row_unassigned pid) (f_projects f') = map (row_unassigned pid) (f_projects f)"

interpretation assigning: fleet_order "assigns_only pid" for pid
  by unfold_locales (simp_all add: assigns_only_def)

definition assigned_rows :: "string \<Rightarrow> string option \<Rightarrow> projects \<Rightarrow> bool" where
  "assigned_rows pid c t \<longleftrightarrow> (\<forall>r \<in> set t. p_project_id r = pid \<longrightarrow> p_credential_id r = c)"

lemma row_unassigned_id [simp]: "p_project_id (row_unassigned pid r) = p_project_id r"
  by (simp add: row_unassigned_def)

lemma row_unassigned_inj:
  assumes "row_unassigned pid x = row_unassigned pid y"
    and "p_project_id x = pid \<longrightarrow> p_credential_id x = c" and "p_project_id y = pid \<longrightarrow> p_credential_id y = c"
  shows "x = y"
proof -
  have "p_project_id x = p_project_id y" using assms(1) row_unassigned_id by metis
  then show ?thesis using assms by (cases x; cases y) (simp add: row_unassigned_def split: if_splits)
qed

lemma assignment_back:
  assumes "assigns_only pid f f'" and "assigned_rows pid c (f_projects f)" and "assigned_rows pid c (f_projects f')"
  shows "f_projects f' = f_projects f"
proof -
  have "inj_on (row_unassigned pid) (set (f_projects f') \<union> set (f_projects f))"
    using assms(2,3) row_unassigned_inj [of pid _ _ c] by (intro inj_onI) (fastforce simp: assigned_rows_def)
  then show ?thesis using assms(1) inj_on_map_eq_map unfolding assigns_only_def by blast
qed

lemma update_where_map: "(\<And>x. P x \<Longrightarrow> h (g x) = h x) \<Longrightarrow> map h (update_where P g t) = map h t"
  by (simp add: update_where_def)

lemma update_where_all:
  "(\<And>x. P x \<Longrightarrow> Q (g x)) \<Longrightarrow> (\<And>x. \<not> P x \<Longrightarrow> Q x) \<Longrightarrow> \<forall>y \<in> set (update_where P g t). Q y"
  by (auto simp: update_where_def)

lemma set_project_credential_is:
  "set_project_credential pid c t = Inr t' \<Longrightarrow> t' = update_where (\<lambda>r. p_project_id r = pid) (\<lambda>r. r\<lparr>p_credential_id := c\<rparr>) t"
  unfolding set_project_credential_def rbind_eq_Inr update_project_def by (metis sum.inject(2) sum.simps(4))

lemma set_profile_state_is:
  "set_profile_state pid st e t = Inr t' \<Longrightarrow>
     t' = update_where (\<lambda>r. p_project_id r = pid) (\<lambda>r. r\<lparr>p_profile_state := profile_as_str st, p_profile_failure := e\<rparr>) t"
  unfolding set_profile_state_def update_project_def by (metis sum.inject(2) sum.simps(4))

lemma credential_rows:
  assumes "set_project_credential pid c t = Inr t'"
  shows "map (row_unassigned pid) t' = map (row_unassigned pid) t" and "assigned_rows pid c t'"
    and "map (row_core pid) t' = map (row_core pid) t"
proof -
  note t = set_project_credential_is [OF assms]
  show "map (row_unassigned pid) t' = map (row_unassigned pid) t"
    unfolding t by (rule update_where_map) (simp add: row_unassigned_def)
  show "assigned_rows pid c t'" unfolding t assigned_rows_def by (rule update_where_all) simp_all
  show "map (row_core pid) t' = map (row_core pid) t"
    unfolding t by (rule update_where_map) (simp add: row_core_def)
qed

lemma state_rows:
  assumes "set_profile_state pid st e t = Inr t'"
  shows "map (row_core pid) t' = map (row_core pid) t"
  unfolding set_profile_state_is [OF assms] by (rule update_where_map) (simp add: row_core_def)

section \<open>Steps\<close>

lemma called_simps [simp]:
  "f_disk (called v u f) = f_disk f" "f_projects (called v u f) = f_projects f" "f_units (called v u f) = f_units f"
  "f_calls (called v u f) = f_calls f @ [(v, u)]"
  by (simp_all add: called_def)

lemma confined_called: "confined b l f (called v (wb_unit b) f)"
  by (simp add: confined_def)

lemma conf_systemctl [intro]: "conf.keeps b l (systemctl ct v (wb_unit b))"
  by (rule conf.kept_allI) (auto simp: systemctl_def confined_def split: prod.splits)

lemma conf_units [intro]:
  "conf.keeps b l (start_unit ct (wb_unit b))" "conf.keeps b l (stop_unit ct (wb_unit b))"
  "conf.keeps b l (unit_active ct (wb_unit b))" "conf.keeps b l (main_pid ct (wb_unit b))"
  unfolding start_unit_def stop_unit_def by (rule conf_systemctl)+
    (auto simp: unit_active_def main_pid_def intro!: conf.kept_allI confined_called)

lemma conf_probes [intro]: "conf.keeps b l (healthy ct e k)" "conf.keeps b l (wait_healthy ct e k)"
  by (auto simp: healthy_def wait_healthy_def confined_def intro!: conf.kept_allI)

lemma on_disk_is:
  "on_disk ct m f =
     (let d = m (ct_kernel ct (f_tick f)) (ct_nonce ct (f_tick f))
      in (fst (d (f_disk f)), f\<lparr>f_disk := fop_final d (f_disk f), f_tick := f_tick f + 1\<rparr>))"
  by (simp add: on_disk_def fop_final_def Let_def split: prod.splits)

lemma conf_on_disk:
  assumes "\<And>k n d p. \<not> own_path l p \<Longrightarrow> fop_final (m k n) d p = d p"
  shows "conf.keeps b l (on_disk ct m)"
  by (rule conf.kept_allI) (use assms in \<open>auto simp: on_disk_is confined_def Let_def\<close>)

lemma swap_link_final:
  "p \<noteq> link \<Longrightarrow> p \<noteq> staging_link link n \<Longrightarrow> fop_final (swap_link k me n target link r) d p = d p"
  using swap_link_through [of d link n target k me r] fop_final_state [of "swap_link k me n target link r" d]
  by (auto simp: through_def link_kept_def)

lemma remove_link_final: "p \<noteq> link \<Longrightarrow> fop_final (remove_link k link) d p = d p"
  by (auto simp: remove_link_def fop_final_def fop_map_err_def remove_file_def split: sum.splits io_error.splits option.splits)

lemma conf_links [intro]:
  "q \<in> {layout_auth l, layout_auth_lock l} \<Longrightarrow> conf.keeps b l (put_link_at ct target q r)"
  "q \<in> {layout_auth l, layout_auth_lock l} \<Longrightarrow> conf.keeps b l (drop_link_at ct q)"
  unfolding put_link_at_def drop_link_at_def
  by (rule conf_on_disk, auto simp: own_path_def intro!: swap_link_final remove_link_final)+

lemma conf_projects [intro]:
  assumes "\<And>t t'. g t = Inr t' \<Longrightarrow> map (row_core (wb_project_id b)) t' = map (row_core (wb_project_id b)) t"
  shows "conf.keeps b l (on_projects g)"
  by (rule conf.kept_allI) (use assms in \<open>auto simp: on_projects_def confined_def split: sum.splits\<close>)

lemma conf_rows [intro]:
  "conf.keeps b l (on_projects (set_project_credential (wb_project_id b) c))"
  "conf.keeps b l (on_projects (set_profile_state (wb_project_id b) st e))"
  by (auto intro: credential_rows state_rows)

lemma conf_point_lock [intro]: "conf.keeps b l (point_lock_at ct paths l a)"
  by (cases a) (auto simp: point_lock_at_def)

lemma conf_apply_links [intro]: "conf.keeps b l (apply_links ct paths l a)"
  by (auto simp: apply_links_def)

lemma conf_pid_before [intro]: "conf.keeps b l (pid_before ct (wb_unit b) active)"
  by (auto simp: pid_before_def)

lemma conf_same_process [intro]: "conf.keeps b l (same_process ct (wb_unit b) p)"
  by (auto simp: same_process_def)

lemma conf_bring_up [intro]: "conf.keeps b l (bring_up ct b k)"
  by (auto simp: bring_up_def)

lemmas conf_rules =
  conf.keeps_bind conf.keeps_try conf.keeps_map_err conf.keeps_if conf.keeps_option conf.keeps_sum conf.keeps_demand
  conf.keeps_ok conf.keeps_err conf.keeps_get conf_units conf_probes conf_rows conf_point_lock conf_apply_links
  conf_pid_before conf_same_process conf_bring_up conf_links

lemma conf_switch [intro]: "conf.keeps b l (switch_credential ct paths b l k req des act p)"
  unfolding switch_credential_def by (intro conf_rules)

lemma conf_restore [intro]: "conf.keeps b l (restore_credential ct paths b l k prev tgt act)"
  unfolding restore_credential_def worker_failed_def Let_def by (intro conf_rules) simp_all

section \<open>What the steps do\<close>

text \<open>
  What is asked of systemd: a unit it says it stopped has no main process, and one it says
  it started has.  \<open>stops_work\<close> says in addition that it refuses no stop.
\<close>

definition systemd_ok :: "Control \<Rightarrow> bool" where
  "systemd_ok ct \<longleftrightarrow> (\<forall>t u p.
     (fst (ct_systemctl ct t ''stop'' u p) \<longrightarrow> snd (ct_systemctl ct t ''stop'' u p) = None) \<and>
     (fst (ct_systemctl ct t ''start'' u p) \<longrightarrow> snd (ct_systemctl ct t ''start'' u p) \<noteq> None))"

definition stops_work :: "Control \<Rightarrow> string \<Rightarrow> bool" where
  "stops_work ct u \<longleftrightarrow> (\<forall>t p. fst (ct_systemctl ct t ''stop'' u p))"

definition pids_seen :: "Control \<Rightarrow> string \<Rightarrow> bool" where
  "pids_seen ct u \<longleftrightarrow> (\<forall>t. \<not> ct_mute ct t ''show'' u)"

definition lstat_works :: "Control \<Rightarrow> bool" where
  "lstat_works ct \<longleftrightarrow> (\<forall>t p. \<not> ct_kernel ct t ''lstat'' p)"

lemma systemd_okD:
  assumes "systemd_ok ct"
  shows "ct_systemctl ct t ''stop'' u p = (True, m) \<Longrightarrow> m = None"
    and "ct_systemctl ct t ''start'' u p = (True, m) \<Longrightarrow> m \<noteq> None"
  using assms unfolding systemd_ok_def by (metis fst_conv snd_conv)+

lemma wp_start:
  assumes "systemd_ok ct"
    and "\<And>r f'. f_disk f' = f_disk f \<Longrightarrow> f_projects f' = f_projects f \<Longrightarrow> (is_ok r \<Longrightarrow> f_units f' u \<noteq> None) \<Longrightarrow> Q r f'"
  shows "wp (start_unit ct u) f Q"
proof -
  obtain x m where e: "ct_systemctl ct (f_tick f) ''start'' u (f_units f u) = (x, m)" by fastforce
  have "x \<Longrightarrow> m \<noteq> None" using systemd_okD(2) [OF assms(1)] e by simp
  then show ?thesis unfolding wp_def start_unit_def systemctl_def e by (auto intro!: assms(2))
qed

lemma wp_stop:
  assumes "systemd_ok ct"
    and "\<And>r f'. f_disk f' = f_disk f \<Longrightarrow> f_projects f' = f_projects f \<Longrightarrow> (is_ok r \<Longrightarrow> f_units f' u = None) \<Longrightarrow>
       (stops_work ct u \<Longrightarrow> is_ok r) \<Longrightarrow> Q r f'"
  shows "wp (stop_unit ct u) f Q"
proof -
  obtain x m where e: "ct_systemctl ct (f_tick f) ''stop'' u (f_units f u) = (x, m)" by fastforce
  have "stops_work ct u \<Longrightarrow> x" unfolding stops_work_def using e by (metis fst_conv)
  moreover have "x \<Longrightarrow> m = None" using systemd_okD(1) [OF assms(1)] e by simp
  ultimately show ?thesis unfolding wp_def stop_unit_def systemctl_def e by (auto intro!: assms(2))
qed

lemma wp_main_pid:
  assumes "\<And>r f'. f_disk f' = f_disk f \<Longrightarrow> f_projects f' = f_projects f \<Longrightarrow> f_units f' = f_units f \<Longrightarrow>
      (pids_seen ct u \<Longrightarrow> r = Inr (f_units f u)) \<Longrightarrow> Q r f'"
  shows "wp (main_pid ct u) f Q"
  using assms by (auto simp: wp_def main_pid_def pids_seen_def)

lemma wp_active:
  assumes "\<And>r f'. f_disk f' = f_disk f \<Longrightarrow> f_projects f' = f_projects f \<Longrightarrow> f_units f' = f_units f \<Longrightarrow>
      (\<And>x. r = Inr x \<Longrightarrow> x = (f_units f u \<noteq> None)) \<Longrightarrow> Q r f'"
  shows "wp (unit_active ct u) f Q"
  unfolding wp_def unit_active_def by (auto intro!: assms split: if_splits)

lemma wp_probes:
  assumes "\<And>x f'. f_disk f' = f_disk f \<Longrightarrow> f_projects f' = f_projects f \<Longrightarrow> f_units f' = f_units f \<Longrightarrow> Q (Inr x) f'"
  shows "wp (healthy ct e k) f Q" and "wp (wait_healthy ct e k) f Q"
  using assms by (auto simp: wp_def healthy_def wait_healthy_def)

lemma wp_projects:
  assumes "\<And>e. g (f_projects f) = Inl e \<Longrightarrow> Q (Inl e) f"
    and "\<And>t. g (f_projects f) = Inr t \<Longrightarrow> Q (Inr ()) (f\<lparr>f_projects := t\<rparr>)"
  shows "wp (on_projects g) f Q"
  using assms by (auto simp: wp_def on_projects_def split: sum.splits)

definition link_of :: "disk \<Rightarrow> string \<Rightarrow> string option" where
  "link_of d p = (case d p of None \<Rightarrow> None | Some i \<Rightarrow> (case i_node i of Link t \<Rightarrow> Some t | _ \<Rightarrow> None))"

lemma links_to_link_of: "links_to d p t \<longleftrightarrow> link_of d p = Some t"
  by (auto simp: links_to_def link_of_def split: option.splits node.splits)

lemma wp_put_link:
  assumes "\<And>r f'. f_projects f' = f_projects f \<Longrightarrow> f_units f' = f_units f \<Longrightarrow>
      (is_ok r \<Longrightarrow> link_of (f_disk f') p = Some target) \<Longrightarrow>
      (\<And>q. q \<noteq> p \<Longrightarrow> \<forall>n. q \<noteq> staging_link p n \<Longrightarrow> f_disk f' q = f_disk f q) \<Longrightarrow> Q r f'"
  shows "wp (put_link_at ct target p x) f Q"
proof -
  define m where "m = swap_link (ct_kernel ct (f_tick f)) (ct_me ct) (ct_nonce ct (f_tick f)) target p x"
  have "is_ok (fst (m (f_disk f))) \<Longrightarrow> link_of (fop_final m (f_disk f)) p = Some target"
    using swap_link_through [of "f_disk f" p "ct_nonce ct (f_tick f)" target "ct_kernel ct (f_tick f)" "ct_me ct" x]
    by (simp add: through_def link_done_def m_def links_to_link_of)
  moreover have "q \<noteq> p \<Longrightarrow> \<forall>n. q \<noteq> staging_link p n \<Longrightarrow> fop_final m (f_disk f) q = f_disk f q" for q
    unfolding m_def by (rule swap_link_final) auto
  ultimately show ?thesis unfolding put_link_at_def wp_def on_disk_is Let_def m_def [symmetric] by (auto intro!: assms)
qed

lemma wp_drop_link:
  assumes "lstat_works ct"
    and "\<And>r f'. f_projects f' = f_projects f \<Longrightarrow> f_units f' = f_units f \<Longrightarrow>
      (is_ok r \<Longrightarrow> link_of (f_disk f') p = None) \<Longrightarrow> (\<And>q. q \<noteq> p \<Longrightarrow> f_disk f' q = f_disk f q) \<Longrightarrow> Q r f'"
  shows "wp (drop_link_at ct p) f Q"
proof -
  define k where "k = ct_kernel ct (f_tick f)"
  have "\<not> k ''lstat'' p" using assms(1) by (simp add: lstat_works_def k_def)
  then have "is_ok (fst (remove_link k p d)) \<Longrightarrow> link_of (fop_final (remove_link k p) d) p = None" for d
    by (auto simp: remove_link_def fop_final_def fop_map_err_def remove_file_def symlink_metadata_def is_symlink_def link_of_def
        is_dir_def is_ok_def split: option.splits node.splits if_splits)
  then show ?thesis unfolding drop_link_at_def wp_def on_disk_is Let_def k_def [symmetric]
    by (auto intro!: assms remove_link_final)
qed

definition lock_right :: "CredentialPaths \<Rightarrow> ProfileLayout \<Rightarrow> string option \<Rightarrow> disk \<Rightarrow> bool" where
  "lock_right paths l a d \<longleftrightarrow>
     (case a of
        None \<Rightarrow> link_of d (layout_auth_lock l) = None
      | Some i \<Rightarrow> \<exists>t. lock_file (cp_credential_root paths) i = Inr t \<and> link_of d (layout_auth_lock l) = Some t)"

lemma auth_not_lock: "layout_auth l \<noteq> layout_auth_lock l" "layout_auth l \<noteq> staging_link (layout_auth_lock l) n"
proof -
  have y: "CHR ''/'' \<notin> set LOCK_FILE" "LOCK_FILE \<noteq> []" by (simp_all add: LOCK_FILE_def)
  show "layout_auth l \<noteq> staging_link (layout_auth_lock l) n"
    unfolding layout_auth_def layout_auth_lock_def by (rule staging_link_other [OF _ _ _ y]) simp_all
  show "layout_auth l \<noteq> layout_auth_lock l"
    by (auto simp: layout_auth_def layout_auth_lock_def path_join_def LOCK_FILE_def starts_with_def)
qed

lemma wp_point_lock:
  assumes "lstat_works ct"
    and "\<And>r f'. f_projects f' = f_projects f \<Longrightarrow> f_units f' = f_units f \<Longrightarrow>
      (is_ok r \<Longrightarrow> lock_right paths l a (f_disk f')) \<Longrightarrow> f_disk f' (layout_auth l) = f_disk f (layout_auth l) \<Longrightarrow> Q r f'"
  shows "wp (point_lock_at ct paths l a) f Q"
proof (cases a)
  case None
  then show ?thesis unfolding point_lock_at_def
    by (auto intro!: wp_drop_link [OF assms(1)] assms(2) simp: lock_right_def auth_not_lock)
next
  case (Some i)
  then show ?thesis unfolding point_lock_at_def
    by (cases "lock_file (cp_credential_root paths) i")
      (auto intro!: wp_put_link assms(2) simp: wp_bind lock_right_def auth_not_lock is_ok_def)
qed

lemma wp_bindI: "wp m f (\<lambda>r f'. case r of Inl e \<Rightarrow> Q (Inl e) f' | Inr x \<Rightarrow> wp (g x) f' Q) \<Longrightarrow> wp (w_bind m g) f Q"
  by (simp add: wp_bind)

lemma wp_bind_tryI: "wp m f (\<lambda>r f'. wp (g r) f' Q) \<Longrightarrow> wp (w_bind (w_try m) g) f Q"
  by (simp add: wp_bind wp_try)

lemma wp_bind_errI:
  "wp m f (\<lambda>r f'. case r of Inl e \<Rightarrow> Q (Inl (h e)) f' | Inr x \<Rightarrow> wp (g x) f' Q) \<Longrightarrow> wp (w_bind (w_map_err h m) g) f Q"
  unfolding wp_bind wp_map_err by (erule wp_mono) (auto split: sum.splits)

lemma wp_apply_links:
  assumes "lstat_works ct"
    and "\<And>r f'. f_projects f' = f_projects f \<Longrightarrow> f_units f' = f_units f \<Longrightarrow>
      (is_ok r \<Longrightarrow> lock_right paths l a (f_disk f') \<and> (\<exists>t. store_for paths a = Inr t \<and> link_of (f_disk f') (layout_auth l) = Some t)) \<Longrightarrow> Q r f'"
  shows "wp (apply_links ct paths l a) f Q"
proof (cases "store_for paths a")
  case (Inl e)
  then show ?thesis using assms(2) [of f "Inl (HomeId e)"] by (simp add: apply_links_def wp_bind is_ok_def)
next
  case (Inr t)
  have "wp (w_bind (put_link_at ct t (layout_auth l) False) (\<lambda>_. point_lock_at ct paths l a)) f Q"
  proof (rule wp_bindI, rule wp_put_link)
    fix r :: "(home_error, unit) result" and g :: Fleet
    assume g: "f_projects g = f_projects f" "f_units g = f_units f"
      and auth: "is_ok r \<Longrightarrow> link_of (f_disk g) (layout_auth l) = Some t"
    show "case r of Inl e \<Rightarrow> Q (Inl e) g | Inr x \<Rightarrow> wp (point_lock_at ct paths l a) g Q"
    proof (cases r)
      case (Inl e)
      then show ?thesis using assms(2) [of g r] g by (simp add: is_ok_def)
    next
      case (Inr x)
      then show ?thesis using g auth \<open>store_for paths a = Inr t\<close>
        by (auto intro!: wp_point_lock [OF assms(1)] assms(2) simp: is_ok_def link_of_def)
    qed
  qed
  then show ?thesis using Inr by (simp add: apply_links_def wp_bind)
qed

section \<open>Undoing and doing\<close>

definition failed_rows :: "string \<Rightarrow> projects \<Rightarrow> bool" where
  "failed_rows pid t \<longleftrightarrow> (\<forall>r \<in> set t. p_project_id r = pid \<longrightarrow> p_profile_state r = profile_as_str ProfileFailed)"

definition undone ::
  "Control \<Rightarrow> CredentialPaths \<Rightarrow> WorkerBinding \<Rightarrow> ProfileLayout \<Rightarrow> string option \<Rightarrow> string option \<Rightarrow> bool \<Rightarrow> Fleet \<Rightarrow> Fleet \<Rightarrow> bool" where
  "undone ct paths b l prev tgt act f f' \<longleftrightarrow>
     assigns_only (wb_project_id b) f f' \<and> assigned_rows (wb_project_id b) prev (f_projects f') \<and>
     link_of (f_disk f') (layout_auth l) = tgt \<and> lock_right paths l prev (f_disk f') \<and>
     (act \<longrightarrow> f_units f' (wb_unit b) \<noteq> None) \<and>
     (\<not> act \<longrightarrow> stops_work ct (wb_unit b) \<longrightarrow> f_units f' (wb_unit b) = None)"

lemma wp_worker_failed:
  assumes "\<And>f'. failed_rows (wb_project_id b) (f_projects f') \<Longrightarrow> Q (Inr ()) f'"
  shows "wp (worker_failed b) f Q"
  unfolding worker_failed_def
proof (rule wp_bind_tryI, rule wp_projects)
  fix e assume "set_profile_state (wb_project_id b) ProfileFailed (Some ''worker_unhealthy'') (f_projects f) = Inl e"
  then have "project_row (wb_project_id b) (f_projects f) = None"
    by (auto simp: set_profile_state_def update_project_def split: if_splits)
  then have "failed_rows (wb_project_id b) (f_projects f)"
    by (auto simp: failed_rows_def row_by_def find_None_iff)
  then show "wp (w_ok ()) f Q" using assms by simp
next
  fix t assume "set_profile_state (wb_project_id b) ProfileFailed (Some ''worker_unhealthy'') (f_projects f) = Inr t"
  note t = set_profile_state_is [OF this]
  have "failed_rows (wb_project_id b) t" unfolding t failed_rows_def by (rule update_where_all) simp_all
  then show "wp (w_ok ()) (f\<lparr>f_projects := t\<rparr>) Q" using assms by simp
qed

lemma wp_bring_up:
  assumes "systemd_ok ct"
    and "\<And>x f'. f_disk f' = f_disk f \<Longrightarrow> f_projects f' = f_projects f \<Longrightarrow> (x \<Longrightarrow> f_units f' (wb_unit b) \<noteq> None) \<Longrightarrow> Q (Inr x) f'"
  shows "wp (bring_up ct b k) f Q"
  unfolding bring_up_def
  by (rule wp_bind_tryI, rule wp_start [OF assms(1)]) (auto intro!: wp_probes assms(2))

lemma wp_put_back:
  assumes "lstat_works ct"
    and "\<And>r f'. f_projects f' = f_projects f \<Longrightarrow> f_units f' = f_units f \<Longrightarrow> (is_ok r \<Longrightarrow> link_of (f_disk f') p = tgt) \<Longrightarrow> Q r f'"
  shows "wp (case tgt of Some target \<Rightarrow> put_link_at ct target p False | None \<Rightarrow> drop_link_at ct p) f Q"
  by (cases tgt) (auto intro!: wp_put_link wp_drop_link [OF assms(1)] assms(2))

lemma wp_assign:
  assumes "\<And>r f'. f_disk f' = f_disk f \<Longrightarrow> f_units f' = f_units f \<Longrightarrow> assigns_only pid f f' \<Longrightarrow>
      (is_ok r \<Longrightarrow> assigned_rows pid c (f_projects f')) \<Longrightarrow> Q r f'"
  shows "wp (on_projects (set_project_credential pid c)) f Q"
proof (rule wp_projects)
  fix e show "Q (Inl e) f" by (rule assms) (simp_all add: assigns_only_def is_ok_def)
next
  fix t assume "set_project_credential pid c (f_projects f) = Inr t"
  note r = credential_rows [OF this]
  show "Q (Inr ()) (f\<lparr>f_projects := t\<rparr>)" by (rule assms) (simp_all add: assigns_only_def r)
qed

lemma wp_restore:
  assumes "systemd_ok ct" and "lstat_works ct"
    and "\<And>x f'. (x \<Longrightarrow> undone ct paths b l prev tgt act f f') \<Longrightarrow> (\<not> x \<Longrightarrow> failed_rows (wb_project_id b) (f_projects f')) \<Longrightarrow> Q (Inr x) f'"
  shows "wp (restore_credential ct paths b l k prev tgt act) f Q"
  unfolding restore_credential_def Let_def
  apply (rule wp_bind_tryI, rule wp_stop [OF assms(1)])
  apply (rule wp_bind_tryI, rule wp_put_back [OF assms(2)])
  apply (rule wp_bind_tryI, rule wp_point_lock [OF assms(2)])
  apply (rule wp_bind_tryI, rule wp_assign)
  apply (rule wp_bindI)
  subgoal for r1 f1 r2 f2 r3 f3 r4 f4
    by (cases act)
      (auto intro!: wp_bring_up [OF assms(1)] wp_bindI wp_worker_failed assms(3)
        simp: undone_def assigns_only_def link_of_def)
  done

definition in_place :: "CredentialPaths \<Rightarrow> WorkerBinding \<Rightarrow> ProfileLayout \<Rightarrow> string option \<Rightarrow> string \<Rightarrow> Fleet \<Rightarrow> bool" where
  "in_place paths b l req desired f' \<longleftrightarrow>
     assigned_rows (wb_project_id b) req (f_projects f') \<and> link_of (f_disk f') (layout_auth l) = Some desired \<and>
     lock_right paths l req (f_disk f') \<and> f_units f' (wb_unit b) \<noteq> None"

definition fresh_process :: "Control \<Rightarrow> WorkerBinding \<Rightarrow> nat option \<Rightarrow> Fleet \<Rightarrow> bool" where
  "fresh_process ct b before f' \<longleftrightarrow>
     (\<forall>p. before = Some p \<longrightarrow> pids_seen ct (wb_unit b) \<longrightarrow> f_units f' (wb_unit b) \<noteq> Some p)"

lemma wp_same_process:
  assumes "\<And>x f'. f_disk f' = f_disk f \<Longrightarrow> f_projects f' = f_projects f \<Longrightarrow> f_units f' = f_units f \<Longrightarrow>
      (\<not> x \<Longrightarrow> fresh_process ct b before f') \<Longrightarrow> Q (Inr x) f'"
  shows "wp (same_process ct (wb_unit b) before) f Q"
  unfolding same_process_def
  by (rule wp_bind_tryI, rule wp_main_pid) (auto intro!: assms simp: fresh_process_def split: option.splits sum.splits)

lemma wp_prove:
  assumes "f_units f (wb_unit b) \<noteq> None"
    and "\<And>f'. f_disk f' = f_disk f \<Longrightarrow> f_projects f' = f_projects f \<Longrightarrow> f_units f' = f_units f \<Longrightarrow>
      fresh_process ct b before f' \<Longrightarrow> Q (Inr ()) f'"
    and "\<And>e f'. f_projects f' = f_projects f \<Longrightarrow> Q (Inl e) f'"
  shows "wp (w_bind (wait_healthy ct (wb_endpoint b) api_key) (\<lambda>well.
     w_bind (demand e1 well) (\<lambda>_.
     w_bind (w_get (\<lambda>f. Inr (h f))) (\<lambda>seen.
     w_bind (demand e2 (c seen)) (\<lambda>_.
     w_bind (same_process ct (wb_unit b) before) (\<lambda>same.
     demand e3 (\<not> same))))))) f Q"
  apply (rule wp_bindI, rule wp_probes)
  subgoal for x g
    by (auto simp: wp_bind wp_demand intro!: wp_same_process assms)
  done

lemma wp_switch_stopped:
  assumes "systemd_ok ct" and "lstat_works ct" and "store_for paths req = Inr desired" and g: "f_projects g = f_projects f"
    and "\<And>f'. assigns_only (wb_project_id b) f f' \<Longrightarrow> in_place paths b l req desired f' \<Longrightarrow> fresh_process ct b before f' \<Longrightarrow> Q (Inr ()) f'"
    and bad: "\<And>e f'. assigns_only (wb_project_id b) f f' \<Longrightarrow> Q (Inl e) f'"
  shows "wp (w_bind (or_code e1 (apply_links ct paths l req)) (\<lambda>_.
     w_bind (or_code e2 (on_projects (set_project_credential (wb_project_id b) req))) (\<lambda>_.
     w_bind (or_code e3 (start_unit ct (wb_unit b))) (\<lambda>_.
     w_bind (wait_healthy ct (wb_endpoint b) k) (\<lambda>well.
     w_bind (demand e4 well) (\<lambda>_.
     w_bind (w_get (\<lambda>f. Inr (h f))) (\<lambda>seen.
     w_bind (demand e5 (c seen)) (\<lambda>_.
     w_bind (same_process ct (wb_unit b) before) (\<lambda>same.
     demand e6 (\<not> same)))))))))) g Q"
  apply (rule wp_bind_errI, rule wp_apply_links [OF assms(2)])
  subgoal for r1 g1
    apply (cases r1)
    using g bad apply (simp add: assigns_only_def)
    apply (simp only: sum.case)
    apply (rule wp_bind_errI, rule wp_assign)
    subgoal for x r2 g2
      apply (cases r2)
      using g bad apply (simp add: assigns_only_def)
      apply (simp only: sum.case)
      apply (rule wp_bind_errI, rule wp_start [OF assms(1)])
      subgoal for y r3 g3
        by (cases r3, use g bad in \<open>simp add: assigns_only_def\<close>, simp only: sum.case, rule wp_prove)
          (use g assms(3,5) bad in \<open>auto simp: assigns_only_def in_place_def is_ok_def\<close>)
      done
    done
  done

lemma wp_switch:
  assumes "systemd_ok ct" and "lstat_works ct" and "store_for paths req = Inr desired"
    and "\<And>f'. assigns_only (wb_project_id b) f f' \<Longrightarrow> in_place paths b l req desired f' \<Longrightarrow> fresh_process ct b before f' \<Longrightarrow> Q (Inr ()) f'"
    and "\<And>e f'. assigns_only (wb_project_id b) f f' \<Longrightarrow> Q (Inl e) f'"
  shows "wp (switch_credential ct paths b l k req desired act before) f Q"
  unfolding switch_credential_def
  using assms(5) by (auto simp: wp_bind [of "if act then _ else _"] wp_map_err assigns_only_def
      intro!: wp_stop [OF assms(1)] wp_switch_stopped [OF assms(1-3) _ assms(4,5)] split: sum.splits)

section \<open>The whole reassignment\<close>

lemma previous_link_of: "lstat_works ct \<Longrightarrow> previous_link ct p f = Inr x \<Longrightarrow> link_of (f_disk f) p = x"
  by (auto simp: previous_link_def link_now_def read_link_def symlink_metadata_def lstat_works_def link_of_def is_symlink_def
      split: option.splits if_splits node.splits)

definition settled :: "Control \<Rightarrow> CredentialPaths \<Rightarrow> WorkerBinding \<Rightarrow> string option \<Rightarrow> Fleet \<Rightarrow> (ReassignFailure, Reassignment) result \<Rightarrow> Fleet \<Rightarrow> bool" where
  "settled ct paths b requested f r f' \<longleftrightarrow>
     (let l = layout_of paths (wb_profile b); u = wb_unit b; pid = wb_project_id b in
      case r of
        Inr ReassignUnchanged \<Rightarrow>
          f_disk f' = f_disk f \<and> f_projects f' = f_projects f \<and> f_units f' = f_units f \<and>
          wb_credential_id b = requested \<and> f_units f u \<noteq> None \<and>
          (\<exists>t desired. link_of (f_disk f) (layout_auth l) = Some t \<and> store_for paths requested = Inr desired \<and> components t = components desired)
      | Inr ReassignApplied \<Rightarrow>
          assigns_only pid f f' \<and> (\<exists>desired. store_for paths requested = Inr desired \<and> in_place paths b l requested desired f') \<and>
          (pids_seen ct u \<longrightarrow> f_units f' u \<noteq> f_units f u)
      | Inl e \<Rightarrow>
          if rf_restored e then
            f_projects f' = f_projects f \<and> link_of (f_disk f') (layout_auth l) = link_of (f_disk f) (layout_auth l) \<and>
            (f_disk f' (layout_auth_lock l) = f_disk f (layout_auth_lock l) \<or> lock_right paths l (wb_credential_id b) (f_disk f')) \<and>
            (f_units f u \<noteq> None \<longrightarrow> f_units f' u \<noteq> None) \<and>
            (stops_work ct u \<longrightarrow> f_units f u = None \<longrightarrow> f_units f' u = None)
          else failed_rows pid (f_projects f'))"

lemma settled_untouched:
  assumes "f_disk f' = f_disk f" and "f_projects f' = f_projects f" and "f_units f' = f_units f"
  shows "settled ct paths b requested f (Inl (untouched c)) f'"
  using assms by (simp add: settled_def untouched_def Let_def)

lemma wp_pid_before:
  assumes "\<And>x f'. f_disk f' = f_disk f \<Longrightarrow> f_projects f' = f_projects f \<Longrightarrow> f_units f' = f_units f \<Longrightarrow>
     (pids_seen ct u \<Longrightarrow> act = (f_units f u \<noteq> None) \<Longrightarrow> x = f_units f u) \<Longrightarrow> Q (Inr x) f'"
  shows "wp (pid_before ct u act) f Q"
  unfolding pid_before_def
  by (auto intro!: wp_bind_tryI wp_main_pid assms split: sum.splits)

lemma settled_applied:
  assumes "assigns_only (wb_project_id b) f f'" and "store_for paths requested = Inr desired"
    and "in_place paths b (layout_of paths (wb_profile b)) requested desired f'" and "fresh_process ct b before f'"
    and "pids_seen ct (wb_unit b) \<Longrightarrow> before = f_units f (wb_unit b)"
  shows "settled ct paths b requested f (Inr ReassignApplied) f'"
proof -
  have "f_units f' (wb_unit b) \<noteq> f_units f (wb_unit b)" if "pids_seen ct (wb_unit b)"
    using assms(3,4) assms(5) [OF that] that by (cases "f_units f (wb_unit b)") (auto simp: in_place_def fresh_process_def)
  then show ?thesis using assms by (auto simp: settled_def Let_def)
qed

lemma settled_undone:
  assumes "undone ct paths b (layout_of paths (wb_profile b)) (wb_credential_id b) tgt act g f'" and "assigns_only (wb_project_id b) f g"
    and "assigned_rows (wb_project_id b) (wb_credential_id b) (f_projects f)"
    and "act = (f_units f (wb_unit b) \<noteq> None)" and "tgt = link_of (f_disk f) (layout_auth (layout_of paths (wb_profile b)))"
  shows "settled ct paths b requested f (Inl \<lparr>rf_code = c, rf_restored = True\<rparr>) f'"
proof -
  have "assigns_only (wb_project_id b) f f'" using assms(1,2) by (simp add: undone_def assigns_only_def)
  then have "f_projects f' = f_projects f" using assms(1) by (intro assignment_back [OF _ assms(3)]) (simp_all add: undone_def)
  then show ?thesis using assms(1,4,5) by (simp add: settled_def Let_def undone_def)
qed

lemma settled_failed:
  "failed_rows (wb_project_id b) (f_projects f') \<Longrightarrow> settled ct paths b requested f (Inl \<lparr>rf_code = c, rf_restored = False\<rparr>) f'"
  by (simp add: settled_def Let_def)

lemma settled_unchanged:
  assumes "f_disk f' = f_disk f" "f_projects f' = f_projects f" "f_units f' = f_units f"
    and "f_units f (wb_unit b) \<noteq> None" and "store_for paths requested = Inr desired" and "wb_credential_id b = requested"
    and "map_option components (link_of (f_disk f) (layout_auth (layout_of paths (wb_profile b)))) = Some (components desired)"
  shows "settled ct paths b requested f (Inr ReassignUnchanged) f'"
  using assms unfolding settled_def Let_def by (auto simp: map_option_eq_Some)

lemma wp_change:
  assumes "systemd_ok ct" and "lstat_works ct" and "store_for paths requested = Inr desired"
    and "assigned_rows (wb_project_id b) (wb_credential_id b) (f_projects f)"
    and g: "f_projects g = f_projects f" and act: "act = (f_units f (wb_unit b) \<noteq> None)"
    and l: "l = layout_of paths (wb_profile b)" and tgt: "tgt = link_of (f_disk f) (layout_auth l)"
    and before: "pids_seen ct (wb_unit b) \<Longrightarrow> before = f_units f (wb_unit b)"
  shows "wp (w_bind (w_try (switch_credential ct paths b l k requested desired act before)) (\<lambda>switched.
        case switched of
          Inr _ \<Rightarrow> w_ok ReassignApplied
        | Inl code \<Rightarrow>
            w_bind (restore_credential ct paths b l k (wb_credential_id b) tgt act) (\<lambda>restored.
            w_err \<lparr>rf_code = code, rf_restored = restored\<rparr>))) g (settled ct paths b requested f)"
proof (rule wp_bind_tryI, rule wp_switch [OF assms(1-3)])
  fix h assume h: "assigns_only (wb_project_id b) g h" "in_place paths b l requested desired h" "fresh_process ct b before h"
  have "assigns_only (wb_project_id b) f h" using h(1) g by (simp add: assigns_only_def)
  from settled_applied [OF this assms(3) h(2) [unfolded l] h(3) before] show
    "wp (case Inr () of Inl code \<Rightarrow> w_bind (restore_credential ct paths b l k (wb_credential_id b) tgt act)
          (\<lambda>restored. w_err \<lparr>rf_code = code, rf_restored = restored\<rparr>) | Inr _ \<Rightarrow> w_ok ReassignApplied) h (settled ct paths b requested f)"
    by simp
next
  fix e h assume "assigns_only (wb_project_id b) g h"
  then have h: "assigns_only (wb_project_id b) f h" using g by (simp add: assigns_only_def)
  have "wp (w_bind (restore_credential ct paths b l k (wb_credential_id b) tgt act)
      (\<lambda>restored. w_err \<lparr>rf_code = e, rf_restored = restored\<rparr>)) h (settled ct paths b requested f)"
    apply (rule wp_bindI, rule wp_restore [OF assms(1,2)])
    subgoal for x f'
      using settled_undone [OF _ h assms(4) act tgt [unfolded l], of ct f' requested e] settled_failed [of b f' ct paths requested f e]
      by (cases x) (simp_all add: l)
    done
  then show "wp (case Inl e of Inl code \<Rightarrow> w_bind (restore_credential ct paths b l k (wb_credential_id b) tgt act)
          (\<lambda>restored. w_err \<lparr>rf_code = code, rf_restored = restored\<rparr>) | Inr _ \<Rightarrow> w_ok ReassignApplied) h (settled ct paths b requested f)"
    by simp
qed

lemma wp_decide:
  assumes "systemd_ok ct" and "lstat_works ct" and "store_for paths requested = Inr desired"
    and "assigned_rows (wb_project_id b) (wb_credential_id b) (f_projects f)"
    and g: "f_disk g = f_disk f" "f_projects g = f_projects f" "f_units g = f_units f"
    and act: "act = (f_units f (wb_unit b) \<noteq> None)" and l: "l = layout_of paths (wb_profile b)"
    and tgt: "tgt = link_of (f_disk f) (layout_auth l)"
    and unchanged: "unchanged \<Longrightarrow> act \<and> map_option components tgt = Some (components desired) \<and> wb_credential_id b = requested"
  shows "wp (if unchanged then w_ok ReassignUnchanged else
        w_bind (pid_before ct (wb_unit b) act) (\<lambda>before.
        w_bind (w_try (switch_credential ct paths b l k requested desired act before)) (\<lambda>switched.
        case switched of
          Inr _ \<Rightarrow> w_ok ReassignApplied
        | Inl code \<Rightarrow>
            w_bind (restore_credential ct paths b l k (wb_credential_id b) tgt act) (\<lambda>restored.
            w_err \<lparr>rf_code = code, rf_restored = restored\<rparr>)))) g (settled ct paths b requested f)"
proof (cases unchanged)
  case True
  have "f_units f (wb_unit b) \<noteq> None" using unchanged [OF True] act by simp
  moreover have "map_option components (link_of (f_disk f) (layout_auth (layout_of paths (wb_profile b)))) = Some (components desired)"
    using unchanged [OF True] tgt l by metis
  ultimately show ?thesis using True unchanged [OF True] by (simp add: settled_unchanged [OF g _ assms(3)])
next
  case False
  show ?thesis unfolding if_not_P [OF False]
    by (rule wp_bindI, rule wp_pid_before, simp only: sum.case, rule wp_change [OF assms(1-4) _ act l tgt])
      (simp_all add: g act)
qed

lemma wp_ask_if:
  assumes "\<And>x f'. f_disk f' = f_disk f \<Longrightarrow> f_projects f' = f_projects f \<Longrightarrow> f_units f' = f_units f \<Longrightarrow> (x \<Longrightarrow> c) \<Longrightarrow> Q (Inr x) f'"
  shows "wp (if c then healthy ct e k else w_ok False) f Q"
  using assms by (cases c) (auto intro!: wp_probes)

lemma wp_reassign_ready:
  assumes "systemd_ok ct" and "lstat_works ct" and "store_for paths requested = Inr desired"
    and was: "assigned_rows (wb_project_id b) (wb_credential_id b) (f_projects f)"
  shows "wp (reassign_ready ct paths b k requested desired) f (settled ct paths b requested f)"
proof -
  define l where l: "l = layout_of paths (wb_profile b)"
  show ?thesis
  proof (cases "previous_link ct (layout_auth l) f")
    case (Inl e)
    then obtain c where "e = untouched c" by (auto simp: previous_link_def split: sum.splits option.splits if_splits)
    then show ?thesis using Inl by (simp add: reassign_ready_def Let_def l [symmetric] wp_bind settled_untouched)
  next
    case (Inr tgt)
    note d = wp_decide [OF assms(1-3) was _ _ _ _ l previous_link_of [OF assms(2) Inr, symmetric]]
    show ?thesis unfolding reassign_ready_def Let_def l [symmetric]
      apply (rule wp_bindI)
      apply (simp only: Inr wp_basic sum.case)
      apply (rule wp_bind_errI, rule wp_active)
      subgoal for r g
        by (cases r, simp add: settled_untouched, simp only: sum.case, rule wp_bindI, rule wp_ask_if, simp only: sum.case, rule d)
          simp_all
      done
  qed
qed

lemma conf_reassign_ready: "conf.keeps b (layout_of paths (wb_profile b)) (reassign_ready ct paths b k requested desired)"
  unfolding reassign_ready_def Let_def by (intro conf_rules conf_switch conf_restore)

lemma binding_row:
  assumes "binding cdc pid t = Inr b"
  obtains r where "project_row pid t = Some r" and "wb_project_id b = pid" and "wb_credential_id b = p_credential_id r"
    and "p_hermes_profile r = Some (wb_profile b)" and "unit_name (wb_profile b) = Inr (wb_unit b)"
  using assms
  by (auto simp: binding_def project_def map_project_def split: sum.splits option.splits if_splits)

lemma assigned_row:
  assumes "distinct (map p_project_id t)" and "project_row pid t = Some r"
  shows "assigned_rows pid (p_credential_id r) t"
proof -
  have "x = r" if "x \<in> set t" "p_project_id x = pid" for x
    using assms that by (auto simp: row_by_def find_Some_iff distinct_map inj_on_def)
  then show ?thesis by (auto simp: assigned_rows_def)
qed

lemma reassign_settles:
  assumes "systemd_ok ct" and "lstat_works ct" and "distinct (map p_project_id (f_projects f))"
    and paths: "ct_paths ct = Some paths" and bound: "binding (ct_codec ct) pid (f_projects f) = Inr b"
    and run: "reassign_credential ct pid requested f = (r, f')"
  shows "confined b (layout_of paths (wb_profile b)) f f'" and "settled ct paths b requested f r f'"
proof -
  obtain row where row: "project_row pid (f_projects f) = Some row" "wb_project_id b = pid" "wb_credential_id b = p_credential_id row"
    using binding_row [OF bound] by metis
  have was: "assigned_rows (wb_project_id b) (wb_credential_id b) (f_projects f)"
    using assigned_row [OF assms(3) row(1)] row(2,3) by simp
  consider (early) c where "r = Inl (untouched c)" "f' = f"
    | (late) k desired where "store_for paths requested = Inr desired" "reassign_ready ct paths b k requested desired f = (r, f')"
    using run
    by (cases "read_worker_key (ct_kernel ct (f_tick f)) (wb_api_key_ref b) (ct_runtime_uid ct) (f_disk f)"; cases "store_for paths requested")
      (auto simp: reassign_credential_def paths ready_binding_def w_bind_def w_map_err_def w_get_def w_ok_def bound)
  then have "confined b (layout_of paths (wb_profile b)) f f' \<and> settled ct paths b requested f r f'"
  proof cases
    case early
    then show ?thesis by (simp add: settled_untouched conf.order_refl)
  next
    case late
    show ?thesis
      using wpD [OF wp_reassign_ready [OF assms(1,2) late(1) was] late(2)] conf.kept_allD [OF conf_reassign_ready late(2)] by simp
  qed
  then show "confined b (layout_of paths (wb_profile b)) f f'" and "settled ct paths b requested f r f'" by simp_all
qed

section \<open>Changes that leave the disk and the inventory\<close>

definition only_units :: "string set \<Rightarrow> Fleet \<Rightarrow> Fleet \<Rightarrow> bool" where
  "only_units U f f' \<longleftrightarrow> f_disk f' = f_disk f \<and> f_projects f' = f_projects f \<and> (\<forall>u. u \<notin> U \<longrightarrow> f_units f' u = f_units f u)"

interpretation units: fleet_order "only_units U" for U
  by unfold_locales (auto simp: only_units_def)

lemma units_systemctl: "u \<in> U \<Longrightarrow> units.keeps U (systemctl ct v u)"
  by (rule units.kept_allI) (auto simp: systemctl_def only_units_def split: prod.splits)

lemma units_primitive [intro]:
  "u \<in> U \<Longrightarrow> units.keeps U (start_unit ct u)" "u \<in> U \<Longrightarrow> units.keeps U (stop_unit ct u)"
  "units.keeps U (unit_active ct u)" "units.keeps U (main_pid ct u)" "units.keeps U (healthy ct e k)" "units.keeps U (wait_healthy ct e k)"
  by (auto simp: start_unit_def stop_unit_def unit_active_def main_pid_def healthy_def wait_healthy_def only_units_def
      intro!: units_systemctl intro: units.kept_allI)

lemmas units_rules =
  units.keeps_bind units.keeps_try units.keeps_map_err units.keeps_if units.keeps_option units.keeps_sum units.keeps_demand
  units.keeps_ok units.keeps_err units.keeps_get units_primitive

lemma units_helpers [intro]:
  "units.keeps U (pid_before ct u a)" "units.keeps U (same_process ct u p)" "wb_unit b \<in> U \<Longrightarrow> units.keeps U (bring_up ct b k)"
  unfolding pid_before_def same_process_def bring_up_def by (intro units_rules; simp)+

definition target_units :: "target list \<Rightarrow> string set" where
  "target_units ts = (\<lambda>(b, _). wb_unit b) ` set ts"

lemma target_units_Cons [simp]: "target_units ((b, x) # ts) = insert (wb_unit b) (target_units ts)"
  by (simp add: target_units_def)

lemma units_targets:
  "target_units ts \<subseteq> U \<Longrightarrow> units.keeps U (stop_targets ct ts)"
  "target_units ts \<subseteq> U \<Longrightarrow> units.keeps U (start_and_prove ct ts)"
  "target_units ts \<subseteq> U \<Longrightarrow> units.keeps U (restart_all ct ts)"
  "target_units ts \<subseteq> U \<Longrightarrow> units.keeps U (stop_all ct ts)"
  by (induction ts) (auto intro!: units_rules units_helpers)

text \<open>
  C32.  Reassigning the credential of a project, whatever systemd, the disk and the worker
  answer.  Only the unit of the project is called, only its own files are touched, and its
  row changes in nothing but the assignment and the state.  When the change is reported as
  applied, the link and the lock are those of the requested credential, the row records it,
  the unit is up, and it is not served by the process from before.  When nothing was to be
  done, nothing was.  A failure that is reported as restored left the inventory as it was,
  the link pointing where it did and an active worker active; an inactive one is inactive
  again unless systemd refused to stop it.  A failure that is not restored leaves the
  project marked as failed.
\<close>

theorem reassignment_is_whole_or_undone:
  assumes "systemd_ok ct" and "lstat_works ct" and "distinct (map p_project_id (f_projects f))"
    and "ct_paths ct = Some paths" and "binding (ct_codec ct) pid (f_projects f) = Inr b"
    and "reassign_credential ct pid requested f = (r, f')"
    and "l = layout_of paths (wb_profile b)" and "u = wb_unit b"
  shows "confined b l f f' \<and>
    (case r of
       Inr ReassignUnchanged \<Rightarrow>
         f_disk f' = f_disk f \<and> f_projects f' = f_projects f \<and> f_units f' = f_units f \<and> wb_credential_id b = requested \<and> f_units f u \<noteq> None
     | Inr ReassignApplied \<Rightarrow>
         (\<exists>desired. store_for paths requested = Inr desired \<and> in_place paths b l requested desired f') \<and>
         (pids_seen ct u \<longrightarrow> f_units f' u \<noteq> f_units f u)
     | Inl e \<Rightarrow>
         if rf_restored e then
           f_projects f' = f_projects f \<and> link_of (f_disk f') (layout_auth l) = link_of (f_disk f) (layout_auth l) \<and>
           (f_disk f' (layout_auth_lock l) = f_disk f (layout_auth_lock l) \<or> lock_right paths l (wb_credential_id b) (f_disk f')) \<and>
           (f_units f u \<noteq> None \<longrightarrow> f_units f' u \<noteq> None) \<and>
           (stops_work ct u \<longrightarrow> f_units f u = None \<longrightarrow> f_units f' u = None)
         else failed_rows (wb_project_id b) (f_projects f'))"
  using reassign_settles [OF assms(1-6)] unfolding settled_def Let_def assms(7,8)
  by (auto split: sum.splits Reassignment.splits)

end
