(* ===== verification/Workers_Material.thy ===== *)
theory Workers_Material
  imports Workers_Inv
begin

text \<open>
  Replacing what a credential holds, for every worker that reads it: the workers are
  stopped, the store is swapped, and each worker has to prove itself on the new one.
\<close>

section \<open>The workers of a credential\<close>

definition bound_units :: "Control \<Rightarrow> string list \<Rightarrow> projects \<Rightarrow> string set" where
  "bound_units ct pids t = {wb_unit b | pid b. pid \<in> set pids \<and> binding (ct_codec ct) pid t = Inr b}"

definition collected :: "Control \<Rightarrow> string list \<Rightarrow> Fleet \<Rightarrow> (ReassignFailure, target list) result \<Rightarrow> bool" where
  "collected ct pids f r \<longleftrightarrow>
     (case r of
        Inl e \<Rightarrow> \<exists>c. e = untouched c
      | Inr ts \<Rightarrow>
          target_units ts \<subseteq> bound_units ct pids (f_projects f) \<and>
          (\<forall>pid \<in> set pids. \<exists>b k p. binding (ct_codec ct) pid (f_projects f) = Inr b \<and>
             (b, k, f_units f (wb_unit b) \<noteq> None, p) \<in> set ts))"

lemma collected_cong: "f_projects g = f_projects f \<Longrightarrow> f_units g = f_units f \<Longrightarrow> collected ct pids g r = collected ct pids f r"
  by (simp add: collected_def cong: sum.case_cong)

lemma collected_Cons:
  assumes "binding (ct_codec ct) pid (f_projects f) = Inr b" and "collected ct pids f (Inr ts)"
  shows "collected ct (pid # pids) f (Inr ((b, k, f_units f (wb_unit b) \<noteq> None, p) # ts))"
proof -
  have "bound_units ct pids t \<subseteq> bound_units ct (pid # pids) t" for t by (auto simp: bound_units_def)
  moreover have "wb_unit b \<in> bound_units ct (pid # pids) (f_projects f)" using assms(1) by (auto simp: bound_units_def)
  ultimately show ?thesis using assms unfolding collected_def sum.case target_units_Cons list.set by blast
qed

lemma collected_err: "collected ct pids f (Inl (untouched c))"
  by (auto simp: collected_def)

lemma wp_ready_binding:
  assumes "\<And>c. Q (Inl (untouched c)) f" and "\<And>b k. binding (ct_codec ct) pid (f_projects f) = Inr b \<Longrightarrow> Q (Inr (b, k)) f"
  shows "wp (ready_binding ct pid) f Q"
  using assms
  by (cases "binding (ct_codec ct) pid (f_projects f)"; cases "read_worker_key (ct_kernel ct (f_tick f)) (wb_api_key_ref (projr (binding (ct_codec ct) pid (f_projects f)))) (ct_runtime_uid ct) (f_disk f)")
    (auto simp: ready_binding_def wp_bind wp_map_err)

definition looked :: "Fleet \<Rightarrow> Fleet \<Rightarrow> bool" where
  "looked f f' \<longleftrightarrow> f_disk f' = f_disk f \<and> f_projects f' = f_projects f \<and> f_units f' = f_units f"

lemma wp_collect: "wp (collect_targets ct pids) f (\<lambda>r f'. looked f f' \<and> collected ct pids f r)"
proof (induction pids arbitrary: f)
  case Nil
  then show ?case by (simp add: collected_def target_units_def looked_def)
next
  case (Cons pid pids)
  show ?case unfolding collect_targets.simps
    apply (rule wp_bindI, rule wp_ready_binding)
     apply (simp add: looked_def collected_err)
    apply (simp only: sum.case prod.case)
    apply (rule wp_bind_errI, rule wp_active)
    subgoal for b k r g
      apply (cases r)
       apply (simp add: looked_def collected_err)
      apply (simp only: sum.case)
      apply (rule wp_bindI, rule wp_pid_before)
      apply (simp only: sum.case)
      apply (rule wp_bindI, rule wp_mono [OF Cons.IH])
      subgoal for active before h r2 f'
        using collected_cong [of h f ct pids r2] collected_Cons [of ct pid f b pids "projr r2" k before]
        by (cases r2) (simp_all add: looked_def collected_def [of _ _ _ "Inl _"])
      done
    done
qed

section \<open>Started workers stay up\<close>

definition grown :: "Fleet \<Rightarrow> Fleet \<Rightarrow> bool" where
  "grown f f' \<longleftrightarrow> (\<forall>u. f_units f u \<noteq> None \<longrightarrow> f_units f' u \<noteq> None)"

lemma wp_start_up:
  assumes "systemd_ok ct" and "\<And>f'. grown f f' \<Longrightarrow> f_units f' u \<noteq> None \<Longrightarrow> Q (Inr ()) f'" and "\<And>f'. Q (Inl ()) f'"
  shows "wp (start_unit ct u) f Q"
proof -
  obtain x m where e: "ct_systemctl ct (f_tick f) ''start'' u (f_units f u) = (x, m)" by fastforce
  have "x \<Longrightarrow> m \<noteq> None" using systemd_okD(2) [OF assms(1)] e by simp
  then show ?thesis unfolding wp_def start_unit_def systemctl_def e by (auto simp: grown_def intro!: assms(2,3))
qed

definition all_up :: "target list \<Rightarrow> Fleet \<Rightarrow> bool" where
  "all_up ts f \<longleftrightarrow> (\<forall>(b, _, act, _) \<in> set ts. act \<longrightarrow> f_units f (wb_unit b) \<noteq> None)"

lemma all_up_Cons: "all_up ((b, k, act, p) # ts) f \<longleftrightarrow> (act \<longrightarrow> f_units f (wb_unit b) \<noteq> None) \<and> all_up ts f"
  by (simp add: all_up_def)

lemma wp_start_and_prove:
  assumes "systemd_ok ct"
  shows "wp (start_and_prove ct ts) f (\<lambda>r f'. is_ok r \<longrightarrow> grown f f' \<and> all_up ts f')"
proof (induction ts arbitrary: f)
  case Nil
  then show ?case by (simp add: grown_def all_up_def)
next
  case (Cons t ts)
  obtain b k act p where t: "t = (b, k, act, p)" by (cases t)
  have step: "wp (w_bind (wait_healthy ct (wb_endpoint b) k) (\<lambda>well.
        w_bind (demand e1 well) (\<lambda>_.
        w_bind (same_process ct (wb_unit b) p) (\<lambda>same.
        w_bind (demand e2 (\<not> same)) (\<lambda>_. start_and_prove ct ts))))) g (\<lambda>r f'. is_ok r \<longrightarrow> grown f f' \<and> all_up (t # ts) f')"
    if g: "grown f g" "f_units g (wb_unit b) \<noteq> None" for g e1 e2
    apply (rule wp_bindI, rule wp_probes)
    apply (simp only: sum.case wp_bind wp_demand)
    apply (auto simp: is_ok_def)
    apply (rule wp_same_process)
    apply (auto simp: wp_demand is_ok_def)
    apply (rule wp_mono [OF Cons.IH])
    using g apply (auto simp: t all_up_Cons grown_def is_ok_def)
    done
  show ?case
  proof (cases act)
    case True
    show ?thesis unfolding t start_and_prove.simps if_P [OF True] if_not_P [of "\<not> act"] not_not
      using True step by (auto simp: t intro!: wp_bind_errI wp_start_up [OF assms])
  next
    case False
    then show ?thesis using Cons.IH [of f] by (simp add: t all_up_Cons)
  qed
qed

section \<open>Replacing the material\<close>

lemma wp_swap_in:
  assumes "stat_works (ct_kernel ct (f_tick f))" and "with_old home old (f_disk f)" and "holds (f_disk f) staged new"
    and "staged \<noteq> live_store home" and "staged \<noteq> rollback_store home"
    and "\<And>r f'. f_projects f' = f_projects f \<Longrightarrow> f_units f' = f_units f \<Longrightarrow> shaped home old new (f_disk f') \<Longrightarrow>
      (is_ok r \<Longrightarrow> with_both home old new (f_disk f')) \<Longrightarrow> Q r f'"
  shows "wp (on_disk ct (\<lambda>k _. swap_in k home staged uid)) f Q"
proof -
  note t = swap_in_through [OF assms(1-5), of uid]
  have "shaped home old new (fop_final (swap_in (ct_kernel ct (f_tick f)) home staged uid) (f_disk f))"
    using t fop_final_state by (auto simp: through_def)
  then show ?thesis using t unfolding wp_def on_disk_is Let_def by (auto simp: through_def intro!: assms(6))
qed

lemma wp_roll_back:
  assumes "stat_works (ct_kernel ct (f_tick f))" and "with_both home old new (f_disk f)"
    and "\<And>r f'. f_projects f' = f_projects f \<Longrightarrow> f_units f' = f_units f \<Longrightarrow> shaped home old new (f_disk f') \<Longrightarrow>
      (is_ok r \<Longrightarrow> with_old home old (f_disk f')) \<Longrightarrow> Q r f'"
  shows "wp (on_disk ct (\<lambda>k _. roll_back k home)) f Q"
proof -
  note t = roll_back_through [OF assms(1), of home old "f_disk f" new]
  have "shaped home old new (fop_final (roll_back (ct_kernel ct (f_tick f)) home) (f_disk f))"
    using t assms(2) fop_final_state by (auto simp: through_def)
  then show ?thesis using t assms(2) unfolding wp_def on_disk_is Let_def by (auto simp: through_def intro!: assms(3))
qed

definition material_kept :: "string set \<Rightarrow> string \<Rightarrow> string \<Rightarrow> string \<Rightarrow> Fleet \<Rightarrow> Fleet \<Rightarrow> bool" where
  "material_kept U home old new f f' \<longleftrightarrow>
     f_projects f' = f_projects f \<and> shaped home old new (f_disk f') \<and> (\<forall>u. u \<notin> U \<longrightarrow> f_units f' u = f_units f u)"

definition old_back :: "string \<Rightarrow> string \<Rightarrow> ReassignFailure \<Rightarrow> Fleet \<Rightarrow> bool" where
  "old_back home old e f' \<longleftrightarrow> (rf_restored e \<longrightarrow> rf_code e \<noteq> ''credential_swap_failed'' \<longrightarrow> with_old home old (f_disk f'))"

lemma material_keptI:
  "material_kept U home old new f g \<Longrightarrow> only_units U g h \<Longrightarrow> material_kept U home old new f h"
  by (simp add: material_kept_def only_units_def)

lemma stop_all_returns: "wp (stop_all ct ts) f (\<lambda>r _. \<exists>x. r = Inr x)"
proof (induction ts arbitrary: f)
  case (Cons t ts)
  then show ?case by (cases t) (auto intro!: wp_bind_tryI simp: wp_def [of "stop_unit _ _"] split: prod.splits)
qed simp

lemma bring_up_returns: "wp (bring_up ct b k) f (\<lambda>r _. \<exists>x. r = Inr x)"
  by (auto simp: bring_up_def wp_def [of "start_unit _ _"] intro!: wp_bind_tryI wp_probes split: prod.splits)

lemma restart_all_returns: "wp (restart_all ct ts :: ('e, bool) wop) f (\<lambda>r _. \<exists>x. r = Inr x)"
proof (induction ts arbitrary: f)
  case (Cons t ts)
  have "wp (w_bind (restart_all ct ts :: ('e, bool) wop) (\<lambda>x. w_ok (h x))) g (\<lambda>r _. \<exists>x. r = Inr x)" for h :: "bool \<Rightarrow> bool" and g
    by (rule wp_bindI, rule wp_mono [OF Cons.IH]) auto
  then have "wp (w_bind (bring_up ct b k :: ('e, bool) wop) (\<lambda>up. w_bind (restart_all ct ts) (\<lambda>x. w_ok (up \<and> x)))) f (\<lambda>r _. \<exists>x. r = Inr x)" for b k
    by (intro wp_bindI, intro wp_mono [OF bring_up_returns]) auto
  then show ?case using Cons.IH by (cases t) auto
qed auto

lemma wp_stop_all:
  assumes "target_units ts \<subseteq> U" and "\<And>x f'. only_units U f f' \<Longrightarrow> Q (Inr x) f'"
  shows "wp (stop_all ct ts) f Q"
  by (rule units.keeps_also [OF units_targets(4) [OF assms(1)] stop_all_returns]) (auto intro: assms(2))

lemma wp_restart_all:
  assumes "target_units ts \<subseteq> U" and "\<And>x f'. only_units U f f' \<Longrightarrow> Q (Inr x) f'"
  shows "wp (restart_all ct ts) f Q"
  by (rule units.keeps_also [OF units_targets(3) [OF assms(1)] restart_all_returns]) (auto intro: assms(2))

lemma wp_undo:
  assumes "\<And>t. stat_works (ct_kernel ct t)" and "target_units ts \<subseteq> U"
    and "material_kept U home old new f g" and "with_both home old new (f_disk g)"
  shows "wp (w_bind (stop_all ct ts) (\<lambda>_.
             w_bind (w_try (on_disk ct (\<lambda>k _. roll_back k home))) (\<lambda>rolled_back.
             w_bind (if is_ok rolled_back then restart_all ct ts else w_ok False) (\<lambda>restored.
             w_err \<lparr>rf_code = code, rf_restored = restored\<rparr>)))) g
    (\<lambda>r f'. material_kept U home old new f f' \<and> (\<exists>e. r = Inl e \<and> old_back home old e f'))"
  apply (rule wp_bindI, rule wp_stop_all [OF assms(2)])
  subgoal for x h
    using material_keptI [OF assms(3), of h] assms(4)
    apply (simp only: sum.case)
    apply (rule wp_bind_tryI, rule wp_roll_back [OF assms(1)])
     apply (simp add: only_units_def)
    subgoal for r h2
      by (cases "is_ok r")
        (auto intro!: wp_bindI wp_restart_all [OF assms(2)] simp: material_kept_def only_units_def old_back_def)
    done
  done

definition replaced :: "target list \<Rightarrow> string \<Rightarrow> string \<Rightarrow> string \<Rightarrow> (ReassignFailure, unit) result \<Rightarrow> Fleet \<Rightarrow> bool" where
  "replaced ts home old new r f' \<longleftrightarrow>
     (case r of Inr _ \<Rightarrow> with_both home old new (f_disk f') \<and> all_up ts f' | Inl e \<Rightarrow> old_back home old e f')"

lemma wp_replace:
  assumes "systemd_ok ct" and "\<And>t. stat_works (ct_kernel ct t)" and "target_units ts \<subseteq> U"
    and "with_old home old (f_disk f)" and "holds (f_disk f) staged new" and "staged \<noteq> live_store home" and "staged \<noteq> rollback_store home"
  shows "wp (w_bind (w_try (on_disk ct (\<lambda>k _. swap_in k home staged uid))) (\<lambda>swapped.
     case swapped of
       Inl _ \<Rightarrow>
         w_bind (restart_all ct ts) (\<lambda>restored.
         w_err \<lparr>rf_code = ''credential_swap_failed'', rf_restored = restored\<rparr>)
     | Inr _ \<Rightarrow>
         w_bind (w_try (start_and_prove ct ts)) (\<lambda>proven.
         case proven of
           Inr _ \<Rightarrow> w_ok ()
         | Inl code \<Rightarrow>
             w_bind (stop_all ct ts) (\<lambda>_.
             w_bind (w_try (on_disk ct (\<lambda>k _. roll_back k home))) (\<lambda>rolled_back.
             w_bind (if is_ok rolled_back then restart_all ct ts else w_ok False) (\<lambda>restored.
             w_err \<lparr>rf_code = code, rf_restored = restored\<rparr>)))))) f
    (\<lambda>r f'. material_kept U home old new f f' \<and> replaced ts home old new r f')"
  apply (rule wp_bind_tryI, rule wp_swap_in [OF assms(2,4-7)])
  subgoal for r g
    apply (cases r)
    subgoal for e
      by (auto intro!: wp_bindI wp_restart_all [OF assms(3)] simp: material_kept_def only_units_def replaced_def old_back_def)
    subgoal for u
      apply (simp only: sum.case is_ok_simps)
      apply (rule wp_bind_tryI, rule units.keeps_also [OF units_targets(2) [OF assms(3)] wp_start_and_prove [OF assms(1)]])
      subgoal for r2 h
        apply (cases r2)
        subgoal for code
          by (simp only: sum.case, rule wp_mono [OF wp_undo [OF assms(2,3), of home old new f]])
            (auto simp: material_kept_def only_units_def replaced_def)
        subgoal for v
          by (auto simp: material_kept_def only_units_def replaced_def)
        done
      done
    done
  done

lemma stop_targets_refusal: "wp (stop_targets ct ts) f (\<lambda>r _. \<forall>e. r = Inl e \<longrightarrow> (\<exists>c. e = untouched c))"
proof (induction ts arbitrary: f)
  case (Cons t ts)
  obtain b k act p where t: "t = (b, k, act, p)" by (cases t)
  show ?case unfolding t stop_targets.simps
  proof (cases act)
    case True
    then show "wp (w_bind (if act then or_untouched ''worker_restart_failed'' (stop_unit ct (wb_unit b)) else w_ok ()) (\<lambda>_. stop_targets ct ts))
        f (\<lambda>r _. \<forall>e. r = Inl e \<longrightarrow> (\<exists>c. e = untouched c))"
      by (auto simp: wp_def [of "stop_unit _ _"] intro!: wp_bind_errI Cons.IH split: sum.splits prod.splits)
  qed (simp add: wp_bind Cons.IH)
qed simp

lemma replaced_up:
  assumes "collected ct pids f (Inr ts)" and "replaced ts home old new (Inr u) f'" and "pid \<in> set pids"
  shows "\<exists>b. binding (ct_codec ct) pid (f_projects f) = Inr b \<and> (f_units f (wb_unit b) \<noteq> None \<longrightarrow> f_units f' (wb_unit b) \<noteq> None)"
proof -
  obtain b k p where b: "binding (ct_codec ct) pid (f_projects f) = Inr b" "(b, k, f_units f (wb_unit b) \<noteq> None, p) \<in> set ts"
    using assms(1,3) by (auto simp: collected_def)
  have "all_up ts f'" using assms(2) by (simp add: replaced_def)
  then show ?thesis using b unfolding all_up_def by fastforce
qed

definition material_outcome ::
  "Control \<Rightarrow> string list \<Rightarrow> string \<Rightarrow> string \<Rightarrow> string \<Rightarrow> Fleet \<Rightarrow> (ReassignFailure, unit) result \<Rightarrow> Fleet \<Rightarrow> bool" where
  "material_outcome ct pids home old new f r f' \<longleftrightarrow>
     (case r of
        Inr _ \<Rightarrow>
          with_both home old new (f_disk f') \<and>
          (\<forall>pid \<in> set pids. \<exists>b. binding (ct_codec ct) pid (f_projects f) = Inr b \<and>
             (f_units f (wb_unit b) \<noteq> None \<longrightarrow> f_units f' (wb_unit b) \<noteq> None))
      | Inl e \<Rightarrow> rf_restored e \<longrightarrow> rf_code e \<noteq> ''credential_swap_failed'' \<longrightarrow> with_old home old (f_disk f'))"

lemma wp_swap_material:
  assumes "systemd_ok ct" and "\<And>t. stat_works (ct_kernel ct t)" and "with_old home old (f_disk f)" and "holds (f_disk f) staged new"
    and "staged \<noteq> live_store home" and "staged \<noteq> rollback_store home"
  shows "wp (swap_credential_material ct pids home staged uid) f
    (\<lambda>r f'. material_kept (bound_units ct pids (f_projects f)) home old new f f' \<and> material_outcome ct pids home old new f r f')"
  unfolding swap_credential_material_def
  apply (rule wp_bindI, rule wp_mono [OF wp_collect])
  subgoal for r g
    apply (cases r)
    subgoal for e
      using assms(3) by (auto simp: material_kept_def looked_def shaped_def material_outcome_def)
    subgoal for ts
      apply (simp only: sum.case)
      apply (rule wp_bindI, rule units.keeps_also [OF units_targets(1) [of ts "bound_units ct pids (f_projects f)"] stop_targets_refusal])
      apply (simp add: collected_def)
      subgoal for r2 h
        apply (cases r2)
        subgoal for e
          using assms(3) by (auto simp: material_kept_def looked_def only_units_def shaped_def material_outcome_def)
        subgoal for v
          apply (simp only: sum.case)
          apply (rule wp_mono [OF wp_replace [OF assms(1,2) _ _ _ assms(5,6), where U = "bound_units ct pids (f_projects f)" and old = old and new = new]])
          using assms(3,4) apply (auto simp: collected_def looked_def only_units_def)[3]
          subgoal for r3 f'
            using replaced_up [of ct pids f ts home old new _ f']
            by (cases r3) (auto simp: material_kept_def looked_def only_units_def material_outcome_def replaced_def old_back_def)
          done
        done
      done
    done
  done


end
