(* ===== verification/Workers_Sleep.thy ===== *)
theory Workers_Sleep
  imports Workers_Inv Inventory_Inv
begin

text \<open>
  Workers that are put to sleep: what a restart of the node does to the workers of all
  projects, and that a worker that was suspended stays down.
\<close>

section \<open>What a restart may touch\<close>

definition row_still :: "ProjectRow \<Rightarrow> ProjectRow" where
  "row_still r = r\<lparr>p_profile_state := [], p_profile_failure := None\<rparr>"

definition slept :: "string set \<Rightarrow> Fleet \<Rightarrow> Fleet \<Rightarrow> bool" where
  "slept S f f' \<longleftrightarrow>
     (\<forall>u. u \<notin> S \<longrightarrow> f_units f' u = f_units f u) \<and> map row_still (f_projects f') = map row_still (f_projects f)"

interpretation sleep: fleet_order "slept S" for S
  by unfold_locales (simp_all add: slept_def)

lemma sleep_units: "units.keeps S m \<Longrightarrow> sleep.keeps S m"
  by (auto simp: units.keeps_def sleep.keeps_def only_units_def slept_def)

lemma sleep_disk: "sleep.keeps S (on_disk ct m)"
  by (rule sleep.kept_allI) (auto simp: on_disk_is slept_def Let_def)

lemma sleep_state: "sleep.keeps S (on_projects (set_profile_state pid st e))"
proof (rule sleep.kept_allI)
  fix f f' :: Fleet and r
  assume run: "on_projects (set_profile_state pid st e) f = (r, f')"
  show "slept S f f'"
  proof (cases "set_profile_state pid st e (f_projects f)")
    case (Inr t)
    have "map row_still t = map row_still (f_projects f)"
      unfolding set_profile_state_is [OF Inr] by (rule update_where_map) (simp add: row_still_def)
    then show ?thesis using run Inr by (auto simp: on_projects_def slept_def)
  qed (use run in \<open>auto simp: on_projects_def slept_def\<close>)
qed

lemmas sleep_rules =
  sleep.keeps_bind sleep.keeps_try sleep.keeps_map_err sleep.keeps_if sleep.keeps_option sleep.keeps_ok sleep.keeps_err
  sleep.keeps_get sleep_disk sleep_state sleep_units units_primitive

lemma wp_ensure_running:
  assumes "\<And>b. binding (ct_codec ct) pid (f_projects f) = Inr b \<Longrightarrow> wb_unit b \<in> S" and "\<And>r f'. slept S f f' \<Longrightarrow> Q r f'"
  shows "wp (ensure_running ct pid) f Q"
  unfolding ensure_running_def reconcile_worker_credentials_def
  apply (rule wp_bind_errI)
  apply (cases "binding (ct_codec ct) pid (f_projects f)")
  subgoal for e using assms(2) by (simp add: sleep.order_refl)
  subgoal for b
    apply (simp only: wp_basic sum.case)
    apply (rule sleep.keeps_wp [OF _ assms(2)])
    using assms(1) by (intro sleep_rules; simp)
  done

text \<open>The units of the projects a restarted node starts.\<close>

definition supervised_units :: "codec \<Rightarrow> projects \<Rightarrow> string set" where
  "supervised_units cdc t =
     {u. \<exists>r \<in> set t. \<exists>p profile. map_project cdc r = Inr p \<and> to_supervise p \<and>
        p_hermes_profile r = Some profile \<and> unit_name profile = Inr u}"

lemma row_still_row: "map row_still t' = map row_still t \<Longrightarrow> map_option row_still (project_row pid t') = map_option row_still (project_row pid t)"
proof -
  have "map_option row_still (project_row pid s) = project_row pid (map row_still s)" for s
    by (induction s) (auto simp: row_by_def row_still_def)
  then show "map row_still t' = map row_still t \<Longrightarrow> ?thesis" by simp
qed

lemma binding_of_row:
  assumes "distinct (map p_project_id t)" and "r \<in> set t" and "map row_still t' = map row_still t"
    and "binding cdc (p_project_id r) t' = Inr b"
  shows "p_hermes_profile r = Some (wb_profile b)" and "unit_name (wb_profile b) = Inr (wb_unit b)"
proof -
  obtain r' where r': "project_row (p_project_id r) t' = Some r'" "p_hermes_profile r' = Some (wb_profile b)"
    "unit_name (wb_profile b) = Inr (wb_unit b)" using binding_row [OF assms(4)] by metis
  have "project_row (p_project_id r) t = Some r"
    using assms(1,2) by (induction t) (auto simp: row_by_def)
  then have "row_still r' = row_still r" using row_still_row [OF assms(3), of "p_project_id r"] r'(1) by simp
  then have "p_hermes_profile (row_still r') = p_hermes_profile (row_still r)" by simp
  then show "p_hermes_profile r = Some (wb_profile b)" using r'(2) by (simp add: row_still_def)
  show "unit_name (wb_profile b) = Inr (wb_unit b)" by (rule r'(3))
qed

lemma wp_reconcile_each:
  assumes "\<And>p g b. p \<in> set ps \<Longrightarrow> to_supervise p \<Longrightarrow> slept S f g \<Longrightarrow> binding (ct_codec ct) (rp_project_id p) (f_projects g) = Inr b \<Longrightarrow> wb_unit b \<in> S"
    and "slept S f h"
  shows "wp (reconcile_each ct ps :: ('e, (string \<times> worker_error) list) wop) h (\<lambda>r f'. slept S f f')"
  using assms
proof (induction ps arbitrary: h)
  case (Cons p ps)
  have rest: "wp (w_bind (reconcile_each ct ps :: ('e, (string \<times> worker_error) list) wop) (\<lambda>x. w_ok (xs @ x))) g (\<lambda>r f'. slept S f f')"
    if "slept S f g" for g xs
    by (rule wp_bindI, rule wp_mono [OF Cons.IH]) (use Cons.prems(1) that in \<open>auto split: sum.splits\<close>)
  show ?case
  proof (cases "to_supervise p")
    case True
    then have "wb_unit b \<in> S" if "binding (ct_codec ct) (rp_project_id p) (f_projects h) = Inr b" for b
      using Cons.prems(1) [of p h b] Cons.prems(2) that by simp
    then show ?thesis unfolding reconcile_each.simps if_not_P [of "\<not> to_supervise p", unfolded not_not, OF True]
      by (intro wp_bind_tryI wp_ensure_running [of ct "rp_project_id p" h S] rest sleep.order_trans [OF Cons.prems(2)])
  next
    case False
    have "wp (reconcile_each ct ps :: ('e, (string \<times> worker_error) list) wop) h (\<lambda>r f'. slept S f f')"
    proof (rule Cons.IH)
      fix q g b assume "q \<in> set ps" "to_supervise q" "slept S f g" "binding (ct_codec ct) (rp_project_id q) (f_projects g) = Inr b"
      then show "wb_unit b \<in> S" using Cons.prems(1) [of q g b] by simp
    qed (rule Cons.prems(2))
    then show ?thesis using False by simp
  qed
qed simp

lemma list_all2_member: "list_all2 P xs ys \<Longrightarrow> y \<in> set ys \<Longrightarrow> \<exists>x \<in> set xs. P x y"
  by (induction rule: list_all2_induct) auto

lemma reconcile_touches:
  assumes "distinct (map p_project_id (f_projects f))" and "reconcile_workers ct f = (r :: ('e, (string \<times> worker_error) list) result, f')"
  shows "slept (supervised_units (ct_codec ct) (f_projects f)) f f'"
proof -
  let ?S = "supervised_units (ct_codec ct) (f_projects f)"
  have supervised: "wb_unit b \<in> ?S"
    if ps: "list_projects (ct_codec ct) (f_projects f) = Inr ps" "p \<in> set ps" and p: "to_supervise p" and g: "slept ?S f g"
      and b: "binding (ct_codec ct) (rp_project_id p) (f_projects g) = Inr b" for ps p g b
  proof -
    obtain row where row: "row \<in> set (f_projects f)" "map_project (ct_codec ct) row = Inr p"
      using list_all2_member [OF ps(1) [unfolded list_projects_def map_result_Inr] ps(2)] by auto
    then have "rp_project_id p = p_project_id row" by (auto simp: map_project_def split: sum.splits)
    then show ?thesis
      using binding_of_row [OF assms(1) row(1), of "f_projects g" "ct_codec ct" b] b g row p
      unfolding supervised_units_def slept_def by auto
  qed
  have "wp (reconcile_workers ct :: ('e, (string \<times> worker_error) list) wop) f (\<lambda>r f'. slept ?S f f')"
    unfolding reconcile_workers_def
    by (cases "list_projects (ct_codec ct) (f_projects f)")
      (auto simp: wp_bind sleep.order_refl intro!: wp_reconcile_each intro: supervised)
  then show ?thesis using assms(2) by (rule wpD)
qed

section \<open>Suspending\<close>

text \<open>What \<open>suspend_worker\<close> leaves when it answers that the worker is stopped.\<close>

definition asleep :: "string \<Rightarrow> Fleet \<Rightarrow> bool" where
  "asleep pid f \<longleftrightarrow> (\<forall>r \<in> set (f_projects f). p_project_id r = pid \<longrightarrow> p_suspended_at r \<noteq> None)"

definition row_awake :: "string \<Rightarrow> ProjectRow \<Rightarrow> ProjectRow" where
  "row_awake pid r = (if p_project_id r = pid then r\<lparr>p_suspended_at := None\<rparr> else r)"

lemma row_awake_columns [simp]:
  "p_project_id (row_awake pid r) = p_project_id r" "p_hermes_profile (row_awake pid r) = p_hermes_profile r"
  by (simp_all add: row_awake_def)

lemma suspended_rows:
  assumes "set_project_suspended pid at t = Inr t'"
  shows "map (row_awake pid) t' = map (row_awake pid) t" and "\<forall>r \<in> set t'. p_project_id r = pid \<longrightarrow> p_suspended_at r = at"
proof -
  have t: "t' = update_where (\<lambda>r. p_project_id r = pid) (\<lambda>r. r\<lparr>p_suspended_at := at\<rparr>) t"
    using assms unfolding set_project_suspended_def update_project_def by (metis sum.inject(2) sum.simps(4))
  show "map (row_awake pid) t' = map (row_awake pid) t"
    unfolding t by (rule update_where_map) (simp add: row_awake_def)
  show "\<forall>r \<in> set t'. p_project_id r = pid \<longrightarrow> p_suspended_at r = at"
    unfolding t by (rule update_where_all) simp_all
qed

lemma known_project_row:
  assumes "project cdc pid t = Inr (Some p)"
  obtains r where "project_row pid t = Some r" and "map_project cdc r = Inr p" and "rp_suspended_at p = p_suspended_at r"
    and "rp_hermes_profile p = p_hermes_profile r" and "profile_parse (p_profile_state r) = Inr (rp_profile_state p)"
  using assms by (auto simp: project_def map_project_def split: option.splits sum.splits)

definition unit_down :: "RegisteredProject \<Rightarrow> Fleet \<Rightarrow> bool" where
  "unit_down p f \<longleftrightarrow>
     rp_profile_state p = Ready \<longrightarrow> (\<forall>profile u. rp_hermes_profile p = Some profile \<longrightarrow> unit_name profile = Inr u \<longrightarrow> f_units f u = None)"

definition suspended_ok :: "string \<Rightarrow> RegisteredProject \<Rightarrow> Fleet \<Rightarrow> (ReassignFailure, WorkerLifecycle) result \<Rightarrow> Fleet \<Rightarrow> bool" where
  "suspended_ok pid p f r f' \<longleftrightarrow>
     (r = Inr WorkerStopped \<longrightarrow> map (row_awake pid) (f_projects f') = map (row_awake pid) (f_projects f) \<and> asleep pid f' \<and> unit_down p f')"

lemma suspended_err [simp]: "suspended_ok pid p f (Inl e) f'"
  by (simp add: suspended_ok_def)

lemma suspended_stopped:
  assumes "map (row_awake pid) (f_projects g) = map (row_awake pid) (f_projects f)" and "asleep pid g"
    and "f_projects h = f_projects g" and "unit_down p h"
  shows "suspended_ok pid p f (Inr WorkerStopped) h"
  using assms by (simp add: suspended_ok_def asleep_def)

lemma wp_stop_and_look:
  assumes "\<And>e f'. Q (Inl e) f'" and "\<And>h. f_projects h = f_projects g \<Longrightarrow> f_units h u = None \<Longrightarrow> Q (Inr WorkerStopped) h"
  shows "wp (w_bind (or_untouched c2 (unit_active ct u)) (\<lambda>active.
         w_bind (if active then w_map_err (\<lambda>_. unrestored c3) (stop_unit ct u) else w_ok ()) (\<lambda>_.
         w_bind (w_try (unit_active ct u)) (\<lambda>still.
         if still = Inr False then w_ok WorkerStopped else w_err (unrestored c4))))) g Q"
proof -
  have look: "wp (w_bind (w_try (unit_active ct u)) (\<lambda>still. if still = Inr False then w_ok WorkerStopped else w_err (unrestored c4))) h Q"
    if "f_projects h = f_projects g" for h
  proof (rule wp_bind_tryI, rule wp_active)
    fix r and f' :: Fleet
    assume f': "f_projects f' = f_projects h" "f_units f' = f_units h" and seen: "\<And>x. r = Inr x \<Longrightarrow> x = (f_units h u \<noteq> None)"
    show "wp (if r = Inr False then w_ok WorkerStopped else w_err (unrestored c4)) f' Q"
      using assms f' that seen [of False] by simp
  qed
  have stop: "wp (w_bind (if active then w_map_err (\<lambda>_. unrestored c3) (stop_unit ct u) else w_ok ()) (\<lambda>_.
         w_bind (w_try (unit_active ct u)) (\<lambda>still. if still = Inr False then w_ok WorkerStopped else w_err (unrestored c4)))) h Q"
    if h: "f_projects h = f_projects g" for active h
  proof (cases active)
    case True
    show ?thesis unfolding if_P [OF True]
      apply (rule wp_bind_errI, rule units.keeps_wp [OF units_primitive(2) [of u "{u}"]])
       apply simp
      subgoal for r f'
        by (cases r, simp add: assms(1), simp only: sum.case, rule look) (simp add: only_units_def h)
      done
  next
    case False
    show ?thesis unfolding if_not_P [OF False] by (rule wp_bindI, simp only: wp_basic sum.case, rule look, rule h)
  qed
  show ?thesis
    apply (rule wp_bind_errI, rule wp_active)
    subgoal for r h
      by (cases r, simp add: assms(1), simp only: sum.case, rule stop)
    done
qed

lemma wp_put_down:
  assumes "map (row_awake pid) (f_projects g) = map (row_awake pid) (f_projects f)" and "asleep pid g"
  shows "wp (if rp_profile_state p \<noteq> Ready \<or> rp_hermes_profile p = None then w_ok WorkerStopped
       else
         w_bind (or_untouched c1 (w_get (\<lambda>_. unit_name (the (rp_hermes_profile p))))) (\<lambda>u.
         w_bind (or_untouched c2 (unit_active ct u)) (\<lambda>active.
         w_bind (if active then w_map_err (\<lambda>_. unrestored c3) (stop_unit ct u) else w_ok ()) (\<lambda>_.
         w_bind (w_try (unit_active ct u)) (\<lambda>still.
         if still = Inr False then w_ok WorkerStopped else w_err (unrestored c4)))))) g (suspended_ok pid p f)"
proof (cases "rp_profile_state p \<noteq> Ready \<or> rp_hermes_profile p = None")
  case True
  then have "unit_down p g" by (auto simp: unit_down_def)
  then show ?thesis using True suspended_stopped [OF assms refl] by simp
next
  case False
  then obtain profile where p: "rp_profile_state p = Ready" "rp_hermes_profile p = Some profile" by auto
  show ?thesis
  proof (cases "unit_name profile")
    case (Inl e)
    then show ?thesis using p by (simp add: wp_bind wp_map_err)
  next
    case (Inr u)
    then have "wp (w_bind (or_untouched c1 (w_get (\<lambda>_. unit_name (the (rp_hermes_profile p))))) (\<lambda>u.
         w_bind (or_untouched c2 (unit_active ct u)) (\<lambda>active.
         w_bind (if active then w_map_err (\<lambda>_. unrestored c3) (stop_unit ct u) else w_ok ()) (\<lambda>_.
         w_bind (w_try (unit_active ct u)) (\<lambda>still.
         if still = Inr False then w_ok WorkerStopped else w_err (unrestored c4)))))) g (suspended_ok pid p f)"
      by (intro wp_bind_errI) (auto simp: p intro!: wp_stop_and_look suspended_stopped [OF assms] simp: unit_down_def)
    then show ?thesis unfolding if_not_P [OF False] .
  qed
qed

lemma map_columns:
  assumes "map h t' = map h t" and "\<And>r. g (h r) = g r"
  shows "map g t' = map g t"
proof -
  have "map g x = map g (map h x)" for x by (simp add: assms(2))
  then show ?thesis using assms(1) by metis
qed

lemma map_all:
  assumes "map h t' = map h t" and "\<And>r. Q (h r) = Q r"
  shows "(\<forall>r \<in> set t'. Q r) = (\<forall>r \<in> set t. Q r)"
proof -
  have "(\<forall>r \<in> set x. Q r) = (\<forall>r \<in> set (map h x). Q r)" for x by (simp add: assms(2))
  then show ?thesis unfolding assms(1) [symmetric] using assms(1) by metis
qed

lemma wp_suspend:
  assumes "project (ct_codec ct) pid (f_projects f) = Inr (Some p)" and "distinct (map p_project_id (f_projects f))"
  shows "wp (suspend_worker ct pid) f (suspended_ok pid p f)"
proof -
  obtain r where r: "project_row pid (f_projects f) = Some r" "rp_suspended_at p = p_suspended_at r"
    using known_project_row [OF assms(1)] by metis
  have only: "x = r" if "x \<in> set (f_projects f)" "p_project_id x = pid" for x
    using assms(2) r(1) that by (auto simp: row_by_def find_Some_iff distinct_map inj_on_def)
  define rest where "rest = (if rp_profile_state p \<noteq> Ready \<or> rp_hermes_profile p = None then w_ok WorkerStopped
       else
         w_bind (or_untouched ''project_not_ready'' (w_get (\<lambda>_. unit_name (the (rp_hermes_profile p))))) (\<lambda>u.
         w_bind (or_untouched ''worker_stop_failed'' (unit_active ct u)) (\<lambda>active.
         w_bind (if active then w_map_err (\<lambda>_. unrestored ''worker_stop_failed'') (stop_unit ct u) else w_ok ()) (\<lambda>_.
         w_bind (w_try (unit_active ct u)) (\<lambda>still.
         if still = Inr False then w_ok WorkerStopped else w_err (unrestored ''worker_stop_failed''))))))"
  have down: "wp rest g (suspended_ok pid p f)"
    if "map (row_awake pid) (f_projects g) = map (row_awake pid) (f_projects f)" "asleep pid g" for g
    unfolding rest_def by (rule wp_put_down [OF that])
  have mark: "wp (mark_suspended pid (Some now)) f (\<lambda>r f'. is_ok r \<longrightarrow>
      map (row_awake pid) (f_projects f') = map (row_awake pid) (f_projects f) \<and> asleep pid f')" for now
    unfolding mark_suspended_def wp_map_err by (rule wp_projects) (auto simp: asleep_def dest: suspended_rows)
  have "wp (w_bind (if rp_suspended_at p = None then w_bind (now_at ct) (\<lambda>now. mark_suspended pid (Some now)) else w_ok ())
      (\<lambda>_. rest)) f (suspended_ok pid p f)"
  proof (cases "rp_suspended_at p = None")
    case True
    show ?thesis unfolding if_P [OF True]
      by (rule wp_bindI, simp only: wp_bind now_at_def wp_basic sum.case, rule wp_mono [OF mark]) (auto intro: down split: sum.splits)
  next
    case False
    then have "asleep pid f" using only r(2) by (auto simp: asleep_def)
    then show ?thesis unfolding if_not_P [OF False] by (intro wp_bindI) (simp add: down)
  qed
  then have "wp (if rp_runtime_ownership p = External then w_ok WorkerNotManaged else
      w_bind (if rp_suspended_at p = None then w_bind (now_at ct) (\<lambda>now. mark_suspended pid (Some now)) else w_ok ())
      (\<lambda>_. rest)) f (suspended_ok pid p f)" by (simp add: suspended_ok_def)
  then show ?thesis unfolding suspend_worker_def known_project_def rest_def
    by (simp add: wp_bind [of "w_bind _ _"] wp_bind [of "w_map_err _ _"] wp_map_err assms(1))
qed

section \<open>Asleep through restarts\<close>

text \<open>The node is started again and again; each time systemd, the disk and the workers may answer differently.\<close>

fun restarts :: "Control list \<Rightarrow> Fleet \<Rightarrow> Fleet" where
  "restarts [] f = f"
| "restarts (ct # cts) f = restarts cts (snd ((reconcile_workers ct :: (unit, (string \<times> worker_error) list) wop) f))"

definition bedded :: "string \<Rightarrow> string \<Rightarrow> string \<Rightarrow> Fleet \<Rightarrow> bool" where
  "bedded pid profile u f \<longleftrightarrow>
     distinct (map p_project_id (f_projects f)) \<and> asleep pid f \<and> f_units f u = None \<and>
     (\<forall>r \<in> set (f_projects f). p_hermes_profile r = Some profile \<longrightarrow> p_project_id r = pid)"

lemma unit_name_inj: "unit_name a = Inr u \<Longrightarrow> unit_name b = Inr u \<Longrightarrow> a = b"
  by (auto simp: unit_name_def rbind_eq_Inr)

lemma bedded_not_supervised:
  assumes "bedded pid profile u f" and "unit_name profile = Inr u"
  shows "u \<notin> supervised_units cdc (f_projects f)"
proof
  assume "u \<in> supervised_units cdc (f_projects f)"
  then obtain r p profile' where r: "r \<in> set (f_projects f)" "map_project cdc r = Inr p" "to_supervise p"
    "p_hermes_profile r = Some profile'" "unit_name profile' = Inr u" by (auto simp: supervised_units_def)
  have "profile' = profile" using unit_name_inj r(5) assms(2) by blast
  then have "p_suspended_at r \<noteq> None" using assms(1) r(1,4) by (auto simp: bedded_def asleep_def)
  moreover have "p_suspended_at r = None" using r(2,3) by (auto simp: map_project_def to_supervise_def split: sum.splits)
  ultimately show False by simp
qed

lemma bedded_restart:
  assumes "bedded pid profile u f" and "unit_name profile = Inr u"
  shows "bedded pid profile u (snd ((reconcile_workers ct :: (unit, (string \<times> worker_error) list) wop) f))"
proof -
  obtain r f' where run: "(reconcile_workers ct :: (unit, (string \<times> worker_error) list) wop) f = (r, f')" by fastforce
  have s: "slept (supervised_units (ct_codec ct) (f_projects f)) f f'"
    using assms(1) by (intro reconcile_touches [OF _ run]) (simp add: bedded_def)
  then have rows: "map row_still (f_projects f') = map row_still (f_projects f)" by (simp add: slept_def)
  have "map p_project_id (f_projects f') = map p_project_id (f_projects f)"
    by (rule map_columns [OF rows]) (simp add: row_still_def)
  moreover have "asleep pid f'" using assms(1) map_all [OF rows, of "\<lambda>r. p_project_id r = pid \<longrightarrow> p_suspended_at r \<noteq> None"]
    by (simp add: bedded_def asleep_def row_still_def)
  moreover have "f_units f' u = None" using s bedded_not_supervised [OF assms] assms(1) by (simp add: slept_def bedded_def)
  moreover have "\<forall>r \<in> set (f_projects f'). p_hermes_profile r = Some profile \<longrightarrow> p_project_id r = pid"
    using assms(1) map_all [OF rows, of "\<lambda>r. p_hermes_profile r = Some profile \<longrightarrow> p_project_id r = pid"]
    by (simp add: bedded_def row_still_def)
  ultimately show ?thesis using assms(1) by (simp add: run bedded_def)
qed

lemma bedded_restarts: "bedded pid profile u f \<Longrightarrow> unit_name profile = Inr u \<Longrightarrow> bedded pid profile u (restarts cts f)"
  by (induction cts arbitrary: f) (auto intro: bedded_restart)

lemma suspended_bedded:
  assumes "inv_ok (f_projects f)" and "project (ct_codec ct) pid (f_projects f) = Inr (Some p)"
    and "rp_profile_state p = Ready" and "rp_hermes_profile p = Some profile" and "unit_name profile = Inr u"
    and "suspend_worker ct pid f = (Inr WorkerStopped, f')"
  shows "bedded pid profile u f'"
proof -
  have d: "distinct (map p_project_id (f_projects f))" and un: "unique_col p_hermes_profile (f_projects f)"
    using assms(1) by (simp_all add: inv_ok_def)
  have ok: "map (row_awake pid) (f_projects f') = map (row_awake pid) (f_projects f)" "asleep pid f'" "unit_down p f'"
    using wpD [OF wp_suspend [OF assms(2) d] assms(6)] by (simp_all add: suspended_ok_def)
  obtain r where r: "project_row pid (f_projects f) = Some r" "p_hermes_profile r = Some profile"
    using known_project_row [OF assms(2)] assms(4) by metis
  then have here: "r \<in> set (f_projects f)" "p_project_id r = pid" by (auto simp: row_by_def find_Some_iff)
  have "\<forall>x \<in> set (f_projects f). p_hermes_profile x = Some profile \<longrightarrow> p_project_id x = pid"
  proof (intro ballI impI)
    fix x assume "x \<in> set (f_projects f)" "p_hermes_profile x = Some profile"
    then have "p_project_id r = p_project_id x" by (rule unique_colD [OF un here(1) _ r(2)])
    then show "p_project_id x = pid" using here(2) by simp
  qed
  then have "\<forall>x \<in> set (f_projects f'). p_hermes_profile x = Some profile \<longrightarrow> p_project_id x = pid"
    by (subst map_all [OF ok(1)]) simp_all
  moreover have "map p_project_id (f_projects f') = map p_project_id (f_projects f)"
    by (rule map_columns [OF ok(1)]) simp
  ultimately show ?thesis using d ok(2,3) assms(3-5) by (simp add: bedded_def unit_down_def)
qed


end
