(* ===== verification/Workers_Demo.thy ===== *)
theory Workers_Demo
  imports Workers_Inv Workers_Material Workers_Sleep
begin

text \<open>A node with one project, \<open>alpha\<close>, whose worker runs on the shared pool.\<close>

definition wk_paths :: CredentialPaths where
  "wk_paths = \<lparr>cp_home_root = ''/w'', cp_shared_auth = ''/s/auth.json'', cp_codex_auth = ''/s/codex.json'', cp_credential_root = ''/c''\<rparr>"

definition wk_row :: ProjectRow where
  "wk_row = \<lparr>p_project_id = ''alpha'', p_workspace_path = ''/p'', p_display_name = ''alpha'', p_enabled = True, p_created_at = 0,
     p_metadata = None, p_runtime_endpoint = Some ''http://h'', p_runtime_ownership = ''managed_container'',
     p_hermes_home = Some ''/w/a'', p_hermes_profile = Some ''a'', p_hermes_api_key_ref = Some ''/w/a/runtime.env'',
     p_profile_state = ''ready'', p_profile_failure = None, p_credential_id = None, p_model = None, p_suspended_at = None\<rparr>"

definition wk_disk :: disk where
  "wk_disk = [''/w/a/runtime.env'' \<mapsto> \<lparr>i_node = File ''API_SERVER_KEY=k'', i_uid = 7, i_mode = 384\<rparr>,
     ''/w/a/auth.json'' \<mapsto> \<lparr>i_node = Link ''/s/auth.json'', i_uid = 7, i_mode = 511\<rparr>,
     ''/c/c1'' \<mapsto> \<lparr>i_node = Dir, i_uid = 7, i_mode = 448\<rparr>,
     ''/c/c1/auth.json'' \<mapsto> \<lparr>i_node = File ''old'', i_uid = 7, i_mode = 384\<rparr>,
     ''/r'' \<mapsto> \<lparr>i_node = Dir, i_uid = 7, i_mode = 448\<rparr>,
     ''/r/auth.json'' \<mapsto> \<lparr>i_node = File ''new'', i_uid = 7, i_mode = 384\<rparr>]"

definition wk_unit :: string where "wk_unit = ''asterism-hermes@a.service''"

definition wk_fleet :: Fleet where
  "wk_fleet = \<lparr>f_disk = wk_disk, f_projects = [wk_row], f_units = [wk_unit \<mapsto> 10], f_calls = [], f_tick = 0\<rparr>"

text \<open>A new process is numbered after the moment it is started at.\<close>

definition wk_systemctl :: "nat \<Rightarrow> string \<Rightarrow> string \<Rightarrow> nat option \<Rightarrow> bool \<times> nat option" where
  "wk_systemctl t verb u p =
     (if verb = ''stop'' then (True, None)
      else if verb = ''start'' then (True, Some (case p of Some q \<Rightarrow> q | None \<Rightarrow> 100 + t))
      else (True, Some (100 + t)))"

definition wk_control :: Control where
  "wk_control = \<lparr>ct_codec = \<lparr>to_string = \<lambda>_. [], from_str = \<lambda>_. None\<rparr>, ct_kernel = (\<lambda>_ _ _. False), ct_systemctl = wk_systemctl,
     ct_mute = (\<lambda>_ _ _. False), ct_probes = (\<lambda>_ _ _. [False, True]), ct_nonce = (\<lambda>_. ''n''), ct_torn = (\<lambda>_ _ s. s), ct_now = int,
     ct_me = 7, ct_umask = 493, ct_runtime_uid = 7, ct_paths = Some wk_paths\<rparr>"

definition wk_binding :: WorkerBinding where
  "wk_binding = \<lparr>wb_project_id = ''alpha'', wb_profile = ''a'', wb_unit = wk_unit, wb_endpoint = ''http://h'',
     wb_api_key_ref = ''/w/a/runtime.env'', wb_credential_id = None\<rparr>"

lemma wk_systemd: "systemd_ok wk_control" "lstat_works wk_control" "stat_works (ct_kernel wk_control t)"
  by (simp_all add: systemd_ok_def lstat_works_def stat_works_def wk_control_def wk_systemctl_def)

lemma wk_bound: "binding (ct_codec wk_control) ''alpha'' (f_projects wk_fleet) = Inr wk_binding"
  by code_simp

theorem reassignment_is_whole_or_undone_witness:
  "\<exists>f'. reassign_credential wk_control ''alpha'' (Some ''c1'') wk_fleet = (Inr ReassignApplied, f') \<and>
     link_of (f_disk f') ''/w/a/auth.json'' = Some ''/c/c1/auth.json'' \<and> f_units f' wk_unit \<noteq> Some 10"
proof -
  have applied: "fst (reassign_credential wk_control ''alpha'' (Some ''c1'') wk_fleet) = Inr ReassignApplied" by code_simp
  obtain f' where run: "reassign_credential wk_control ''alpha'' (Some ''c1'') wk_fleet = (Inr ReassignApplied, f')"
    using applied by (metis prod.collapse)
  have "distinct (map p_project_id (f_projects wk_fleet))" "ct_paths wk_control = Some wk_paths"
    by (simp_all add: wk_fleet_def wk_control_def)
  from reassignment_is_whole_or_undone [OF wk_systemd(1,2) this wk_bound run refl refl]
  obtain desired where d: "store_for wk_paths (Some ''c1'') = Inr desired"
    "link_of (f_disk f') (layout_auth (layout_of wk_paths ''a'')) = Some desired"
    and pid: "pids_seen wk_control wk_unit \<longrightarrow> f_units f' wk_unit \<noteq> f_units wk_fleet wk_unit"
    by (auto simp: in_place_def wk_binding_def)
  have "store_for wk_paths (Some ''c1'') = Inr ''/c/c1/auth.json''" "layout_auth (layout_of wk_paths ''a'') = ''/w/a/auth.json''" by code_simp+
  moreover have "pids_seen wk_control wk_unit" "f_units wk_fleet wk_unit = Some 10" by (simp_all add: pids_seen_def wk_control_def wk_fleet_def)
  ultimately show ?thesis using run d pid by simp
qed



section \<open>Restored, but not restored\<close>

text \<open>
  The same node, with systemd refusing every stop from some moment on, or the kernel
  refusing to rename one file, and a worker that answers from some moment on.
\<close>

definition wk_refusing :: "nat \<Rightarrow> nat \<Rightarrow> string \<Rightarrow> Control" where
  "wk_refusing stop_from up_from stuck = wk_control\<lparr>
     ct_systemctl := (\<lambda>t verb u p. if verb = ''stop'' \<and> stop_from \<le> t then (False, p) else wk_systemctl t verb u p),
     ct_probes := (\<lambda>t _ _. [up_from \<le> t]),
     ct_kernel := (\<lambda>_ c p. c = ''rename'' \<and> p = stuck)\<rparr>"


end
