(* ===== verification/Credentials.thy ===== *)
theory Credentials
  imports Credential_Runtime Credential_Homes "HOL-Library.Word"
begin

text \<open>
  \<open>src/src/credentials.rs\<close>: the metadata a node keeps about its provider credentials, the
  listing of the shared pool it is reconciled with, and the file it is stored in.  The
  digest behind an adopted id and the encoding of the file are arguments.
\<close>

definition MAX_CREDENTIALS :: nat where "MAX_CREDENTIALS = 16"
definition MAX_LABEL_LENGTH :: nat where "MAX_LABEL_LENGTH = 64"
definition ADOPTED_LABEL :: string where "ADOPTED_LABEL = ''Existing credential''"

section \<open>States and storage\<close>

datatype CredentialState =
    CredRequired
  | CredAuthorizing
  | CredAuthorized
  | CredFailed
  | CredRevoked
  | CredReauthorizing
  | CredReauthorizationRequired
  | CredRuntimeMissing

fun cred_wire :: "CredentialState \<Rightarrow> string" where
  "cred_wire CredRequired = ''required''"
| "cred_wire CredAuthorizing = ''authorizing''"
| "cred_wire CredAuthorized = ''authorized''"
| "cred_wire CredFailed = ''failed''"
| "cred_wire CredRevoked = ''revoked''"
| "cred_wire CredReauthorizing = ''reauthorizing''"
| "cred_wire CredReauthorizationRequired = ''reauthorization_required''"
| "cred_wire CredRuntimeMissing = ''runtime_missing''"

definition reauthorizable :: "CredentialState \<Rightarrow> bool" where
  "reauthorizable s \<longleftrightarrow>
     s \<in> {CredAuthorized, CredReauthorizationRequired, CredRuntimeMissing, CredRequired, CredFailed}"

definition cred_runnable :: "CredentialState \<Rightarrow> bool" where
  "cred_runnable s \<longleftrightarrow> s = CredAuthorized"

datatype CredentialStorage = StoreIsolated | StoreLegacySharedPool

fun storage_wire :: "CredentialStorage \<Rightarrow> string" where
  "storage_wire StoreIsolated = ''isolated''"
| "storage_wire StoreLegacySharedPool = ''legacy_shared_pool''"

record Credential =
  cr_id :: string
  cr_provider_id :: string
  cr_auth_method :: string
  cr_label :: string
  cr_state :: CredentialState
  cr_storage :: CredentialStorage
  cr_pool_entry :: "string option"
  cr_generation :: "64 word"
  cr_created_at :: nat
  cr_updated_at :: nat

record CredentialSummary =
  cs_id :: string
  cs_provider_id :: string
  cs_auth_method :: string
  cs_label :: string
  cs_state :: string
  cs_storage :: string
  cs_created_at :: nat
  cs_updated_at :: nat

definition summary :: "Credential \<Rightarrow> CredentialSummary" where
  "summary c =
     \<lparr>cs_id = cr_id c, cs_provider_id = cr_provider_id c, cs_auth_method = cr_auth_method c, cs_label = cr_label c,
      cs_state = cred_wire (cr_state c), cs_storage = storage_wire (cr_storage c),
      cs_created_at = cr_created_at c, cs_updated_at = cr_updated_at c\<rparr>"

section \<open>The listing of the pool\<close>

record PoolEntry =
  pe_id :: string
  pe_kind :: string

definition POOL_KINDS :: "string list" where
  "POOL_KINDS = [''oauth'', ''api-key'', ''api_key'']"

text \<open>\<open>char::is_control\<close> on UTF-8: the ASCII controls, and U+0080 to U+009F after a byte C2.\<close>

fun has_control :: "string \<Rightarrow> bool" where
  "has_control [] = False"
| "has_control (c # s) =
     (of_char c < (32 :: nat) \<or> of_char c = (127 :: nat) \<or>
      (c = CHR 0xC2 \<and> (case s of [] \<Rightarrow> False | b # _ \<Rightarrow> 128 \<le> (of_char b :: nat) \<and> of_char b < (160 :: nat))) \<or>
      has_control s)"

text \<open>\<open>str::split_whitespace\<close>: one word, and what follows it.\<close>

fun next_word :: "string \<Rightarrow> string \<times> string" where
  "next_word [] = ([], [])"
| "next_word (c # s) =
     (if starts_ws (c # s) then ([], c # s) else let (w, r) = next_word s in (c # w, r))"

lemma next_word_append: "next_word s = (w, r) \<Longrightarrow> s = w @ r"
  by (induction s arbitrary: w r rule: next_word.induct) (auto split: if_splits prod.splits)

lemma next_word_progress: "s \<noteq> [] \<Longrightarrow> \<not> starts_ws s \<Longrightarrow> length (snd (next_word s)) < length s"
  by (cases s) (auto split: prod.splits dest: next_word_append)

lemma length_trim_start: "length (trim_start s) \<le> length s"
  using trim_start_suffix [of s] by (metis le_add2 length_append)

function split_whitespace :: "string \<Rightarrow> string list" where
  "split_whitespace s =
     (let t = trim_start s in
      if t = [] then [] else fst (next_word t) # split_whitespace (snd (next_word t)))"
  by pat_completeness auto
termination
  by (relation "measure length")
    (simp_all add: order.strict_trans2 [OF next_word_progress length_trim_start] trim_start_clean)

declare split_whitespace.simps [simp del]

definition is_usable_pool_id :: "string \<Rightarrow> bool" where
  "is_usable_pool_id i \<longleftrightarrow> i \<noteq> [] \<and> length i \<le> MAX_LABEL_LENGTH \<and> \<not> has_control i"

text \<open>The last word from the third on that names a kind.\<close>

definition kind_at :: "string list \<Rightarrow> nat option" where
  "kind_at ws = find (\<lambda>p. ws ! p \<in> set POOL_KINDS) (rev [2..<length ws])"

definition pool_entry_of_line :: "string \<Rightarrow> PoolEntry option" where
  "pool_entry_of_line raw =
     (case strip_prefix ''#'' (trim raw) of
        None \<Rightarrow> None
      | Some rest \<Rightarrow>
          let ws = split_whitespace rest in
          if ws = [] \<or> \<not> list_all is_ascii_digit (hd ws) then None
          else (case kind_at ws of
              None \<Rightarrow> None
            | Some p \<Rightarrow>
                let i = join_with '' '' (take (p - 1) (drop 1 ws)) in
                if is_usable_pool_id i then Some \<lparr>pe_id = i, pe_kind = ws ! p\<rparr> else None))"

definition parse_pool_listing :: "string \<Rightarrow> PoolEntry list" where
  "parse_pool_listing body = List.map_filter pool_entry_of_line (str_lines body)"

section \<open>Ids and labels\<close>

datatype label_error = LabelLength | LabelControl

definition validate_label :: "string \<Rightarrow> (label_error, unit) result" where
  "validate_label label =
     (let trimmed = trim label in
      if trimmed = [] \<or> length trimmed > MAX_LABEL_LENGTH then Inl LabelLength
      else if has_control trimmed then Inl LabelControl
      else Inr ())"

text \<open>\<open>digest\<close> is SHA-256 on bytes.\<close>

definition adopted_id :: "(string \<Rightarrow> string) \<Rightarrow> string \<Rightarrow> string \<Rightarrow> string" where
  "adopted_id digest provider_id pool_entry =
     ''cred-'' @ concat (map (\<lambda>b. show_hex 2 (of_char b)) (take 8 (digest (provider_id @ ''/'' @ pool_entry))))"

section \<open>The registry\<close>

fun update_first :: "('a \<Rightarrow> bool) \<Rightarrow> ('a \<Rightarrow> 'a) \<Rightarrow> 'a list \<Rightarrow> 'a list" where
  "update_first p f [] = []"
| "update_first p f (x # xs) = (if p x then f x # xs else x # update_first p f xs)"

definition get_credential :: "string \<Rightarrow> Credential list \<Rightarrow> Credential option" where
  "get_credential i cs = find (\<lambda>c. cr_id c = i) cs"

text \<open>A change through \<open>get_mut\<close>.\<close>

definition put_credential :: "string \<Rightarrow> (Credential \<Rightarrow> Credential) \<Rightarrow> Credential list \<Rightarrow> Credential list" where
  "put_credential i f cs = update_first (\<lambda>c. cr_id c = i) f cs"

definition bound_to :: "string \<Rightarrow> PoolEntry \<Rightarrow> Credential \<Rightarrow> bool" where
  "bound_to provider_id e c \<longleftrightarrow>
     cr_storage c = StoreLegacySharedPool \<and> cr_pool_entry c = Some (pe_id e) \<and> cr_provider_id c = provider_id"

definition awaits :: "string \<Rightarrow> PoolEntry \<Rightarrow> Credential \<Rightarrow> bool" where
  "awaits provider_id e c \<longleftrightarrow>
     cr_provider_id c = provider_id \<and> cr_storage c = StoreLegacySharedPool \<and> cr_pool_entry c = None \<and>
     cr_label c = pe_id e \<and> cr_state c \<in> {CredAuthorizing, CredFailed}"

definition adopted :: "(string \<Rightarrow> string) \<Rightarrow> string \<Rightarrow> nat \<Rightarrow> PoolEntry \<Rightarrow> Credential" where
  "adopted digest provider_id now e =
     \<lparr>cr_id = adopted_id digest provider_id (pe_id e), cr_provider_id = provider_id,
      cr_auth_method = ''device_authorization'', cr_label = ADOPTED_LABEL, cr_state = CredAuthorized,
      cr_storage = StoreLegacySharedPool, cr_pool_entry = Some (pe_id e), cr_generation = 0,
      cr_created_at = now, cr_updated_at = now\<rparr>"

text \<open>The first loop of \<open>reconcile\<close>, with its \<open>break\<close> at the limit.\<close>

fun adopt_pool :: "(string \<Rightarrow> string) \<Rightarrow> string \<Rightarrow> nat \<Rightarrow> PoolEntry list \<Rightarrow> bool \<times> Credential list \<Rightarrow> bool \<times> Credential list" where
  "adopt_pool digest provider_id now [] st = st"
| "adopt_pool digest provider_id now (e # es) (changed, cs) =
     (if (\<exists>c \<in> set cs. bound_to provider_id e c) then adopt_pool digest provider_id now es (changed, cs)
      else if (\<exists>c \<in> set cs. awaits provider_id e c) then
        adopt_pool digest provider_id now es (True, update_first (awaits provider_id e)
          (\<lambda>c. c\<lparr>cr_pool_entry := Some (pe_id e), cr_state := CredAuthorized, cr_updated_at := now\<rparr>) cs)
      else if length cs \<ge> MAX_CREDENTIALS then (changed, cs)
      else adopt_pool digest provider_id now es (True, cs @ [adopted digest provider_id now e]))"

text \<open>The second loop: the state a row of the pool moves to, if it moves.\<close>

fun wanted :: "bool \<Rightarrow> CredentialState \<Rightarrow> CredentialState option" where
  "wanted True CredAuthorized = None"
| "wanted True _ = Some CredAuthorized"
| "wanted False CredAuthorized = Some CredRequired"
| "wanted False _ = None"

definition pool_verdict :: "string \<Rightarrow> PoolEntry list \<Rightarrow> Credential \<Rightarrow> CredentialState option" where
  "pool_verdict provider_id pool c =
     (if cr_provider_id c \<noteq> provider_id \<or> cr_storage c \<noteq> StoreLegacySharedPool then None
      else wanted (case cr_pool_entry c of Some i \<Rightarrow> i \<in> pe_id ` set pool | None \<Rightarrow> False) (cr_state c))"

definition settle_row :: "string \<Rightarrow> PoolEntry list \<Rightarrow> nat \<Rightarrow> Credential \<Rightarrow> Credential" where
  "settle_row provider_id pool now c =
     (case pool_verdict provider_id pool c of None \<Rightarrow> c | Some s \<Rightarrow> c\<lparr>cr_state := s, cr_updated_at := now\<rparr>)"

definition reconcile :: "(string \<Rightarrow> string) \<Rightarrow> string \<Rightarrow> PoolEntry list \<Rightarrow> nat \<Rightarrow> Credential list \<Rightarrow> bool \<times> Credential list" where
  "reconcile digest provider_id pool now cs =
     (let (changed, cs1) = adopt_pool digest provider_id now pool (False, cs)
      in (changed \<or> (\<exists>c \<in> set cs1. pool_verdict provider_id pool c \<noteq> None), map (settle_row provider_id pool now) cs1))"

definition summaries :: "Credential list \<Rightarrow> CredentialSummary list" where
  "summaries cs = map summary cs"

fun rank :: "CredentialState \<Rightarrow> nat" where
  "rank CredAuthorized = 7"
| "rank CredReauthorizing = 6"
| "rank CredAuthorizing = 5"
| "rank CredReauthorizationRequired = 4"
| "rank CredRuntimeMissing = 3"
| "rank CredFailed = 2"
| "rank CredRequired = 1"
| "rank CredRevoked = 0"

definition better :: "CredentialState \<Rightarrow> CredentialState option \<Rightarrow> CredentialState option" where
  "better s best = (case best of None \<Rightarrow> Some s | Some current \<Rightarrow> if rank s > rank current then Some s else best)"

definition provider_state :: "string \<Rightarrow> Credential list \<Rightarrow> CredentialState option" where
  "provider_state provider_id cs =
     fold better (map cr_state (filter (\<lambda>c. cr_provider_id c = provider_id) cs)) None"

section \<open>The file\<close>

text \<open>The encoding of the registry as JSON, and back.\<close>

record cred_codec =
  to_vec_pretty :: "Credential list \<Rightarrow> string"
  from_slice :: "string \<Rightarrow> Credential list option"

definition registry_path :: "string \<Rightarrow> string" where
  "registry_path node_home = path_join node_home ''node/credentials.json''"

definition registry_staging :: "string \<Rightarrow> string" where
  "registry_staging node_home = path_join node_home ''node/credentials.tmp''"

definition load_credentials :: "kernel \<Rightarrow> cred_codec \<Rightarrow> string \<Rightarrow> disk \<Rightarrow> Credential list" where
  "load_credentials k codec path d =
     (case read_file k path d of
        Inl _ \<Rightarrow> []
      | Inr raw \<Rightarrow> (case from_slice codec raw of Some cs \<Rightarrow> cs | None \<Rightarrow> []))"

text \<open>\<open>file_mode\<close> and \<open>dir_mode\<close> are what new files and directories get under the umask.\<close>

definition save_credentials ::
  "kernel \<Rightarrow> cred_codec \<Rightarrow> nat \<Rightarrow> nat \<Rightarrow> nat \<Rightarrow> (string \<Rightarrow> string \<Rightarrow> string) \<Rightarrow> string \<Rightarrow> Credential list
     \<Rightarrow> (io_error, unit) fop" where
  "save_credentials k codec me dir_mode file_mode torn node_home cs =
     (let path = registry_path node_home; staging = registry_staging node_home in
      fop_bind (create_dir_all k me dir_mode (parent_dir path)) (\<lambda>_.
      fop_bind (write_file k me file_mode torn staging (to_vec_pretty codec cs)) (\<lambda>_.
      fop_bind (set_permissions k staging 384) (\<lambda>_.
        rename k staging path))))"

section \<open>Reconciling with the pool\<close>

definition named_entries :: "Credential list \<Rightarrow> nat" where
  "named_entries cs = length (filter (\<lambda>c. cr_pool_entry c \<noteq> None) cs)"

definition of_pool :: "string \<Rightarrow> Credential \<Rightarrow> bool" where
  "of_pool pid c \<longleftrightarrow> cr_provider_id c = pid \<and> cr_storage c = StoreLegacySharedPool"

definition listed :: "PoolEntry list \<Rightarrow> Credential \<Rightarrow> bool" where
  "listed pool c \<longleftrightarrow> cr_pool_entry c \<in> Some ` pe_id ` set pool"

lemma length_update_first [simp]: "length (update_first p f xs) = length xs"
  by (induction xs) auto

lemma update_first_none: "\<not> (\<exists>x \<in> set xs. p x) \<Longrightarrow> update_first p f xs = xs"
  by (induction xs) auto

lemma map_update_first: "(\<And>x. g (f x) = g x) \<Longrightarrow> map g (update_first p f xs) = map g xs"
  by (induction xs) auto

lemma filter_update_first: "(\<And>x. p x \<Longrightarrow> \<not> q x \<and> \<not> q (f x)) \<Longrightarrow> filter q (update_first p f xs) = filter q xs"
  by (induction xs) auto

text \<open>Every entry of the pool has a row, or the registry is full and the first entry without one waits.\<close>

inductive settled :: "string \<Rightarrow> Credential list \<Rightarrow> PoolEntry list \<Rightarrow> bool" for pid cs where
  settled_all: "settled pid cs []"
| settled_bound: "\<exists>c \<in> set cs. bound_to pid e c \<Longrightarrow> settled pid cs es \<Longrightarrow> settled pid cs (e # es)"
| settled_full: "\<not> (\<exists>c \<in> set cs. bound_to pid e c) \<Longrightarrow> \<not> (\<exists>c \<in> set cs. awaits pid e c) \<Longrightarrow>
    length cs \<ge> MAX_CREDENTIALS \<Longrightarrow> settled pid cs (e # es)"

lemma adopt_settled: "settled pid cs es \<Longrightarrow> adopt_pool digest pid now es (changed, cs) = (changed, cs)"
  by (induction rule: settled.induct) auto

lemma bound_update_first:
  "\<exists>c \<in> set cs. bound_to pid e c \<Longrightarrow>
   \<exists>c \<in> set (update_first (awaits pid e') (\<lambda>c. c\<lparr>cr_pool_entry := Some i, cr_state := CredAuthorized, cr_updated_at := now\<rparr>) cs).
     bound_to pid e c"
  by (induction cs) (auto simp: bound_to_def awaits_def)

lemma adopt_keeps_bound:
  "adopt_pool digest pid now es (changed, cs) = (changed', cs') \<Longrightarrow> \<exists>c \<in> set cs. bound_to pid e c \<Longrightarrow>
   \<exists>c \<in> set cs'. bound_to pid e c"
proof (induction digest pid now es "(changed, cs)" arbitrary: changed cs rule: adopt_pool.induct)
  case (2 digest pid now e' es changed cs)
  then show ?case using bound_update_first by (auto split: if_splits)
qed simp

lemma update_first_mem: "\<exists>x \<in> set xs. p x \<Longrightarrow> \<exists>x. p x \<and> f x \<in> set (update_first p f xs)"
  by (induction xs) auto

lemma settled_adopt:
  "adopt_pool digest pid now es (changed, cs) = (changed', cs') \<Longrightarrow> settled pid cs' es"
proof (induction digest pid now es "(changed, cs)" arbitrary: changed cs rule: adopt_pool.induct)
  case (2 digest pid now e es changed cs)
  let ?waiting = "update_first (awaits pid e) (\<lambda>c. c\<lparr>cr_pool_entry := Some (pe_id e), cr_state := CredAuthorized, cr_updated_at := now\<rparr>) cs"
  consider (bound) "\<exists>c \<in> set cs. bound_to pid e c"
    | (waiting) "\<not> (\<exists>c \<in> set cs. bound_to pid e c)" "\<exists>c \<in> set cs. awaits pid e c"
    | (full) "\<not> (\<exists>c \<in> set cs. bound_to pid e c)" "\<not> (\<exists>c \<in> set cs. awaits pid e c)" "length cs \<ge> MAX_CREDENTIALS"
    | (new) "\<not> (\<exists>c \<in> set cs. bound_to pid e c)" "\<not> (\<exists>c \<in> set cs. awaits pid e c)" "\<not> length cs \<ge> MAX_CREDENTIALS"
    by blast
  then show ?case
  proof cases
    case bound
    with 2 show ?thesis by (auto intro!: settled_bound intro: adopt_keeps_bound)
  next
    case waiting
    then have "\<exists>c \<in> set ?waiting. bound_to pid e c"
      using update_first_mem [OF waiting(2)] by (fastforce simp: bound_to_def awaits_def)
    with waiting 2 show ?thesis by (auto intro!: settled_bound intro: adopt_keeps_bound)
  next
    case full
    with 2 show ?thesis by (auto intro!: settled_full)
  next
    case new
    have "\<exists>c \<in> set (cs @ [adopted digest pid now e]). bound_to pid e c" by (simp add: bound_to_def adopted_def)
    with new 2 show ?thesis by (auto intro!: settled_bound intro: adopt_keeps_bound)
  qed
qed (auto intro: settled_all)

lemma settle_row_fields [simp]:
  "cr_id (settle_row pid pool now c) = cr_id c" "cr_label (settle_row pid pool now c) = cr_label c"
  "cr_storage (settle_row pid pool now c) = cr_storage c" "cr_pool_entry (settle_row pid pool now c) = cr_pool_entry c"
  "cr_provider_id (settle_row pid pool now c) = cr_provider_id c" "cr_generation (settle_row pid pool now c) = cr_generation c"
  by (auto simp: settle_row_def split: option.splits)

lemma wanted_settles: "wanted b (case wanted b s of Some t \<Rightarrow> t | None \<Rightarrow> s) = None"
  by (cases b; cases s) auto

lemma settle_row_final: "pool_verdict pid pool (settle_row pid pool now c) = None"
proof -
  let ?b = "case cr_pool_entry c of Some i \<Rightarrow> i \<in> pe_id ` set pool | None \<Rightarrow> False"
  show ?thesis
  proof (cases "cr_provider_id c \<noteq> pid \<or> cr_storage c \<noteq> StoreLegacySharedPool")
    case False
    then have "cr_state (settle_row pid pool now c) = (case wanted ?b (cr_state c) of Some t \<Rightarrow> t | None \<Rightarrow> cr_state c)"
      by (auto simp: settle_row_def pool_verdict_def split: option.splits)
    then show ?thesis using False wanted_settles [of ?b "cr_state c"] by (simp add: pool_verdict_def)
  qed (auto simp: pool_verdict_def)
qed

lemma settle_row_awaits: "awaits pid e (settle_row pid pool now c) \<Longrightarrow> awaits pid e c"
  by (cases "cr_state c") (auto simp: awaits_def settle_row_def pool_verdict_def split: option.splits if_splits)

lemma settle_row_bound [simp]: "bound_to pid e (settle_row pid pool now c) = bound_to pid e c"
  by (simp add: bound_to_def)

lemma settled_rows: "settled pid cs es \<Longrightarrow> settled pid (map (settle_row pid pool now) cs) es"
proof (induction rule: settled.induct)
  case (settled_full e es)
  then show ?case by (intro settled.settled_full) (auto dest: settle_row_awaits)
qed (auto intro: settled_all intro!: settled_bound)

lemma reconcile_unchanged:
  assumes "settled pid cs pool" "\<And>c. c \<in> set cs \<Longrightarrow> pool_verdict pid pool c = None"
  shows "reconcile digest pid pool now cs = (False, cs)"
proof -
  have "map (settle_row pid pool now) cs = cs" using assms(2) by (intro map_idI) (simp add: settle_row_def)
  then show ?thesis using assms by (auto simp: reconcile_def adopt_settled)
qed

lemma reconcile_again:
  assumes "reconcile digest pid pool now cs = (changed, cs')"
  shows "reconcile digest pid pool later cs' = (False, cs')"
proof -
  obtain ch cs1 where a: "adopt_pool digest pid now pool (False, cs) = (ch, cs1)" by (cases "adopt_pool digest pid now pool (False, cs)")
  have c: "cs' = map (settle_row pid pool now) cs1" using assms a by (simp add: reconcile_def)
  show ?thesis unfolding c
    by (rule reconcile_unchanged) (auto simp: settle_row_final intro: settled_rows settled_adopt [OF a])
qed

text \<open>Rows are kept in their order with their ids and generations, and only rows of the pool change.\<close>

lemma adopt_rows:
  "adopt_pool digest pid now es (changed, cs) = (changed', cs') \<Longrightarrow>
   prefix (map (\<lambda>c. (cr_id c, cr_generation c)) cs) (map (\<lambda>c. (cr_id c, cr_generation c)) cs') \<and>
   filter (\<lambda>c. cr_storage c = StoreIsolated) cs' = filter (\<lambda>c. cr_storage c = StoreIsolated) cs \<and>
   length cs' \<le> max (length cs) MAX_CREDENTIALS"
proof (induction digest pid now es "(changed, cs)" arbitrary: changed cs rule: adopt_pool.induct)
  case (2 digest pid now e es changed cs)
  let ?f = "\<lambda>c. c\<lparr>cr_pool_entry := Some (pe_id e), cr_state := CredAuthorized, cr_updated_at := now\<rparr>"
  have "map (\<lambda>c. (cr_id c, cr_generation c)) (update_first (awaits pid e) ?f cs) = map (\<lambda>c. (cr_id c, cr_generation c)) cs"
    by (rule map_update_first) simp
  moreover have "filter (\<lambda>c. cr_storage c = StoreIsolated) (update_first (awaits pid e) ?f cs) = filter (\<lambda>c. cr_storage c = StoreIsolated) cs"
    by (rule filter_update_first) (simp add: awaits_def)
  ultimately show ?case using 2
    by (auto split: if_splits simp: adopted_def max_def elim: prefix_order.trans [rotated] intro: append_prefixD)
qed simp

lemma named_update_first:
  "\<exists>c \<in> set cs. awaits pid e c \<Longrightarrow>
   named_entries (update_first (awaits pid e) (\<lambda>c. c\<lparr>cr_pool_entry := Some i, cr_state := s, cr_updated_at := now\<rparr>) cs)
     = Suc (named_entries cs)"
  by (induction cs) (auto simp: named_entries_def awaits_def)

lemma adopt_changed:
  "adopt_pool digest pid now es (changed, cs) = (changed', cs') \<Longrightarrow>
   changed' = changed \<and> cs' = cs \<or> changed' \<and> named_entries cs < named_entries cs'"
proof (induction digest pid now es "(changed, cs)" arbitrary: changed cs rule: adopt_pool.induct)
  case (2 digest pid now e es changed cs)
  have "named_entries (cs @ [adopted digest pid now e]) = Suc (named_entries cs)" by (simp add: named_entries_def adopted_def)
  with 2 show ?case using named_update_first [of cs pid e now CredAuthorized "pe_id e"]
    by (fastforce split: if_splits)
qed simp

lemma pool_verdict_changes: "pool_verdict pid pool c = Some s \<Longrightarrow> s \<noteq> cr_state c"
  by (cases "cr_state c") (auto simp: pool_verdict_def split: if_splits option.splits; (case_tac "x2 \<in> pe_id ` set pool"; simp))+

lemma named_settle_row [simp]: "named_entries (map (settle_row pid pool now) cs) = named_entries cs"
  by (induction cs) (auto simp: named_entries_def)

lemma settle_row_same: "settle_row pid pool now c = c \<Longrightarrow> pool_verdict pid pool c = None"
proof (rule ccontr)
  assume same: "settle_row pid pool now c = c" and "pool_verdict pid pool c \<noteq> None"
  then obtain s where s: "pool_verdict pid pool c = Some s" by auto
  then have "cr_state (settle_row pid pool now c) = s" by (simp add: settle_row_def)
  with same pool_verdict_changes [OF s] show False by simp
qed

lemma settle_rows_same:
  "map (settle_row pid pool now) cs = cs \<longleftrightarrow> (\<forall>c \<in> set cs. pool_verdict pid pool c = None)"
proof
  assume "map (settle_row pid pool now) cs = cs"
  then have "\<forall>c \<in> set cs. settle_row pid pool now c = c" by (metis list.map_id map_eq_conv id_apply)
  then show "\<forall>c \<in> set cs. pool_verdict pid pool c = None"
    using settle_row_same by blast
qed (simp add: settle_row_def map_idI)

lemma reconcile_reports_change: "fst (reconcile digest pid pool now cs) \<longleftrightarrow> snd (reconcile digest pid pool now cs) \<noteq> cs"
proof -
  obtain ch cs1 where a: "adopt_pool digest pid now pool (False, cs) = (ch, cs1)"
    by (cases "adopt_pool digest pid now pool (False, cs)")
  show ?thesis
  proof (cases ch)
    case True
    then have "named_entries cs < named_entries cs1" using adopt_changed [OF a] by simp
    then have "map (settle_row pid pool now) cs1 \<noteq> cs" by (metis named_settle_row less_irrefl)
    then show ?thesis using a True by (simp add: reconcile_def)
  next
    case False
    then show ?thesis using a adopt_changed [OF a] settle_rows_same [of pid pool now cs] by (auto simp: reconcile_def)
  qed
qed

lemma settled_row_truth:
  "of_pool pid (settle_row pid pool now c) \<and> cr_state (settle_row pid pool now c) = CredAuthorized \<longleftrightarrow>
   of_pool pid (settle_row pid pool now c) \<and> listed pool (settle_row pid pool now c)"
proof -
  let ?c = "settle_row pid pool now c"
  have "pool_verdict pid pool ?c = None" by (rule settle_row_final)
  then show ?thesis
    by (cases "cr_state ?c"; cases "cr_pool_entry ?c")
      (auto simp: pool_verdict_def of_pool_def listed_def split: if_splits; case_tac "a \<in> pe_id ` set pool"; simp)+
qed

text \<open>
  C36.  Reconciling the registry with what the pool lists settles it.  A second
  pass over the same listing changes nothing, whatever the clock says.  The pass
  reports a change exactly when it made one, never touches a credential with a
  home of its own, keeps every row's id and generation in place, and stays within the
  limit.  Afterwards a credential of the pool is authorized exactly when the pool
  lists it.
\<close>

theorem pool_reconcile_settles:
  "case reconcile digest pid pool now cs of (changed, cs') \<Rightarrow>
     reconcile digest pid pool later cs' = (False, cs') \<and>
     changed = (cs' \<noteq> cs) \<and>
     filter (\<lambda>c. cr_storage c = StoreIsolated) cs' = filter (\<lambda>c. cr_storage c = StoreIsolated) cs \<and>
     prefix (map (\<lambda>c. (cr_id c, cr_generation c)) cs) (map (\<lambda>c. (cr_id c, cr_generation c)) cs') \<and>
     length cs' \<le> max (length cs) MAX_CREDENTIALS \<and>
     list_all (\<lambda>c. (of_pool pid c \<and> cr_state c = CredAuthorized) = (of_pool pid c \<and> listed pool c)) cs'"
proof -
  obtain changed cs' where r: "reconcile digest pid pool now cs = (changed, cs')" by (cases "reconcile digest pid pool now cs")
  obtain ch cs1 where a: "adopt_pool digest pid now pool (False, cs) = (ch, cs1)"
    by (cases "adopt_pool digest pid now pool (False, cs)")
  then have c: "cs' = map (settle_row pid pool now) cs1" using r by (simp add: reconcile_def)
  have "filter (\<lambda>c. cr_storage c = StoreIsolated) cs' = filter (\<lambda>c. cr_storage c = StoreIsolated) cs1"
    unfolding c filter_map o_def settle_row_fields by (rule map_idI) (simp add: settle_row_def pool_verdict_def)
  moreover have "map (\<lambda>c. (cr_id c, cr_generation c)) cs' = map (\<lambda>c. (cr_id c, cr_generation c)) cs1" by (simp add: c)
  moreover have "list_all (\<lambda>c. (of_pool pid c \<and> cr_state c = CredAuthorized) = (of_pool pid c \<and> listed pool c)) cs'"
    unfolding c list.pred_map o_def by (simp add: settled_row_truth list.pred_True)
  moreover have "reconcile digest pid pool later cs' = (False, cs')" by (rule reconcile_again [OF r])
  ultimately show ?thesis using adopt_rows [OF a] reconcile_reports_change [of digest pid pool now cs]
    by (simp add: r) (simp add: c)
qed

end
