(* ===== verification/Provider_Caps.thy ===== *)
theory Provider_Caps
  imports Credentials
begin

text \<open>
  \<open>src/src/providercaps.rs\<close>: what a node reports about the providers its runtime supports,
  the bounds of that report, and the question whether a model can be run.
\<close>

definition CAPS_SCHEMA_VERSION :: nat where "CAPS_SCHEMA_VERSION = 2"
definition MAX_PROVIDERS :: nat where "MAX_PROVIDERS = 8"
definition MAX_AUTH_METHODS :: nat where "MAX_AUTH_METHODS = 4"
definition MAX_MODELS :: nat where "MAX_MODELS = 32"
definition MAX_DISPLAY_NAME_LENGTH :: nat where "MAX_DISPLAY_NAME_LENGTH = 64"

datatype AuthMethod = DeviceAuthorization

fun method_wire :: "AuthMethod \<Rightarrow> string" where
  "method_wire DeviceAuthorization = ''device_authorization''"

datatype Availability = Available | Unavailable

datatype UnavailableReason = RuntimeMissing

record ModelCapability =
  mc_id :: string
  mc_display_name :: string

record ProviderCapability =
  pc_id :: string
  pc_display_name :: string
  pc_auth_methods :: "AuthMethod list"
  pc_availability :: Availability
  pc_unavailable_reason :: "UnavailableReason option"
  pc_models :: "ModelCapability list"

record Snapshot =
  sn_schema_version :: nat
  sn_runtime_release :: string
  sn_reported_at :: nat
  sn_providers :: "ProviderCapability list"

definition OPENAI_CODEX_MODELS :: "(string \<times> string) list" where
  "OPENAI_CODEX_MODELS =
     [(''gpt-5.6-sol'', ''GPT-5.6 Sol''), (''gpt-5.6-terra'', ''GPT-5.6 Terra''), (''gpt-5.6-luna'', ''GPT-5.6 Luna''),
      (''gpt-5.5'', ''GPT-5.5''), (''gpt-5.4'', ''GPT-5.4'')]"

definition openai_codex :: "bool \<Rightarrow> ProviderCapability" where
  "openai_codex runtime_installed =
     \<lparr>pc_id = ''openai-codex'', pc_display_name = ''OpenAI Codex'', pc_auth_methods = [DeviceAuthorization],
      pc_availability = (if runtime_installed then Available else Unavailable),
      pc_unavailable_reason = (if \<not> runtime_installed then Some RuntimeMissing else None),
      pc_models = (if runtime_installed
        then map (\<lambda>(i, name). \<lparr>mc_id = i, mc_display_name = name\<rparr>) OPENAI_CODEX_MODELS else [])\<rparr>"

definition snapshot :: "kernel \<Rightarrow> string \<Rightarrow> string \<Rightarrow> nat \<Rightarrow> disk \<Rightarrow> Snapshot" where
  "snapshot k hermes_binary runtime_release now d =
     \<lparr>sn_schema_version = CAPS_SCHEMA_VERSION, sn_runtime_release = runtime_release, sn_reported_at = now,
      sn_providers = [openai_codex (path_exists k hermes_binary d)]\<rparr>"

section \<open>Bounds\<close>

datatype bounds_error =
    TooManyProviders nat
  | ProviderIdLength string
  | ProviderIdAlphabet string
  | ProviderTwice string
  | ProviderNameLength string
  | MethodCount string nat
  | TooManyModels string nat
  | ModelId id_error
  | ModelNameLength string
  | ModelTwice string string

fun models_within :: "string \<Rightarrow> string list \<Rightarrow> ModelCapability list \<Rightarrow> (bounds_error, unit) result" where
  "models_within provider_id seen [] = Inr ()"
| "models_within provider_id seen (m # ms) =
     (case validate_model_id (mc_id m) of
        Inl e \<Rightarrow> Inl (ModelId e)
      | Inr _ \<Rightarrow>
          if mc_display_name m = [] \<or> length (mc_display_name m) > MAX_DISPLAY_NAME_LENGTH then Inl (ModelNameLength (mc_id m))
          else if mc_id m \<in> set seen then Inl (ModelTwice (mc_id m) provider_id)
          else models_within provider_id (mc_id m # seen) ms)"

fun providers_within :: "string list \<Rightarrow> ProviderCapability list \<Rightarrow> (bounds_error, unit) result" where
  "providers_within seen [] = Inr ()"
| "providers_within seen (p # ps) =
     (if pc_id p = [] \<or> length (pc_id p) > MODEL_MAX_ID_LENGTH then Inl (ProviderIdLength (pc_id p))
      else if \<not> list_all (\<lambda>c. is_ascii_lower c \<or> is_ascii_digit c \<or> c = CHR ''-'') (pc_id p) then Inl (ProviderIdAlphabet (pc_id p))
      else if pc_id p \<in> set seen then Inl (ProviderTwice (pc_id p))
      else if pc_display_name p = [] \<or> length (pc_display_name p) > MAX_DISPLAY_NAME_LENGTH then Inl (ProviderNameLength (pc_id p))
      else if pc_auth_methods p = [] \<or> length (pc_auth_methods p) > MAX_AUTH_METHODS
      then Inl (MethodCount (pc_id p) (length (pc_auth_methods p)))
      else if length (pc_models p) > MAX_MODELS then Inl (TooManyModels (pc_id p) (length (pc_models p)))
      else (case models_within (pc_id p) [] (pc_models p) of
          Inl e \<Rightarrow> Inl e
        | Inr _ \<Rightarrow> providers_within (pc_id p # seen) ps))"

definition within_bounds :: "Snapshot \<Rightarrow> (bounds_error, unit) result" where
  "within_bounds s =
     (if length (sn_providers s) > MAX_PROVIDERS then Inl (TooManyProviders (length (sn_providers s)))
      else providers_within [] (sn_providers s))"

definition supports :: "Snapshot \<Rightarrow> string \<Rightarrow> string \<Rightarrow> bool" where
  "supports s provider_id model_id \<longleftrightarrow>
     list_ex (\<lambda>p. list_ex (\<lambda>m. mc_id m = model_id) (pc_models p)) (filter (\<lambda>p. pc_id p = provider_id) (sn_providers s))"

section \<open>What the report promises\<close>

lemma codex_within: "providers_within [] [openai_codex installed] = Inr ()"
proof -
  have "providers_within [] [openai_codex True] = Inr ()" "providers_within [] [openai_codex False] = Inr ()" by code_simp+
  then show ?thesis by (cases installed) simp_all
qed

text \<open>The report a node sends is one the control plane accepts.\<close>

lemma snapshot_within_bounds: "within_bounds (snapshot k binary release now d) = Inr ()"
  by (simp add: within_bounds_def snapshot_def MAX_PROVIDERS_def codex_within del: providers_within.simps)

text \<open>A provider is available exactly when it offers models, and then a supported model has a usable id.\<close>

lemma supported_is_available:
  assumes "supports (snapshot k binary release now d) provider_id i"
  shows "path_exists k binary d \<and> provider_id = ''openai-codex'' \<and> i \<in> fst ` set OPENAI_CODEX_MODELS"
  using assms by (auto simp: supports_def snapshot_def openai_codex_def list_ex_iff split: if_splits intro: rev_image_eqI)

lemma supported_model_id: "supports (snapshot k binary release now d) provider_id i \<Longrightarrow> validate_model_id i = Inr ()"
proof -
  have "list_all (\<lambda>m. validate_model_id (fst m) = Inr ()) OPENAI_CODEX_MODELS" by code_simp
  then show "supports (snapshot k binary release now d) provider_id i \<Longrightarrow> validate_model_id i = Inr ()"
    by (auto simp: list_all_iff dest!: supported_is_available)
qed

end
