(* ===== verification/Device_Code.thy ===== *)
theory Device_Code
  imports Provider_Caps Device_Delivery
begin

text \<open>
  The part of \<open>src/src/provider.rs\<close> that reads the output of the provider's CLI: the link, the
  code and its expiry, and the loop that waits for them.  The lines the two streams
  carry, in the order they arrive, and how reading ends are arguments.
\<close>

definition CODE_TIMEOUT :: nat where "CODE_TIMEOUT = 45"
definition DEFAULT_EXPIRY :: nat where "DEFAULT_EXPIRY = 15 * 60"

abbreviation ESC :: char where "ESC \<equiv> CHR 0x1B"

section \<open>Escape sequences\<close>

definition csi_final :: "char \<Rightarrow> bool" where
  "csi_final c \<longleftrightarrow> 0x40 \<le> (of_char c :: nat) \<and> of_char c \<le> (0x7E :: nat)"

fun after_csi :: "string \<Rightarrow> string" where
  "after_csi [] = []"
| "after_csi (c # s) = (if csi_final c then s else after_csi s)"

lemma length_after_csi: "length (after_csi s) \<le> length s"
  by (induction s) auto

text \<open>After an escape, one character is consumed, with its continuation bytes.\<close>

function strip_ansi :: "string \<Rightarrow> string" where
  "strip_ansi [] = []"
| "strip_ansi (c # s) =
     (if c \<noteq> ESC then c # strip_ansi s
      else case s of
          [] \<Rightarrow> []
        | b # t \<Rightarrow> strip_ansi (if b = CHR ''['' then after_csi t else dropWhile cont_byte t))"
  by pat_completeness auto
termination
  by (relation "measure length") (auto intro: le_imp_less_Suc le_SucI length_after_csi length_dropWhile_le)

section \<open>The code\<close>

definition trim_end_of :: "string \<Rightarrow> string \<Rightarrow> string" where
  "trim_end_of cs s = rev (dropWhile (\<lambda>c. c \<in> set cs) (rev s))"

fun split_dash :: "string \<Rightarrow> string list" where
  "split_dash [] = [[]]"
| "split_dash (c # s) =
     (if c = CHR ''-'' then [] # split_dash s
      else case split_dash s of g # gs \<Rightarrow> (c # g) # gs | [] \<Rightarrow> [[c]])"

definition is_user_code :: "string \<Rightarrow> bool" where
  "is_user_code line \<longleftrightarrow>
     6 \<le> length line \<and> length line \<le> 32 \<and> CHR ''-'' \<in> set line \<and> 2 \<le> length (split_dash line) \<and>
     list_all (\<lambda>g. g \<noteq> [] \<and> list_all (\<lambda>c. is_ascii_digit c \<or> is_ascii_upper c) g) (split_dash line)"

definition parse_u64 :: "string \<Rightarrow> nat option" where
  "parse_u64 s =
     (let digits = (case strip_prefix ''+'' s of Some d \<Rightarrow> d | None \<Rightarrow> s);
          n = foldl (\<lambda>acc c. acc * 10 + (of_char c - 48)) 0 digits
      in if digits \<noteq> [] \<and> list_all is_ascii_digit digits \<and> n < 2 ^ 64 then Some n else None)"

text \<open>The products are in \<open>u64\<close> and wrap, as they do in a release build.\<close>

definition parse_expiry :: "string \<Rightarrow> nat option" where
  "parse_expiry plain =
     (case split_once ''expires in '' plain of
        None \<Rightarrow> None
      | Some (_, rest) \<Rightarrow>
          (case split_whitespace rest of
             amount # unit # _ \<Rightarrow>
               (case parse_u64 amount of
                  None \<Rightarrow> None
                | Some n \<Rightarrow>
                    let u = trim_end_of '').,'' unit in
                    if starts_with ''second'' u then Some n
                    else if starts_with ''minute'' u then Some (n * 60 mod 2 ^ 64)
                    else if starts_with ''hour'' u then Some (n * 3600 mod 2 ^ 64)
                    else None)
           | _ \<Rightarrow> None))"

definition parse_device_code :: "string \<Rightarrow> DeviceCode option" where
  "parse_device_code output =
     (let plain = strip_ansi output in
      case find (starts_with ''https://'') (split_whitespace plain) of
        None \<Rightarrow> None
      | Some word \<Rightarrow>
          (case find is_user_code (map trim (str_lines plain)) of
             None \<Rightarrow> None
           | Some code \<Rightarrow> Some
               \<lparr>dc_verification_uri = trim_end_of ''.,'' word, dc_user_code = code,
                dc_expires_in_seconds = (case parse_expiry plain of Some n \<Rightarrow> n | None \<Rightarrow> DEFAULT_EXPIRY)\<rparr>))"

section \<open>Waiting for it\<close>

datatype read_end = Deadline | BothClosed | ReadFailed string

definition last_words :: "string \<Rightarrow> string" where
  "last_words seen =
     trim (case find (\<lambda>l. trim l \<noteq> []) (rev (str_lines seen)) of Some l \<Rightarrow> l | None \<Rightarrow> ''it printed nothing'')"

fun read_device_code :: "string \<Rightarrow> string list \<Rightarrow> read_end \<Rightarrow> (string, DeviceCode) result" where
  "read_device_code seen [] ending =
     Inl (case ending of
        Deadline \<Rightarrow> ''the provider CLI did not offer a code within '' @ show_nat CODE_TIMEOUT @ '' seconds''
      | BothClosed \<Rightarrow> ''the provider CLI stopped without offering a code: '' @ last_words seen
      | ReadFailed message \<Rightarrow> message)"
| "read_device_code seen (line # ls) ending =
     (let seen' = seen @ line @ [CHR 0x0A] in
      case parse_device_code seen' of
        Some code \<Rightarrow> Inr code
      | None \<Rightarrow> read_device_code seen' ls ending)"

section \<open>What a browser is shown\<close>

lemma strip_ansi_plain: "ESC \<notin> set a \<Longrightarrow> strip_ansi (a @ s) = a @ strip_ansi s"
  by (induction a) auto

lemma strip_ansi_colour:
  assumes "\<not> list_ex csi_final params" "csi_final c"
  shows "strip_ansi (ESC # CHR ''['' # params @ c # s) = strip_ansi s"
proof -
  have "after_csi (params @ c # s) = s" using assms by (induction params) auto
  then show ?thesis by simp
qed

lemma strip_ansi_clean: "ESC \<notin> set (strip_ansi s)"
  by (induction s rule: strip_ansi.induct) (auto split: list.splits)

lemma split_dash_mem: "c \<in> set s \<Longrightarrow> c = CHR ''-'' \<or> (\<exists>g \<in> set (split_dash s). c \<in> set g)"
  by (induction s) (auto split: list.splits)

text \<open>The code is printable ASCII: letters, digits and dashes, and nothing of an escape sequence.\<close>

lemma user_code_chars:
  assumes "is_user_code s" "c \<in> set s"
  shows "c = CHR ''-'' \<or> is_ascii_digit c \<or> is_ascii_upper c"
  using split_dash_mem [OF assms(2)] assms(1) by (auto simp: is_user_code_def list_all_iff)

lemma parsed_code_is_code: "parse_device_code output = Some code \<Longrightarrow> is_user_code (dc_user_code code)"
  by (auto simp: parse_device_code_def Let_def find_Some_iff split: option.splits)

lemma dropWhile_stop: "\<not> P x \<Longrightarrow> dropWhile P (xs @ x # ys) = dropWhile P xs @ x # ys"
  by (induction xs) auto

lemma trim_end_of_https: "starts_with ''https://'' w \<Longrightarrow> starts_with ''https://'' (trim_end_of ''.,'' w)"
  by (auto simp: starts_with_iff trim_end_of_def dropWhile_stop intro: exI [of _ "rev _"])

lemma parsed_link_is_https: "parse_device_code output = Some code \<Longrightarrow> starts_with ''https://'' (dc_verification_uri code)"
  by (auto simp: parse_device_code_def Let_def find_Some_iff split: option.splits intro: trim_end_of_https)

text \<open>Reading ends with a code as soon as the lines so far hold one, and only then.\<close>

lemma read_device_code_Inr:
  assumes "read_device_code seen ls ending = Inr code"
  shows "\<exists>as bs. ls = as @ bs \<and> parse_device_code (seen @ concat (map (\<lambda>l. l @ [CHR 0x0A]) as)) = Some code"
  using assms
proof (induction seen ls ending rule: read_device_code.induct)
  case (2 seen line ls ending)
  let ?seen = "seen @ line @ [CHR 0x0A]"
  show ?case
  proof (cases "parse_device_code ?seen")
    case None
    then obtain as bs where "ls = as @ bs" "parse_device_code (?seen @ concat (map (\<lambda>l. l @ [CHR 0x0A]) as)) = Some code"
      using 2 by auto
    then show ?thesis by (intro exI [of _ "line # as"] exI [of _ bs]) simp
  next
    case (Some c)
    then have "ls = [] @ ls" "c = code" using 2 by auto
    then show ?thesis using Some by (intro exI [of _ "[line]"] exI [of _ ls]) simp
  qed
qed simp

end
