(* ===== verification/Provider.thy ===== *)
theory Provider
  imports Device_Code Credential_Swap
begin

text \<open>
  \<open>src/src/provider.rs\<close>: the logins of a node and the credentials they produce.  The state
  is the login in flight, the registry of credentials, a replacement login that has
  ended and is parked, the counter of logins, and the disk.  Each section under one of
  the locks is preceded by whatever other tasks did in the meantime, \<open>vh_others\<close>.  What
  the provider's CLI prints and does, the clock and the randomness are arguments.
\<close>

section \<open>State\<close>

datatype ProviderStatus = HostUnavailable | HostRequired | HostAuthorizing | HostAuthorized | HostFailed

fun provider_as_str :: "ProviderStatus \<Rightarrow> string" where
  "provider_as_str HostUnavailable = ''unavailable''"
| "provider_as_str HostRequired = ''required''"
| "provider_as_str HostAuthorizing = ''authorizing''"
| "provider_as_str HostAuthorized = ''authorized''"
| "provider_as_str HostFailed = ''failed''"

datatype Delivery = DeliveryPending | DeliverySent string nat | DeliveryAcknowledged

datatype Phase = Producing | Waiting DeviceCode Delivery

text \<open>\<open>at_running\<close> is what \<open>try_wait\<close> says about the process; a staging home is its path.\<close>

record Attempt =
  at_running :: bool
  at_credential_id :: string
  at_generation :: nat
  at_command_id :: "string option"
  at_phase :: Phase
  at_reauth :: "string option"

record FinishedReauthorization =
  fr_credential_id :: string
  fr_staging :: string
  fr_generation :: nat

text \<open>The counter of logins is a 64-bit atomic; it moves once per login and does not wrap here.\<close>

record Provider =
  pv_attempt :: "Attempt option"
  pv_credentials :: "Credential list"
  pv_finished :: "FinishedReauthorization option"
  pv_generation :: nat
  pv_disk :: disk
  pv_tick :: nat

record ProviderHost =
  vh_kernel :: kernel
  vh_codec :: cred_codec
  vh_decoder :: store_decoder
  vh_digest :: "string \<Rightarrow> string"
  vh_torn :: "string \<Rightarrow> string \<Rightarrow> string"
  vh_me :: nat
  vh_dir_mode :: nat
  vh_file_mode :: nat
  vh_node_home :: string
  vh_hermes_home :: string
  vh_hermes_binary :: string
  vh_release :: string
  vh_home_text :: "home_error \<Rightarrow> string"
  vh_swap_text :: "swap_error \<Rightarrow> string"
  vh_now :: "nat \<Rightarrow> nat"
  vh_others :: "nat \<Rightarrow> Provider \<Rightarrow> Provider"

definition vh_root :: "ProviderHost \<Rightarrow> string" where
  "vh_root h = managed_root (vh_node_home h)"

record AuthorizationRefusal =
  rf_code :: string
  rf_message :: string

definition in_progress :: "bool \<Rightarrow> AuthorizationRefusal" where
  "in_progress same_credential =
     \<lparr>rf_code = ''authorization_in_progress'',
      rf_message = (if same_credential then ''this credential is already waiting for a browser approval''
        else ''another authorization is already waiting for a browser approval on this Node'')\<rparr>"

definition auth_failed :: "string \<Rightarrow> AuthorizationRefusal" where
  "auth_failed message = \<lparr>rf_code = ''authorization_failed'', rf_message = message\<rparr>"

definition refused :: "string \<Rightarrow> string \<Rightarrow> AuthorizationRefusal" where
  "refused code message = \<lparr>rf_code = code, rf_message = message\<rparr>"

section \<open>Computations\<close>

type_synonym 'a pv = "Provider \<Rightarrow> 'a \<times> Provider"

definition pv_ret :: "'a \<Rightarrow> 'a pv" where
  "pv_ret x = (\<lambda>p. (x, p))"

definition pv_bind :: "'a pv \<Rightarrow> ('a \<Rightarrow> 'b pv) \<Rightarrow> 'b pv" where
  "pv_bind m f = (\<lambda>p. case m p of (x, q) \<Rightarrow> f x q)"

definition pv_try :: "('e, 'a) result pv \<Rightarrow> ('a \<Rightarrow> ('e, 'b) result pv) \<Rightarrow> ('e, 'b) result pv" where
  "pv_try m f = pv_bind m (\<lambda>r. case r of Inl e \<Rightarrow> pv_ret (Inl e) | Inr x \<Rightarrow> f x)"

definition locked :: "ProviderHost \<Rightarrow> 'a pv \<Rightarrow> 'a pv" where
  "locked h f = (\<lambda>p. f ((vh_others h (pv_tick p) p)\<lparr>pv_tick := pv_tick p + 1\<rparr>))"

definition look :: "ProviderHost \<Rightarrow> (Provider \<Rightarrow> 'a) \<Rightarrow> 'a pv" where
  "look h f = locked h (\<lambda>p. (f p, p))"

section \<open>The registry and its file\<close>

definition persist :: "ProviderHost \<Rightarrow> Provider \<Rightarrow> Provider" where
  "persist h p = p\<lparr>pv_disk := fop_final (save_credentials (vh_kernel h) (vh_codec h) (vh_me h) (vh_dir_mode h)
     (vh_file_mode h) (vh_torn h) (vh_node_home h) (pv_credentials p)) (pv_disk p)\<rparr>"

definition set_state :: "ProviderHost \<Rightarrow> string \<Rightarrow> CredentialState \<Rightarrow> Provider \<Rightarrow> Provider" where
  "set_state h cid s p = p\<lparr>pv_credentials := put_credential cid
     (\<lambda>c. c\<lparr>cr_state := s, cr_updated_at := vh_now h (pv_tick p)\<rparr>) (pv_credentials p)\<rparr>"

definition mark :: "ProviderHost \<Rightarrow> string \<Rightarrow> CredentialState \<Rightarrow> unit pv" where
  "mark h cid s = locked h (\<lambda>p. ((), persist h (set_state h cid s p)))"

definition provider_new :: "ProviderHost \<Rightarrow> disk \<Rightarrow> Provider" where
  "provider_new h d =
     \<lparr>pv_attempt = None, pv_credentials = load_credentials (vh_kernel h) (vh_codec h) (registry_path (vh_node_home h)) d,
      pv_finished = None, pv_generation = 0, pv_disk = d, pv_tick = 0\<rparr>"

definition shared_pool :: "ProviderHost \<Rightarrow> string" where
  "shared_pool h = path_join (vh_hermes_home h) ''auth.json''"

definition provider_status :: "ProviderHost \<Rightarrow> ProviderStatus pv" where
  "provider_status h = look h (\<lambda>p.
     if \<not> path_exists (vh_kernel h) (vh_hermes_binary h) (pv_disk p) then HostUnavailable
     else if path_exists (vh_kernel h) (shared_pool h) (pv_disk p) then HostAuthorized
     else HostRequired)"

fun state_of_verdict :: "RuntimeVerdict \<Rightarrow> CredentialState" where
  "state_of_verdict Usable = CredAuthorized"
| "state_of_verdict (Dead _) = CredReauthorizationRequired"
| "state_of_verdict Missing = CredRuntimeMissing"
| "state_of_verdict Unreadable = CredRequired"

definition runtime_state :: "ProviderHost \<Rightarrow> string \<Rightarrow> CredentialState pv" where
  "runtime_state h cid =
     pv_bind (look h (\<lambda>p. get_credential cid (pv_credentials p))) (\<lambda>found.
       case found of
         None \<Rightarrow> pv_ret CredRequired
       | Some c \<Rightarrow>
           (case credential_file (vh_root h) cid of
              Inl _ \<Rightarrow> pv_ret CredRequired
            | Inr store \<Rightarrow> look h (\<lambda>p. state_of_verdict
                (verdict (vh_kernel h) (vh_decoder h) store (cr_provider_id c) cid (pv_disk p)))))"

definition settle_reauthorization_failure :: "ProviderHost \<Rightarrow> string \<Rightarrow> unit pv" where
  "settle_reauthorization_failure h cid = pv_bind (runtime_state h cid) (mark h cid)"

section \<open>A login\<close>

text \<open>A staging home is removed when its owner is dropped.\<close>

definition drop_staging :: "ProviderHost \<Rightarrow> string option \<Rightarrow> Provider \<Rightarrow> Provider" where
  "drop_staging h reauth p =
     (case reauth of
        None \<Rightarrow> p
      | Some path \<Rightarrow> p\<lparr>pv_disk := fop_final (staging_drop (vh_kernel h) path) (pv_disk p)\<rparr>)"

definition drop_attempt :: "ProviderHost \<Rightarrow> Provider \<Rightarrow> Provider" where
  "drop_attempt h p =
     (case pv_attempt p of
        None \<Rightarrow> p
      | Some a \<Rightarrow> drop_staging h (at_reauth a) (p\<lparr>pv_attempt := None\<rparr>))"

definition next_login :: "Provider \<Rightarrow> Provider" where
  "next_login p = p\<lparr>pv_generation := pv_generation p + 1\<rparr>"

definition attempt_in_flight :: "ProviderHost \<Rightarrow> string option pv" where
  "attempt_in_flight h = look h (\<lambda>p.
     case pv_attempt p of Some a \<Rightarrow> if at_running a then Some (at_credential_id a) else None | None \<Rightarrow> None)"

datatype spawn = Spawned | SpawnFailed string | NoOutput

definition begin_login ::
  "ProviderHost \<Rightarrow> string \<Rightarrow> string option \<Rightarrow> string option \<Rightarrow> spawn \<Rightarrow> (AuthorizationRefusal, unit) result pv" where
  "begin_login h cid command reauth spawned = locked h (\<lambda>p.
     if (case pv_attempt p of Some a \<Rightarrow> at_running a | None \<Rightarrow> False)
     then (Inl (in_progress (case pv_attempt p of Some a \<Rightarrow> at_credential_id a = cid | None \<Rightarrow> False)), drop_staging h reauth p)
     else
       let q = next_login (drop_attempt h p) in
       case spawned of
         SpawnFailed message \<Rightarrow> (Inl (auth_failed message), drop_staging h reauth q)
       | NoOutput \<Rightarrow> (Inl (auth_failed ''the provider CLI offered no output to read''), drop_staging h reauth q)
       | Spawned \<Rightarrow> (Inr (), q\<lparr>pv_attempt := Some
           \<lparr>at_running = True, at_credential_id = cid, at_generation = pv_generation q, at_command_id = command,
            at_phase = Producing, at_reauth = reauth\<rparr>\<rparr>))"

text \<open>What the task that reads the output does when it has a code, or none.\<close>

definition record_code :: "ProviderHost \<Rightarrow> nat \<Rightarrow> string \<Rightarrow> DeviceCode \<Rightarrow> unit pv" where
  "record_code h generation cid code = locked h (\<lambda>p.
     case pv_attempt p of
       Some a \<Rightarrow>
         if at_generation a = generation \<and> at_credential_id a = cid \<and> at_phase a = Producing
         then ((), p\<lparr>pv_attempt := Some (a\<lparr>at_phase := Waiting code DeliveryPending\<rparr>)\<rparr>) else ((), p)
     | None \<Rightarrow> ((), p))"

definition abandon_attempt :: "ProviderHost \<Rightarrow> string option pv" where
  "abandon_attempt h = locked h (\<lambda>p.
     case pv_attempt p of
       None \<Rightarrow> (None, p)
     | Some a \<Rightarrow> (Some (at_credential_id a), next_login (drop_attempt h p)))"

definition after_failed_login :: "ProviderHost \<Rightarrow> string \<Rightarrow> bool \<Rightarrow> unit pv" where
  "after_failed_login h cid replacing =
     (if replacing then settle_reauthorization_failure h cid else mark h cid CredFailed)"

definition abandon_produced_nothing :: "ProviderHost \<Rightarrow> nat \<Rightarrow> string \<Rightarrow> unit pv" where
  "abandon_produced_nothing h generation cid =
     pv_bind (locked h (\<lambda>p.
         case pv_attempt p of
           Some a \<Rightarrow>
             if at_generation a = generation then (Some (at_reauth a \<noteq> None), next_login (drop_attempt h p)) else (None, p)
         | None \<Rightarrow> (None, p)))
       (\<lambda>taken. case taken of None \<Rightarrow> pv_ret () | Some replacing \<Rightarrow> after_failed_login h cid replacing)"

definition deliverable_code :: "ProviderHost \<Rightarrow> (string \<times> string \<times> DeviceCode) option pv" where
  "deliverable_code h = look h (\<lambda>p.
     case pv_attempt p of
       None \<Rightarrow> None
     | Some a \<Rightarrow>
         (case (at_command_id a, at_phase a) of
            (Some command, Waiting code delivery) \<Rightarrow>
              if delivery = DeliveryPending then Some (command, at_credential_id a, code) else None
          | _ \<Rightarrow> None))"

definition provider_cancel :: "ProviderHost \<Rightarrow> ProviderStatus pv" where
  "provider_cancel h = pv_bind (abandon_attempt h) (\<lambda>_. provider_status h)"

section \<open>A login that has ended\<close>

text \<open>The slot takes the staged material over; what was parked there before is dropped.\<close>

definition park :: "ProviderHost \<Rightarrow> Attempt \<Rightarrow> string \<Rightarrow> Provider \<Rightarrow> Provider" where
  "park h a staging p =
     (drop_staging h (map_option fr_staging (pv_finished p)) p)\<lparr>pv_finished := Some
        \<lparr>fr_credential_id = at_credential_id a, fr_staging = staging, fr_generation = at_generation a\<rparr>\<rparr>"

definition settle_attempt :: "ProviderHost \<Rightarrow> string option pv" where
  "settle_attempt h = locked h (\<lambda>p.
     case pv_attempt p of
       None \<Rightarrow> (None, p)
     | Some a \<Rightarrow>
         if at_running a then (None, p)
         else let q = p\<lparr>pv_attempt := None\<rparr> in
           if at_generation a \<noteq> pv_generation p then (None, drop_staging h (at_reauth a) q)
           else (case at_reauth a of
               Some staging \<Rightarrow> (None, park h a staging q)
             | None \<Rightarrow> (Some (at_credential_id a), q)))"

definition settle_finished_reauthorization :: "ProviderHost \<Rightarrow> unit pv" where
  "settle_finished_reauthorization h = locked h (\<lambda>p.
     case pv_attempt p of
       None \<Rightarrow> ((), p)
     | Some a \<Rightarrow>
         (case at_reauth a of
            None \<Rightarrow> ((), p)
          | Some staging \<Rightarrow>
              if at_running a then ((), p)
              else let q = p\<lparr>pv_attempt := None\<rparr> in
                if at_generation a \<noteq> pv_generation p then ((), drop_staging h (Some staging) q)
                else ((), park h a staging q)))"

definition take_finished_reauthorization :: "ProviderHost \<Rightarrow> FinishedReauthorization option pv" where
  "take_finished_reauthorization h =
     pv_bind (settle_finished_reauthorization h) (\<lambda>_. locked h (\<lambda>p. (pv_finished p, p\<lparr>pv_finished := None\<rparr>)))"

definition generation_is_current :: "nat \<Rightarrow> Provider \<Rightarrow> bool" where
  "generation_is_current generation p \<longleftrightarrow> generation = pv_generation p"

section \<open>Credentials\<close>

fun unsettled :: "CredentialState \<Rightarrow> CredentialState" where
  "unsettled CredAuthorizing = CredFailed"
| "unsettled other = other"

text \<open>What the home of an isolated credential makes of its state.\<close>

definition judge :: "ProviderHost \<Rightarrow> string \<times> CredentialState \<Rightarrow> CredentialState pv" where
  "judge h candidate = (case candidate of (cid, s) \<Rightarrow>
     pv_bind (look h (\<lambda>p. inspect (vh_kernel h) (vh_root h) cid (vh_me h) (pv_disk p))) (\<lambda>home.
       if home \<in> {HomeReady, CredentialMissing} then runtime_state h cid
       else pv_ret (if s = CredAuthorized then CredRequired else unsettled s)))"

fun verdicts_of :: "ProviderHost \<Rightarrow> (string \<times> CredentialState) list \<Rightarrow> (string \<times> CredentialState) list pv" where
  "verdicts_of h [] = pv_ret []"
| "verdicts_of h (c # cs) =
     pv_bind (judge h c) (\<lambda>s. pv_bind (verdicts_of h cs) (\<lambda>vs.
       pv_ret (if s \<noteq> snd c then (fst c, s) # vs else vs)))"

definition candidates :: "string option \<Rightarrow> Provider \<Rightarrow> (string \<times> CredentialState) list" where
  "candidates in_flight p = map (\<lambda>c. (cr_id c, cr_state c))
     (filter (\<lambda>c. cr_storage c = StoreIsolated \<and> cr_state c \<noteq> CredRevoked \<and> in_flight \<noteq> Some (cr_id c)) (pv_credentials p))"

definition not_revoked :: "string \<Rightarrow> Provider \<Rightarrow> bool" where
  "not_revoked cid p = (case get_credential cid (pv_credentials p) of Some c \<Rightarrow> cr_state c \<noteq> CredRevoked | None \<Rightarrow> False)"

fun apply_verdicts :: "ProviderHost \<Rightarrow> (string \<times> CredentialState) list \<Rightarrow> bool \<times> Provider \<Rightarrow> bool \<times> Provider" where
  "apply_verdicts h [] st = st"
| "apply_verdicts h ((cid, s) # vs) (changed, p) =
     (if not_revoked cid p then apply_verdicts h vs (True, set_state h cid s p)
      else apply_verdicts h vs (changed, p))"

text \<open>A login that ended and left its credential waiting has failed.\<close>

definition fail_finished :: "ProviderHost \<Rightarrow> string option \<Rightarrow> bool \<times> Provider \<Rightarrow> bool \<times> Provider" where
  "fail_finished h finished st =
     (case (finished, st) of
        (Some cid, (changed, p)) \<Rightarrow>
          (case get_credential cid (pv_credentials p) of
             Some c \<Rightarrow> if cr_state c = CredAuthorizing then (True, set_state h cid CredFailed p) else st
           | None \<Rightarrow> st)
      | (None, _) \<Rightarrow> st)"

definition reconcile_registry ::
  "ProviderHost \<Rightarrow> PoolEntry list \<Rightarrow> (string \<times> CredentialState) list \<Rightarrow> string option \<Rightarrow> CredentialSummary list pv" where
  "reconcile_registry h pool vs finished = locked h (\<lambda>p.
     let (changed, cs) = reconcile (vh_digest h) ''openai-codex'' pool (vh_now h (pv_tick p)) (pv_credentials p);
         (changed, q) = fail_finished h finished (apply_verdicts h vs (changed, p\<lparr>pv_credentials := cs\<rparr>));
         r = (if changed then persist h q else q)
     in (summaries (pv_credentials r), r))"

text \<open>\<open>listing\<close> is the output of \<open>hermes auth list\<close>, when the command could be run.\<close>

definition list_credentials :: "ProviderHost \<Rightarrow> string option \<Rightarrow> CredentialSummary list pv" where
  "list_credentials h listing =
     pv_bind (settle_attempt h) (\<lambda>finished.
     pv_bind (attempt_in_flight h) (\<lambda>in_flight.
     pv_bind (look h (\<lambda>p. path_exists (vh_kernel h) (shared_pool h) (pv_disk p))) (\<lambda>held.
     let pool = (if held then (case listing of Some out \<Rightarrow> parse_pool_listing (from_utf8_lossy out) | None \<Rightarrow> []) else []) in
     pv_bind (look h (candidates in_flight)) (\<lambda>cs.
     pv_bind (verdicts_of h cs) (\<lambda>vs. reconcile_registry h pool vs finished)))))"

section \<open>Starting a login\<close>

fun label_message :: "label_error \<Rightarrow> string" where
  "label_message LabelLength = ''a label must be between 1 and '' @ show_nat MAX_LABEL_LENGTH @ '' characters''"
| "label_message LabelControl = ''a label may not hold control characters''"

definition check_support :: "Snapshot \<Rightarrow> string \<Rightarrow> string \<Rightarrow> (AuthorizationRefusal, unit) result" where
  "check_support s provider_id auth_method =
     (case find (\<lambda>c. pc_id c = provider_id) (sn_providers s) of
        None \<Rightarrow> Inl (refused ''provider_not_supported'' ''this Node does not support that provider'')
      | Some c \<Rightarrow>
          if pc_availability c \<noteq> Available
          then Inl (refused ''provider_unavailable'' ''that provider is not available on this Node'')
          else if \<not> list_ex (\<lambda>m. method_wire m = auth_method) (pc_auth_methods c)
          then Inl (refused ''auth_method_not_supported'' ''this Node does not support that way of authorizing that provider'')
          else Inr ())"

definition caps :: "ProviderHost \<Rightarrow> Provider \<Rightarrow> Snapshot" where
  "caps h p = snapshot (vh_kernel h) (vh_hermes_binary h) (vh_release h) (vh_now h (pv_tick p)) (pv_disk p)"

definition on_disk :: "ProviderHost \<Rightarrow> ('e \<Rightarrow> 'f) \<Rightarrow> ('e, 'a) fop \<Rightarrow> ('f, 'a) result pv" where
  "on_disk h g m = locked h (\<lambda>p. (map_sum g id (fst (m (pv_disk p))), p\<lparr>pv_disk := fop_final m (pv_disk p)\<rparr>))"

definition refuse_if :: "ProviderHost \<Rightarrow> (Provider \<Rightarrow> AuthorizationRefusal option) \<Rightarrow> (AuthorizationRefusal, unit) result pv" where
  "refuse_if h f = look h (\<lambda>p. case f p of Some r \<Rightarrow> Inl r | None \<Rightarrow> Inr ())"

definition none_in_flight :: "ProviderHost \<Rightarrow> (AuthorizationRefusal, unit) result pv" where
  "none_in_flight h = pv_bind (attempt_in_flight h) (\<lambda>a. pv_ret (case a of Some _ \<Rightarrow> Inl (in_progress False) | None \<Rightarrow> Inr ()))"

definition open_home :: "ProviderHost \<Rightarrow> string \<Rightarrow> (AuthorizationRefusal, string) result pv" where
  "open_home h cid = on_disk h (\<lambda>e. refused ''credential_home_unavailable'' (vh_home_text h e))
     (create_home (vh_kernel h) (vh_me h) (vh_dir_mode h) (vh_root h) cid (vh_me h))"

definition new_credential :: "ProviderHost \<Rightarrow> Provider \<Rightarrow> string \<Rightarrow> string \<Rightarrow> string \<Rightarrow> string \<Rightarrow> Credential" where
  "new_credential h p cid provider_id auth_method label =
     \<lparr>cr_id = cid, cr_provider_id = provider_id, cr_auth_method = auth_method, cr_label = label,
      cr_state = CredAuthorizing, cr_storage = StoreIsolated, cr_pool_entry = None, cr_generation = 0,
      cr_created_at = vh_now h (pv_tick p), cr_updated_at = vh_now h (pv_tick p)\<rparr>"

text \<open>\<open>cid\<close> is the fresh id, and \<open>spawned\<close> what starting the CLI leads to.\<close>

definition authorize_credential ::
  "ProviderHost \<Rightarrow> string \<Rightarrow> string \<Rightarrow> string \<Rightarrow> string option \<Rightarrow> string \<Rightarrow> spawn \<Rightarrow> (AuthorizationRefusal, string) result pv" where
  "authorize_credential h provider_id auth_method label command cid spawned =
     (case validate_label label of
        Inl e \<Rightarrow> pv_ret (Inl (refused ''label_invalid'' (label_message e)))
      | Inr _ \<Rightarrow>
          pv_try (look h (\<lambda>p. check_support (caps h p) provider_id auth_method)) (\<lambda>_.
          pv_try (none_in_flight h) (\<lambda>_.
          pv_try (refuse_if h (\<lambda>p. if length (pv_credentials p) \<ge> MAX_CREDENTIALS
              then Some (refused ''credential_limit_reached'' (''this Node already holds '' @ show_nat MAX_CREDENTIALS @ '' credentials''))
              else None)) (\<lambda>_.
          pv_try (open_home h cid) (\<lambda>_.
          pv_bind (locked h (\<lambda>p. ((), persist h (p\<lparr>pv_credentials := pv_credentials p @
              [new_credential h p cid provider_id auth_method (trim label)]\<rparr>)))) (\<lambda>_.
          pv_bind (begin_login h cid command None spawned) (\<lambda>started.
            case started of
              Inr _ \<Rightarrow> pv_ret (Inr cid)
            | Inl refusal \<Rightarrow> pv_bind (mark h cid CredFailed) (\<lambda>_. pv_ret (Inl refusal)))))))))"

definition prepare_home :: "ProviderHost \<Rightarrow> string \<Rightarrow> (AuthorizationRefusal, unit) result pv" where
  "prepare_home h cid =
     pv_bind (look h (\<lambda>p. inspect (vh_kernel h) (vh_root h) cid (vh_me h) (pv_disk p))) (\<lambda>home.
       case home of
         HomeMissing \<Rightarrow> pv_try (open_home h cid) (\<lambda>_. pv_ret (Inr ()))
       | HomeInvalid \<Rightarrow> pv_ret (Inl (refused ''credential_home_unavailable''
           ''this credential's home on the Node is not one it may use''))
       | _ \<Rightarrow> pv_ret (Inr ()))"

definition reauthorization_facts :: "ProviderHost \<Rightarrow> string \<Rightarrow> (AuthorizationRefusal, Credential) result pv" where
  "reauthorization_facts h cid = look h (\<lambda>p.
     case get_credential cid (pv_credentials p) of
       None \<Rightarrow> Inl (refused ''credential_not_found'' ''this Node does not hold that credential'')
     | Some c \<Rightarrow>
         if cr_storage c \<noteq> StoreIsolated
         then Inl (refused ''credential_not_reauthorizable'' ''that credential is not one this Node can log in again'')
         else Inr c)"

definition reauthorize_credential ::
  "ProviderHost \<Rightarrow> string \<Rightarrow> string option \<Rightarrow> string \<Rightarrow> spawn \<Rightarrow> (AuthorizationRefusal, unit) result pv" where
  "reauthorize_credential h cid command nonce spawned =
     (if \<not> is_ok (validate_credential_id cid) then pv_ret (Inl (refused ''credential_id_invalid'' ''not a credential id''))
      else
        pv_try (reauthorization_facts h cid) (\<lambda>c.
        pv_try (none_in_flight h) (\<lambda>_.
        if \<not> reauthorizable (cr_state c)
        then pv_ret (Inl (refused ''credential_not_reauthorizable'' ''that credential is not in a state that can be logged in again''))
        else
          pv_try (look h (\<lambda>p. check_support (caps h p) (cr_provider_id c) (cr_auth_method c))) (\<lambda>_.
          pv_try (prepare_home h cid) (\<lambda>_.
          pv_try (on_disk h (\<lambda>e. refused ''credential_home_unavailable'' (vh_swap_text h e))
              (staging_create (vh_kernel h) (vh_me h) (vh_dir_mode h) nonce (vh_node_home h) (vh_me h))) (\<lambda>staging.
          pv_bind (mark h cid CredReauthorizing) (\<lambda>_.
          pv_bind (begin_login h cid command (Some staging) spawned) (\<lambda>started.
            case started of
              Inr _ \<Rightarrow> pv_ret (Inr ())
            | Inl refusal \<Rightarrow> pv_bind (settle_reauthorization_failure h cid) (\<lambda>_. pv_ret (Inl refusal))))))))))"

section \<open>What a replacement leads to\<close>

definition saturating_inc :: "64 word \<Rightarrow> 64 word" where
  "saturating_inc g = (if g = - 1 then g else g + 1)"

definition accept_reauthorization :: "ProviderHost \<Rightarrow> string \<Rightarrow> unit pv" where
  "accept_reauthorization h cid = locked h (\<lambda>p. ((), persist h (p\<lparr>pv_credentials := put_credential cid
     (\<lambda>c. c\<lparr>cr_generation := saturating_inc (cr_generation c), cr_state := CredAuthorized,
            cr_updated_at := vh_now h (pv_tick p)\<rparr>) (pv_credentials p)\<rparr>)))"

definition credential_facts :: "ProviderHost \<Rightarrow> string \<Rightarrow> (string \<times> string) option pv" where
  "credential_facts h cid = look h (\<lambda>p.
     map_option (\<lambda>c. (cr_provider_id c, cr_auth_method c)) (get_credential cid (pv_credentials p)))"

definition credential_generation :: "ProviderHost \<Rightarrow> string \<Rightarrow> 64 word option pv" where
  "credential_generation h cid = look h (\<lambda>p. map_option cr_generation (get_credential cid (pv_credentials p)))"

definition report_grant_dead :: "ProviderHost \<Rightarrow> string \<Rightarrow> 64 word \<Rightarrow> bool pv" where
  "report_grant_dead h cid generation = locked h (\<lambda>p.
     case get_credential cid (pv_credentials p) of
       None \<Rightarrow> (False, p)
     | Some c \<Rightarrow>
         if cr_generation c \<noteq> generation then (False, p)
         else if cr_state c \<in> {CredReauthorizing, CredAuthorizing} then (False, p)
         else if cr_state c = CredReauthorizationRequired then (False, p)
         else (True, persist h (set_state h cid CredReauthorizationRequired p)))"

section \<open>Cancelling, renaming, revoking\<close>

datatype cancel_error = CancelId id_error | LoginOfAnother

definition is_replacement :: "string \<Rightarrow> ProviderHost \<Rightarrow> bool pv" where
  "is_replacement cid h =
     pv_bind (look h (\<lambda>p. case pv_attempt p of Some a \<Rightarrow> at_reauth a \<noteq> None | None \<Rightarrow> False)) (\<lambda>by_attempt.
       if by_attempt then pv_ret True
       else look h (\<lambda>p. case get_credential cid (pv_credentials p) of Some c \<Rightarrow> cr_state c = CredReauthorizing | None \<Rightarrow> False))"

definition cancel_credential :: "ProviderHost \<Rightarrow> string \<Rightarrow> (cancel_error, unit) result pv" where
  "cancel_credential h cid =
     (case validate_credential_id cid of
        Inl e \<Rightarrow> pv_ret (Inl (CancelId e))
      | Inr _ \<Rightarrow>
          pv_try (look h (\<lambda>p. case pv_attempt p of
              Some a \<Rightarrow> if at_credential_id a = cid then Inr () else Inl LoginOfAnother
            | None \<Rightarrow> Inr ())) (\<lambda>_.
          pv_bind (is_replacement cid h) (\<lambda>replacing.
          pv_bind (abandon_attempt h) (\<lambda>_.
          pv_bind (after_failed_login h cid replacing) (\<lambda>_. pv_ret (Inr ()))))))"

datatype credential_error = CredentialId id_error | CredentialLabel label_error | NoSuchCredential | RuntimeRefused

definition rename_credential :: "ProviderHost \<Rightarrow> string \<Rightarrow> string \<Rightarrow> (credential_error, unit) result pv" where
  "rename_credential h cid label =
     (case validate_credential_id cid of
        Inl e \<Rightarrow> pv_ret (Inl (CredentialId e))
      | Inr _ \<Rightarrow>
          (case validate_label label of
             Inl e \<Rightarrow> pv_ret (Inl (CredentialLabel e))
           | Inr _ \<Rightarrow> locked h (\<lambda>p.
               case get_credential cid (pv_credentials p) of
                 None \<Rightarrow> (Inl NoSuchCredential, p)
               | Some _ \<Rightarrow> (Inr (), persist h (p\<lparr>pv_credentials := put_credential cid
                   (\<lambda>c. c\<lparr>cr_label := trim label, cr_updated_at := vh_now h (pv_tick p)\<rparr>) (pv_credentials p)\<rparr>)))))"

text \<open>\<open>removal\<close> is \<open>hermes auth remove\<close>: whether it succeeds, and the disk it leaves.\<close>

type_synonym removal = "string \<Rightarrow> string \<Rightarrow> string \<Rightarrow> disk \<Rightarrow> bool \<times> disk"

definition run_removal :: "ProviderHost \<Rightarrow> removal \<Rightarrow> string \<Rightarrow> string \<Rightarrow> string \<Rightarrow> (credential_error, unit) result pv" where
  "run_removal h removal hermes_home provider_id target = locked h (\<lambda>p.
     case removal hermes_home provider_id target (pv_disk p) of
       (succeeded, d) \<Rightarrow> (if succeeded then Inr () else Inl RuntimeRefused, p\<lparr>pv_disk := d\<rparr>))"

definition remove_material :: "ProviderHost \<Rightarrow> removal \<Rightarrow> Credential \<Rightarrow> string \<Rightarrow> (credential_error, unit) result pv" where
  "remove_material h removal c cid =
     (case cr_storage c of
        StoreLegacySharedPool \<Rightarrow>
          (case cr_pool_entry c of
             Some e \<Rightarrow> run_removal h removal (vh_hermes_home h) (cr_provider_id c) e
           | None \<Rightarrow> pv_ret (Inr ()))
      | StoreIsolated \<Rightarrow>
          pv_bind (look h (\<lambda>p. inspect (vh_kernel h) (vh_root h) cid (vh_me h) (pv_disk p))) (\<lambda>home.
            if home = HomeReady then
              (case credential_home (vh_root h) cid of
                 Inl e \<Rightarrow> pv_ret (Inl (CredentialId e))
               | Inr path \<Rightarrow> run_removal h removal path (cr_provider_id c) cid)
            else pv_ret (Inr ())))"

definition revoke_credential :: "ProviderHost \<Rightarrow> removal \<Rightarrow> string \<Rightarrow> (credential_error, unit) result pv" where
  "revoke_credential h removal cid =
     (case validate_credential_id cid of
        Inl e \<Rightarrow> pv_ret (Inl (CredentialId e))
      | Inr _ \<Rightarrow>
          pv_try (look h (\<lambda>p. ok_or NoSuchCredential (get_credential cid (pv_credentials p)))) (\<lambda>c.
          pv_bind (look h (\<lambda>p. case pv_attempt p of Some a \<Rightarrow> at_credential_id a = cid | None \<Rightarrow> False)) (\<lambda>mine.
          pv_bind (if mine then abandon_attempt h else pv_ret None) (\<lambda>_.
          pv_try (remove_material h removal c cid) (\<lambda>_.
          pv_bind (mark h cid CredRevoked) (\<lambda>_. pv_ret (Inr ())))))))"

section \<open>Delivering a code\<close>

definition delivery_sent :: "ProviderHost \<Rightarrow> string \<Rightarrow> string \<Rightarrow> nat \<Rightarrow> bool pv" where
  "delivery_sent h cid command deadline = locked h (\<lambda>p.
     case pv_attempt p of
       Some a \<Rightarrow>
         (case at_phase a of
            Waiting code delivery \<Rightarrow>
              if at_credential_id a = cid \<and> delivery = DeliveryPending
              then (True, p\<lparr>pv_attempt := Some (a\<lparr>at_phase := Waiting code (DeliverySent command deadline)\<rparr>)\<rparr>)
              else (False, p)
          | Producing \<Rightarrow> (False, p))
     | None \<Rightarrow> (False, p))"

definition sent_for :: "string \<Rightarrow> Delivery \<Rightarrow> bool" where
  "sent_for command delivery = (case delivery of DeliverySent sent _ \<Rightarrow> sent = command | _ \<Rightarrow> False)"

definition acknowledge_delivery :: "ProviderHost \<Rightarrow> string \<Rightarrow> bool pv" where
  "acknowledge_delivery h command = locked h (\<lambda>p.
     case pv_attempt p of
       Some a \<Rightarrow>
         (case at_phase a of
            Waiting code delivery \<Rightarrow>
              if sent_for command delivery
              then (True, p\<lparr>pv_attempt := Some (a\<lparr>at_phase := Waiting code DeliveryAcknowledged\<rparr>)\<rparr>)
              else (False, p)
          | Producing \<Rightarrow> (False, p))
     | None \<Rightarrow> (False, p))"

definition undelivered :: "bool \<Rightarrow> nat \<Rightarrow> Phase \<Rightarrow> bool" where
  "undelivered session_ended now phase =
     (case phase of
        Producing \<Rightarrow> session_ended
      | Waiting _ delivery \<Rightarrow>
          (case delivery of
             DeliveryAcknowledged \<Rightarrow> False
           | DeliveryPending \<Rightarrow> session_ended
           | DeliverySent _ deadline \<Rightarrow> session_ended \<or> now \<ge> deadline))"

definition cancel_undelivered :: "ProviderHost \<Rightarrow> bool \<Rightarrow> nat \<Rightarrow> string option pv" where
  "cancel_undelivered h session_ended now =
     pv_bind (look h (\<lambda>p. case pv_attempt p of
         Some a \<Rightarrow> if undelivered session_ended now (at_phase a) then Some (at_credential_id a) else None
       | None \<Rightarrow> None)) (\<lambda>found.
       case found of
         None \<Rightarrow> pv_ret None
       | Some cid \<Rightarrow> pv_bind (cancel_credential h cid) (\<lambda>r. pv_ret (case r of Inr _ \<Rightarrow> Some cid | Inl _ \<Rightarrow> None)))"

section \<open>Using a credential\<close>

record CredentialRefusal =
  cf_code :: string
  cf_message :: string

definition cred_refusal :: "string \<Rightarrow> string \<Rightarrow> CredentialRefusal" where
  "cred_refusal code message = \<lparr>cf_code = code, cf_message = message\<rparr>"

definition refuse_reauthorizing :: CredentialRefusal where
  "refuse_reauthorizing = cred_refusal ''credential_reauthorizing'' ''this credential is being logged in again; try this once it finishes''"

fun refuse_state :: "CredentialState \<Rightarrow> (CredentialRefusal, unit) result" where
  "refuse_state CredAuthorized = Inr ()"
| "refuse_state CredReauthorizing = Inl refuse_reauthorizing"
| "refuse_state CredReauthorizationRequired = Inl (cred_refusal ''credential_reauthorization_required''
     ''this credential's provider access has ended; authorize it again'')"
| "refuse_state CredRuntimeMissing = Inl (cred_refusal ''credential_runtime_missing''
     ''this Node's runtime holds nothing for this credential; authorize it again'')"
| "refuse_state _ = Inl (cred_refusal ''credential_not_authorized'' ''the credential is not authorized'')"

fun refuse_home :: "HomeState \<Rightarrow> (CredentialRefusal, unit) result" where
  "refuse_home HomeReady = Inr ()"
| "refuse_home HomeMissing = Inl (cred_refusal ''credential_home_missing'' ''the credential's home is missing on this Node'')"
| "refuse_home CredentialMissing = Inl (cred_refusal ''credential_unavailable'' ''the credential holds nothing; authorize it again'')"
| "refuse_home _ = Inl (cred_refusal ''credential_unreadable'' ''the credential's store is not in a state a worker may read'')"

definition usable :: "ProviderHost \<Rightarrow> string \<Rightarrow> (CredentialRefusal, string) result pv" where
  "usable h cid =
     (if \<not> is_ok (validate_credential_id cid) then pv_ret (Inl (cred_refusal ''credential_id_invalid'' ''that is not a credential id''))
      else
        pv_try (look h (\<lambda>p. ok_or (cred_refusal ''credential_not_found'' ''this Node holds no such credential'')
            (get_credential cid (pv_credentials p)))) (\<lambda>c.
        if cr_storage c \<noteq> StoreIsolated
        then pv_ret (Inl (cred_refusal ''credential_not_isolated'' ''a credential in the shared pool cannot be selected by a project''))
        else
          pv_bind (attempt_in_flight h) (\<lambda>in_flight.
          if in_flight = Some cid then pv_ret (Inl refuse_reauthorizing)
          else
            pv_try (pv_ret (refuse_state (cr_state c))) (\<lambda>_.
            pv_try (look h (\<lambda>p. if list_ex (\<lambda>v. pc_id v = cr_provider_id c \<and> pc_availability v = Available)
                (sn_providers (caps h p)) then Inr ()
              else Inl (cred_refusal ''credential_provider_unavailable'' ''this Node cannot currently reach the credential's provider''))) (\<lambda>_.
            pv_try (look h (\<lambda>p. refuse_home (inspect (vh_kernel h) (vh_root h) cid (vh_me h) (pv_disk p)))) (\<lambda>_.
              pv_ret (Inr (cr_provider_id c))))))))"

end
