(* ===== verification/Provider_Inv.thy ===== *)
theory Provider_Inv
  imports Provider
begin

text \<open>
  What the operations of \<open>src/src/provider.rs\<close> keep, however the node's tasks interleave
  at their locks: rows of the registry stay with their ids, generations do not fall,
  and a login in flight is the one it was or one started since.
\<close>

section \<open>Operations\<close>

definition found :: "ProviderHost \<Rightarrow> Provider \<Rightarrow> Provider" where
  "found h p = (vh_others h (pv_tick p) p)\<lparr>pv_tick := pv_tick p + 1\<rparr>"

text \<open>The process of a login ends.\<close>

definition login_ends :: "Provider \<Rightarrow> Provider" where
  "login_ends p = p\<lparr>pv_attempt := map_option (at_running_update (\<lambda>_. False)) (pv_attempt p)\<rparr>"

inductive provider_step :: "ProviderHost \<Rightarrow> Provider \<Rightarrow> Provider \<Rightarrow> bool" for h where
  st_ends: "provider_step h p (login_ends p)"
| st_code: "provider_step h p (snd (record_code h g cid code p))"
| st_nothing: "provider_step h p (snd (abandon_produced_nothing h g cid p))"
| st_cancel_all: "provider_step h p (snd (provider_cancel h p))"
| st_list: "provider_step h p (snd (list_credentials h listing p))"
| st_authorize: "provider_step h p (snd (authorize_credential h pid method label command cid spawned p))"
| st_reauthorize: "provider_step h p (snd (reauthorize_credential h cid command nonce spawned p))"
| st_take: "provider_step h p (snd (take_finished_reauthorization h p))"
| st_accept: "provider_step h p (snd (accept_reauthorization h cid p))"
| st_settle: "provider_step h p (snd (settle_reauthorization_failure h cid p))"
| st_report: "provider_step h p (snd (report_grant_dead h cid g p))"
| st_cancel: "provider_step h p (snd (cancel_credential h cid p))"
| st_rename: "provider_step h p (snd (rename_credential h cid label p))"
| st_revoke: "provider_step h p (snd (revoke_credential h removal cid p))"
| st_sent: "provider_step h p (snd (delivery_sent h cid command deadline p))"
| st_acknowledged: "provider_step h p (snd (acknowledge_delivery h command p))"
| st_undelivered: "provider_step h p (snd (cancel_undelivered h ended now p))"
| st_usable: "provider_step h p (snd (usable h cid p))"

section \<open>What no operation undoes\<close>

definition row_grows :: "Credential \<Rightarrow> Credential \<Rightarrow> bool" where
  "row_grows c c' \<longleftrightarrow> cr_id c = cr_id c' \<and> cr_generation c \<le> cr_generation c'"

definition creds_grow :: "Credential list \<Rightarrow> Credential list \<Rightarrow> bool" where
  "creds_grow cs cs' \<longleftrightarrow> length cs \<le> length cs' \<and> list_all2 row_grows cs (take (length cs) cs')"

text \<open>The same login, perhaps further on, or one started since.\<close>

definition same_login :: "Attempt \<Rightarrow> Attempt \<Rightarrow> bool" where
  "same_login a b \<longleftrightarrow> at_credential_id a = at_credential_id b \<and> at_generation a = at_generation b \<and>
     at_command_id a = at_command_id b \<and> at_reauth a = at_reauth b"

definition logins_move :: "Provider \<Rightarrow> Provider \<Rightarrow> bool" where
  "logins_move p q \<longleftrightarrow> pv_generation p \<le> pv_generation q \<and>
     (\<forall>b. pv_attempt q = Some b \<longrightarrow>
        (pv_generation p < at_generation b \<and> at_generation b \<le> pv_generation q) \<or>
        (\<exists>a. pv_attempt p = Some a \<and> same_login a b))"

definition provider_le :: "Provider \<Rightarrow> Provider \<Rightarrow> bool" where
  "provider_le p q \<longleftrightarrow> creds_grow (pv_credentials p) (pv_credentials q) \<and> logins_move p q"

text \<open>The other tasks are operations of the same provider, so they keep to the same order.\<close>

definition tame :: "ProviderHost \<Rightarrow> bool" where
  "tame h \<longleftrightarrow> (\<forall>n p. provider_le p (vh_others h n p))"

definition quiet :: "ProviderHost \<Rightarrow> bool" where
  "quiet h \<longleftrightarrow> (\<forall>n p. vh_others h n p = p)"

text \<open>A host with one login in flight and one credential.\<close>

definition demo_host :: ProviderHost where
  "demo_host =
     \<lparr>vh_kernel = (\<lambda>_ _. False), vh_codec = \<lparr>to_vec_pretty = (\<lambda>_. []), from_slice = (\<lambda>_. Some [])\<rparr>, vh_decoder = (\<lambda>_. None),
      vh_digest = (\<lambda>s. s), vh_torn = (\<lambda>_ c. c), vh_me = 7, vh_dir_mode = 448, vh_file_mode = 384,
      vh_node_home = ''/n'', vh_hermes_home = ''/n/h'', vh_hermes_binary = ''/b'', vh_release = ''1'',
      vh_home_text = (\<lambda>_. []), vh_swap_text = (\<lambda>_. []), vh_now = (\<lambda>n. n), vh_others = (\<lambda>_ p. p)\<rparr>"

definition demo_credential :: "CredentialState \<Rightarrow> Credential" where
  "demo_credential s =
     \<lparr>cr_id = ''cred-1'', cr_provider_id = ''openai-codex'', cr_auth_method = ''device_authorization'', cr_label = ''main'',
      cr_state = s, cr_storage = StoreIsolated, cr_pool_entry = None, cr_generation = 3, cr_created_at = 0, cr_updated_at = 0\<rparr>"

definition demo_provider :: "CredentialState \<Rightarrow> Provider" where
  "demo_provider s =
     \<lparr>pv_attempt = None, pv_credentials = [demo_credential s], pv_finished = None, pv_generation = 0,
      pv_disk = Map.empty, pv_tick = 0\<rparr>"


lemma saturating_inc_less: "g \<noteq> - 1 \<Longrightarrow> g < saturating_inc g"
proof -
  assume g: "g \<noteq> - 1"
  then have "1 + g \<noteq> 0" by (metis add_eq_0_iff add.commute)
  then have "unat (1 + g) = Suc (unat g)" by (rule unatSuc)
  then show ?thesis using g by (simp add: saturating_inc_def word_less_nat_alt add.commute)
qed

lemma saturating_inc_le: "g \<le> saturating_inc g"
  using saturating_inc_less [of g] by (cases "g = - 1") (auto simp: saturating_inc_def)

lemma row_grows_refl [simp]: "row_grows c c"
  by (simp add: row_grows_def)

lemma creds_grow_refl: "creds_grow cs cs"
  by (simp add: creds_grow_def list.rel_refl)

lemma row_grows_trans: "row_grows a b \<Longrightarrow> row_grows b c \<Longrightarrow> row_grows a c"
  by (auto simp: row_grows_def)

lemma creds_grow_trans: "creds_grow a b \<Longrightarrow> creds_grow b c \<Longrightarrow> creds_grow a c"
  unfolding creds_grow_def list_all2_conv_all_nth by (force intro: row_grows_trans)

lemma creds_grow_append: "creds_grow cs (cs @ xs)"
  by (simp add: creds_grow_def list.rel_refl)

lemma creds_grow_put: "(\<And>c. row_grows c (f c)) \<Longrightarrow> creds_grow cs (put_credential cid f cs)"
proof -
  assume f: "\<And>c. row_grows c (f c)"
  have "list_all2 row_grows cs (put_credential cid f cs)"
    unfolding put_credential_def by (induction cs) (auto simp: f list.rel_refl)
  then show ?thesis by (simp add: creds_grow_def list_all2_lengthD)
qed

lemma creds_grow_Cons: "creds_grow (c # cs) (c' # cs') \<longleftrightarrow> row_grows c c' \<and> creds_grow cs cs'"
  by (auto simp: creds_grow_def)

lemma creds_grow_pairs:
  "prefix (map (\<lambda>c. (cr_id c, cr_generation c)) cs) (map (\<lambda>c. (cr_id c, cr_generation c)) cs') \<Longrightarrow> creds_grow cs cs'"
proof (induction cs arbitrary: cs')
  case (Cons c cs)
  then show ?case by (cases cs') (simp_all add: creds_grow_Cons, simp add: row_grows_def)
qed (simp add: creds_grow_def)

lemma get_credential_append: "get_credential cid as = Some c \<Longrightarrow> get_credential cid (as @ bs) = Some c"
  unfolding get_credential_def by (induction as) (auto split: if_splits)

text \<open>The row an id names stays, and its generation does not fall.\<close>

lemma creds_grow_get:
  assumes "creds_grow cs cs'" "get_credential cid cs = Some c"
  shows "\<exists>c'. get_credential cid cs' = Some c' \<and> cr_generation c \<le> cr_generation c'"
proof -
  have "\<exists>c'. get_credential cid as = Some c' \<and> cr_generation c \<le> cr_generation c'"
    if "list_all2 row_grows cs as" "get_credential cid cs = Some c" for as
    using that unfolding get_credential_def by (induction rule: list_all2_induct) (auto simp: row_grows_def split: if_splits)
  with assms obtain c' where "get_credential cid (take (length cs) cs') = Some c'" "cr_generation c \<le> cr_generation c'"
    by (auto simp: creds_grow_def)
  then show ?thesis using get_credential_append [of cid "take (length cs) cs'" _ "drop (length cs) cs'"] by auto
qed

lemma reconcile_rows:
  assumes "reconcile digest pid pool now cs = (changed, cs')"
  shows "prefix (map (\<lambda>c. (cr_id c, cr_generation c)) cs) (map (\<lambda>c. (cr_id c, cr_generation c)) cs')"
proof -
  obtain ch cs1 where a: "adopt_pool digest pid now pool (False, cs) = (ch, cs1)"
    by (cases "adopt_pool digest pid now pool (False, cs)")
  then show ?thesis using adopt_rows [OF a] assms by (auto simp: reconcile_def o_def)
qed

section \<open>Orders kept by computations\<close>

text \<open>
  An order on providers that the other tasks keep to, and that every change an
  operation makes keeps to.
\<close>

locale provider_order =
  fixes h :: ProviderHost
    and R :: "Provider \<Rightarrow> Provider \<Rightarrow> bool"
  assumes R_refl: "R p p"
    and R_trans: "R p q \<Longrightarrow> R q r \<Longrightarrow> R p r"
    and R_found: "R p (found h p)"
    and R_creds: "creds_grow (pv_credentials p) cs \<Longrightarrow> R p (p\<lparr>pv_credentials := cs\<rparr>)"
    and R_disk: "R p (p\<lparr>pv_disk := d\<rparr>)"
    and R_finished: "R p (p\<lparr>pv_finished := f\<rparr>)"
    and R_none: "R p (p\<lparr>pv_attempt := None\<rparr>)"
    and R_same: "pv_attempt p = Some a \<Longrightarrow> same_login a b \<Longrightarrow> R p (p\<lparr>pv_attempt := Some b\<rparr>)"
    and R_next: "R p (p\<lparr>pv_generation := Suc (pv_generation p)\<rparr>)"
    and R_start: "at_generation b = Suc (pv_generation p) \<Longrightarrow> R p (p\<lparr>pv_generation := Suc (pv_generation p), pv_attempt := Some b\<rparr>)"
begin

definition kept :: "'a pv \<Rightarrow> bool" where
  "kept m \<longleftrightarrow> (\<forall>p. R p (snd (m p)))"

lemma keptD: "kept m \<Longrightarrow> R p (snd (m p))"
  by (simp add: kept_def)

lemma of_ret: "kept (pv_ret x)"
  by (simp add: kept_def pv_ret_def R_refl)

lemma of_bind: "kept m \<Longrightarrow> (\<And>x. kept (f x)) \<Longrightarrow> kept (pv_bind m f)"
  unfolding kept_def pv_bind_def by (metis R_trans case_prod_beta)

lemma of_try: "kept m \<Longrightarrow> (\<And>x. kept (f x)) \<Longrightarrow> kept (pv_try m f)"
  unfolding pv_try_def by (rule of_bind) (auto intro: of_ret split: sum.splits)

lemma of_locked: "(\<And>p. R p (snd (f p))) \<Longrightarrow> kept (locked h f)"
  unfolding kept_def locked_def found_def [symmetric] using R_found R_trans by blast

lemma of_look: "kept (look h f)"
  unfolding look_def by (rule of_locked) (simp add: R_refl)

lemmas of_steps = of_ret of_bind of_try of_look

lemma R_persist: "R p q \<Longrightarrow> R p (persist h q)"
  unfolding persist_def using R_disk R_trans by blast

lemma R_set_state: "R p q \<Longrightarrow> R p (set_state h cid s q)"
  unfolding set_state_def by (rule R_trans, assumption) (intro R_creds creds_grow_put, simp add: row_grows_def)

lemma R_drop_staging: "R p q \<Longrightarrow> R p (drop_staging h reauth q)"
  unfolding drop_staging_def by (auto split: option.splits intro: R_trans R_disk)

lemma R_drop_attempt: "R p q \<Longrightarrow> R p (drop_attempt h q)"
  unfolding drop_attempt_def by (auto split: option.splits intro: R_trans R_none R_drop_staging)

lemma R_next_login: "R p q \<Longrightarrow> R p (next_login q)"
  unfolding next_login_def by (auto intro: R_trans R_next)

lemma R_park: "R p q \<Longrightarrow> R p (park h a staging q)"
  unfolding park_def by (auto intro: R_trans R_finished R_drop_staging)

lemmas R_changes = R_refl R_persist R_set_state R_drop_staging R_drop_attempt R_next_login R_park

lemma of_mark: "kept (mark h cid s)"
  unfolding mark_def by (rule of_locked) (simp add: R_changes)

lemma of_runtime_state: "kept (runtime_state h cid)"
  unfolding runtime_state_def by (intro of_steps) (auto split: option.splits sum.splits intro: of_steps)

lemma of_settle_failure: "kept (settle_reauthorization_failure h cid)"
  unfolding settle_reauthorization_failure_def by (intro of_steps of_runtime_state of_mark)

lemma of_in_flight: "kept (attempt_in_flight h)"
  unfolding attempt_in_flight_def by (rule of_look)

lemma of_abandon: "kept (abandon_attempt h)"
  unfolding abandon_attempt_def by (rule of_locked) (simp add: R_changes split: option.splits)

lemma of_after_failed: "kept (after_failed_login h cid replacing)"
  unfolding after_failed_login_def by (simp add: of_settle_failure of_mark)

lemma of_begin_login: "kept (begin_login h cid command reauth spawned)"
  unfolding begin_login_def
proof (rule of_locked)
  fix p :: Provider
  let ?q = "drop_attempt h p"
  let ?b = "\<lparr>at_running = True, at_credential_id = cid, at_generation = Suc (pv_generation ?q), at_command_id = command,
      at_phase = Producing, at_reauth = reauth\<rparr>"
  have "R p (?q\<lparr>pv_generation := Suc (pv_generation ?q), pv_attempt := Some ?b\<rparr>)"
    by (rule R_trans [OF R_drop_attempt [OF R_refl]]) (rule R_start, simp)
  moreover have "R p (next_login ?q)" by (simp add: R_changes)
  ultimately show "R p (snd (if (case pv_attempt p of Some a \<Rightarrow> at_running a | None \<Rightarrow> False)
     then (Inl (in_progress (case pv_attempt p of Some a \<Rightarrow> at_credential_id a = cid | None \<Rightarrow> False)), drop_staging h reauth p)
     else
       let q = next_login (drop_attempt h p) in
       case spawned of
         SpawnFailed message \<Rightarrow> (Inl (auth_failed message), drop_staging h reauth q)
       | NoOutput \<Rightarrow> (Inl (auth_failed ''the provider CLI offered no output to read''), drop_staging h reauth q)
       | Spawned \<Rightarrow> (Inr (), q\<lparr>pv_attempt := Some
           \<lparr>at_running = True, at_credential_id = cid, at_generation = pv_generation q, at_command_id = command,
            at_phase = Producing, at_reauth = reauth\<rparr>\<rparr>)))"
    by (auto simp: Let_def R_changes next_login_def split: spawn.splits intro: R_drop_staging)
qed

lemma of_record_code: "kept (record_code h g cid code)"
  unfolding record_code_def
  by (rule of_locked) (auto simp: R_refl same_login_def split: option.splits intro: R_same)

lemma of_nothing: "kept (abandon_produced_nothing h g cid)"
  unfolding abandon_produced_nothing_def
  by (intro of_bind of_locked) (auto simp: R_changes split: option.splits intro: of_steps of_after_failed)

lemma of_provider_cancel: "kept (provider_cancel h)"
  unfolding provider_cancel_def provider_status_def by (intro of_steps of_abandon)

lemma of_settle_attempt: "kept (settle_attempt h)"
  unfolding settle_attempt_def
  by (rule of_locked) (auto simp: R_changes R_none Let_def split: option.splits intro: R_drop_staging R_park)

lemma of_take_finished: "kept (take_finished_reauthorization h)"
  unfolding take_finished_reauthorization_def settle_finished_reauthorization_def
  by (intro of_bind of_locked)
    (auto simp: R_changes R_none R_finished Let_def split: option.splits intro: R_drop_staging R_park)

lemma of_judge: "kept (judge h c)"
  unfolding judge_def by (auto split: prod.splits intro!: of_bind of_look of_runtime_state of_ret)

lemma of_verdicts: "kept (verdicts_of h cs)"
  by (induction cs) (auto intro!: of_steps of_judge simp del: if_split_asm split del: if_split)

lemma R_verdicts: "R p q \<Longrightarrow> apply_verdicts h vs (changed, q) = (changed', r) \<Longrightarrow> R p r"
proof (induction vs arbitrary: changed q)
  case (Cons v vs)
  then show ?case using Cons.IH [OF R_set_state [OF Cons.prems(1)]] by (cases v) (auto split: if_splits)
qed simp

lemma R_fail_finished: "R p q \<Longrightarrow> fail_finished h finished (changed, q) = (changed', r) \<Longrightarrow> R p r"
  by (auto simp: fail_finished_def R_set_state split: option.splits if_splits)

lemma of_reconcile_registry: "kept (reconcile_registry h pool vs finished)"
  unfolding reconcile_registry_def
proof (rule of_locked)
  fix p :: Provider
  obtain changed cs where r: "reconcile (vh_digest h) ''openai-codex'' pool (vh_now h (pv_tick p)) (pv_credentials p) = (changed, cs)"
    by (rule prod.exhaust)
  have "creds_grow (pv_credentials p) cs" by (rule creds_grow_pairs) (rule reconcile_rows [OF r])
  then have "R p (p\<lparr>pv_credentials := cs\<rparr>)" by (rule R_creds)
  moreover obtain c1 q1 where v: "apply_verdicts h vs (changed, p\<lparr>pv_credentials := cs\<rparr>) = (c1, q1)" by (rule prod.exhaust)
  moreover obtain c2 q2 where f: "fail_finished h finished (c1, q1) = (c2, q2)" by (rule prod.exhaust)
  ultimately have "R p q2" using R_verdicts R_fail_finished by blast
  then show "R p (snd (let (changed, cs) = reconcile (vh_digest h) ''openai-codex'' pool (vh_now h (pv_tick p)) (pv_credentials p);
       (changed, q) = fail_finished h finished (apply_verdicts h vs (changed, p\<lparr>pv_credentials := cs\<rparr>));
       r = (if changed then persist h q else q) in (summaries (pv_credentials r), r)))"
    by (simp add: r v f Let_def R_persist)
qed

lemma of_list: "kept (list_credentials h listing)"
  unfolding list_credentials_def Let_def
  by (intro of_bind of_settle_attempt of_in_flight of_look of_verdicts of_reconcile_registry)

lemma of_on_disk: "kept (on_disk h g m)"
  unfolding on_disk_def by (rule of_locked) (simp add: R_disk)

lemma of_none_in_flight: "kept (none_in_flight h)"
  unfolding none_in_flight_def by (intro of_steps of_in_flight)

lemma of_open_home: "kept (open_home h cid)"
  unfolding open_home_def by (rule of_on_disk)

lemma of_authorize: "kept (authorize_credential h provider_id method label command cid spawned)"
  unfolding authorize_credential_def refuse_if_def
  by (auto split: sum.splits intro!: of_steps of_none_in_flight of_open_home of_begin_login of_mark of_locked R_persist R_creds creds_grow_append)

lemma of_prepare_home: "kept (prepare_home h cid)"
  unfolding prepare_home_def by (intro of_bind of_look) (auto split: HomeState.splits intro: of_steps of_open_home)

lemma of_reauthorize: "kept (reauthorize_credential h cid command nonce spawned)"
  unfolding reauthorize_credential_def reauthorization_facts_def
  by (auto split: sum.splits intro!: of_steps of_none_in_flight of_prepare_home of_on_disk of_begin_login of_mark of_settle_failure)

lemma of_accept: "kept (accept_reauthorization h cid)"
  unfolding accept_reauthorization_def
  by (intro of_locked) (simp, intro R_persist R_creds creds_grow_put, simp add: row_grows_def saturating_inc_le)

lemma of_report: "kept (report_grant_dead h cid g)"
  unfolding report_grant_dead_def by (rule of_locked) (simp add: R_changes split: option.splits)

lemma of_cancel: "kept (cancel_credential h cid)"
  unfolding cancel_credential_def is_replacement_def
  by (auto split: sum.splits intro!: of_steps of_abandon of_after_failed)

lemma of_rename: "kept (rename_credential h cid label)"
  unfolding rename_credential_def
  by (auto split: sum.splits option.splits intro!: of_ret of_locked R_refl R_persist R_creds creds_grow_put simp: row_grows_def)

lemma of_remove: "kept (remove_material h removal c cid)"
  unfolding remove_material_def run_removal_def
  by (auto split: CredentialStorage.splits option.splits sum.splits prod.splits intro!: of_ret of_bind of_look of_locked R_disk)

lemma of_revoke: "kept (revoke_credential h removal cid)"
  unfolding revoke_credential_def
  by (auto split: sum.splits intro!: of_steps of_abandon of_remove of_mark)

lemma of_sent: "kept (delivery_sent h cid command deadline)"
  unfolding delivery_sent_def
  by (rule of_locked) (auto simp: R_refl same_login_def split: option.splits Phase.splits intro: R_same)

lemma of_acknowledge: "kept (acknowledge_delivery h command)"
  unfolding acknowledge_delivery_def
  by (rule of_locked) (auto simp: R_refl same_login_def split: option.splits Phase.splits intro: R_same)

lemma of_undelivered: "kept (cancel_undelivered h ended now)"
  unfolding cancel_undelivered_def by (intro of_bind of_look) (auto split: option.splits intro!: of_steps of_cancel)

lemma of_usable: "kept (usable h cid)"
  unfolding usable_def by (auto intro!: of_steps of_in_flight)

lemma R_ends: "R p (login_ends p)"
  by (cases "pv_attempt p") (auto simp: login_ends_def R_none same_login_def intro: R_same)

lemmas of_operations = of_record_code of_nothing of_provider_cancel of_list of_authorize of_reauthorize of_take_finished
  of_accept of_settle_failure of_report of_cancel of_rename of_revoke of_sent of_acknowledge of_undelivered of_usable

lemma of_step: "provider_step h p q \<Longrightarrow> R p q"
  by (induction rule: provider_step.induct) (auto intro: R_ends keptD of_operations)

lemma of_steps_taken: "(provider_step h)\<^sup>*\<^sup>* p q \<Longrightarrow> R p q"
  by (induction rule: rtranclp_induct) (auto intro: R_refl R_trans of_step)

end

lemma same_login_trans: "same_login a b \<Longrightarrow> same_login b c \<Longrightarrow> same_login a c"
  by (simp add: same_login_def)

lemma logins_move_trans: "logins_move p q \<Longrightarrow> logins_move q r \<Longrightarrow> logins_move p r"
  unfolding logins_move_def
proof (intro conjI allI impI; elim conjE)
  fix b assume g: "pv_generation p \<le> pv_generation q" "pv_generation q \<le> pv_generation r" and b: "pv_attempt r = Some b"
    and q: "\<forall>b. pv_attempt q = Some b \<longrightarrow> pv_generation p < at_generation b \<and> at_generation b \<le> pv_generation q \<or>
      (\<exists>a. pv_attempt p = Some a \<and> same_login a b)"
    and r: "\<forall>b. pv_attempt r = Some b \<longrightarrow> pv_generation q < at_generation b \<and> at_generation b \<le> pv_generation r \<or>
      (\<exists>a. pv_attempt q = Some a \<and> same_login a b)"
  show "pv_generation p < at_generation b \<and> at_generation b \<le> pv_generation r \<or> (\<exists>a. pv_attempt p = Some a \<and> same_login a b)"
  proof (cases "pv_generation q < at_generation b \<and> at_generation b \<le> pv_generation r")
    case False
    then obtain a where a: "pv_attempt q = Some a" "same_login a b" using r b by blast
    then show ?thesis using q g same_login_trans by (fastforce simp: same_login_def)
  qed (use g in auto)
qed simp

lemma provider_le_trans: "provider_le p q \<Longrightarrow> provider_le q r \<Longrightarrow> provider_le p r"
  unfolding provider_le_def by (blast intro: creds_grow_trans logins_move_trans)

lemma provider_le_refl: "provider_le p p"
  by (simp add: provider_le_def creds_grow_refl logins_move_def same_login_def)

lemma provider_le_found: "tame h \<Longrightarrow> provider_le p (found h p)"
  by (auto simp: tame_def found_def provider_le_def logins_move_def)

interpretation provider_moves: provider_order h "\<lambda>p q. tame h \<longrightarrow> provider_le p q" for h
proof
  show "tame h \<longrightarrow> provider_le p (found h p)" for p by (simp add: provider_le_found)
qed (auto simp: provider_le_refl provider_le_def logins_move_def creds_grow_refl same_login_def
  intro: creds_grow_trans logins_move_trans [unfolded logins_move_def, rule_format])

lemma demo_quiet: "quiet demo_host"
  by (simp add: quiet_def demo_host_def)

lemma demo_tame: "tame demo_host"
  using demo_quiet by (simp add: tame_def quiet_def provider_le_refl)

section \<open>Reports about material that was replaced\<close>

lemma get_put:
  "get_credential cid cs = Some c \<Longrightarrow> (\<And>c. cr_id (f c) = cr_id c) \<Longrightarrow> get_credential cid (put_credential cid f cs) = Some (f c)"
  unfolding get_credential_def put_credential_def by (induction cs) (auto split: if_splits)

lemma locked_found: "locked h f p = f (found h p)"
  by (simp add: locked_def found_def)

lemma grown_row:
  assumes "provider_le p q" "get_credential cid (pv_credentials p) = Some c"
  obtains c' where "get_credential cid (pv_credentials q) = Some c'" "cr_generation c \<le> cr_generation c'"
  using assms creds_grow_get unfolding provider_le_def by blast

lemma accepted_generation:
  assumes "tame h" "get_credential cid (pv_credentials p) = Some c" "g \<le> cr_generation c" "g \<noteq> - 1"
  obtains c' where "get_credential cid (pv_credentials (snd (accept_reauthorization h cid p))) = Some c'" "g < cr_generation c'"
proof -
  obtain c1 where c1: "get_credential cid (pv_credentials (found h p)) = Some c1" "cr_generation c \<le> cr_generation c1"
    using grown_row [OF provider_le_found [OF assms(1)] assms(2)] .
  have "g < saturating_inc (cr_generation c1)"
  proof (cases "cr_generation c1 = - 1")
    case True
    then show ?thesis using assms(4) word_n1_ge [of g] by (simp add: saturating_inc_def order_less_le)
  next
    case False
    then show ?thesis using saturating_inc_less c1(2) assms(3) by (meson order_le_less_trans order_trans)
  qed
  moreover have "get_credential cid (pv_credentials (snd (accept_reauthorization h cid p))) =
      Some (c1\<lparr>cr_generation := saturating_inc (cr_generation c1), cr_state := CredAuthorized, cr_updated_at := vh_now h (pv_tick (found h p))\<rparr>)"
    unfolding accept_reauthorization_def locked_found by (simp add: persist_def get_put [OF c1(1)])
  ultimately show ?thesis using that by simp
qed

text \<open>
  C37.  A run that started before a credential was given new material and only later
  reports its grant dead is ignored.  Whatever the node's tasks did before the replacement was
  accepted, and whatever they do between that and the report, the report finds a newer
  generation and leaves everything as it found it, so a working credential is not
  marked broken.
\<close>

theorem late_report_is_ignored:
  assumes "tame h"
    and "get_credential cid (pv_credentials p) = Some c" and "cr_generation c \<noteq> - 1"
    and "(provider_step h)\<^sup>*\<^sup>* p p1"
    and "(provider_step h)\<^sup>*\<^sup>* (snd (accept_reauthorization h cid p1)) p2"
  shows "report_grant_dead h cid (cr_generation c) p2 = (False, found h p2)"
proof -
  obtain c1 where c1: "get_credential cid (pv_credentials p1) = Some c1" "cr_generation c \<le> cr_generation c1"
    using grown_row provider_moves.of_steps_taken [OF assms(4)] assms(1,2) by blast
  obtain c2 where c2: "get_credential cid (pv_credentials (snd (accept_reauthorization h cid p1))) = Some c2"
      "cr_generation c < cr_generation c2"
    using accepted_generation [OF assms(1) c1 assms(3)] .
  have "provider_le (snd (accept_reauthorization h cid p1)) (found h p2)"
    using provider_moves.of_steps_taken [OF assms(5)] provider_le_found assms(1) provider_le_trans by blast
  then obtain c3 where "get_credential cid (pv_credentials (found h p2)) = Some c3" "cr_generation c2 \<le> cr_generation c3"
    using grown_row c2(1) by blast
  then show ?thesis unfolding report_grant_dead_def locked_found using c2(2) by auto
qed

theorem late_report_is_ignored_witness:
  "report_grant_dead demo_host ''cred-1'' 3 (snd (accept_reauthorization demo_host ''cred-1'' (demo_provider CredAuthorized))) =
     (False, found demo_host (snd (accept_reauthorization demo_host ''cred-1'' (demo_provider CredAuthorized))))"
  using late_report_is_ignored [of demo_host "''cred-1''" "demo_provider CredAuthorized" "demo_credential CredAuthorized", OF demo_tame _ _
      rtranclp.rtrancl_refl rtranclp.rtrancl_refl]
  by (simp add: demo_provider_def demo_credential_def get_credential_def)

section \<open>Logins that were cancelled\<close>

lemma counted_login:
  assumes "tame h" "(provider_step h)\<^sup>*\<^sup>* (provider_new h d) p" "pv_attempt (found h p) = Some a"
  shows "at_generation a \<le> pv_generation (found h p)"
proof -
  have "provider_le (provider_new h d) (found h p)"
    using provider_moves.of_steps_taken [OF assms(2)] provider_le_found assms(1) provider_le_trans by blast
  then show ?thesis using assms(3) by (auto simp: provider_le_def logins_move_def provider_new_def)
qed

lemma pv_generation_drop [simp]: "pv_generation (drop_attempt h p) = pv_generation p" "pv_attempt (drop_attempt h p) = None"
  by (auto simp: drop_attempt_def drop_staging_def split: option.splits)


lemma demo_login:
  "pv_attempt (found demo_host (snd (authorize_credential demo_host ''openai-codex'' ''device_authorization'' ''main'' None ''cred-1'' Spawned
      (provider_new demo_host [''/b'' \<mapsto> \<lparr>i_node = File ''x'', i_uid = 0, i_mode = 493\<rparr>])))) =
   Some \<lparr>at_running = True, at_credential_id = ''cred-1'', at_generation = 1, at_command_id = None, at_phase = Producing, at_reauth = None\<rparr>"
  by code_simp


section \<open>Cancelling what is not in flight\<close>

lemma found_quiet: "quiet h \<Longrightarrow> found h p = p\<lparr>pv_tick := pv_tick p + 1\<rparr>"
  by (simp add: quiet_def found_def)

text \<open>
  C39.  Cancelling the login of a credential that has none in flight still answers that it was
  cancelled, and marks the credential failed whatever it was.  An authorized one is then
  refused to its projects, and a revoked one can be logged in again, although a
  revoked credential is not to be brought back.
\<close>

theorem cancel_reopens_a_credential:
  assumes "quiet h" and "validate_credential_id cid = Inr ()" and "pv_attempt p = None"
    and "get_credential cid (pv_credentials p) = Some c" and "cr_state c \<noteq> CredReauthorizing"
  shows "\<exists>q c'. cancel_credential h cid p = (Inr (), q) \<and> get_credential cid (pv_credentials q) = Some c' \<and>
    cr_state c' = CredFailed \<and> reauthorizable (cr_state c') \<and> refuse_state (cr_state c') \<noteq> Inr ()"
proof -
  let ?p = "p\<lparr>pv_tick := pv_tick p + 1 + 1 + 1 + 1\<rparr>"
  have "cancel_credential h cid p = (Inr (), snd (mark h cid CredFailed ?p))"
    using assms unfolding cancel_credential_def is_replacement_def look_def abandon_attempt_def pv_try_def pv_bind_def locked_found
    by (simp add: found_quiet pv_ret_def after_failed_login_def split: prod.splits)
  moreover have "get_credential cid (pv_credentials (snd (mark h cid CredFailed ?p))) =
      Some (c\<lparr>cr_state := CredFailed, cr_updated_at := vh_now h (pv_tick ?p + 1)\<rparr>)"
    unfolding mark_def locked_found by (simp add: found_quiet [OF assms(1)] persist_def set_state_def get_put [OF assms(4)])
  ultimately show ?thesis by (simp add: reauthorizable_def)
qed

theorem cancel_reopens_a_credential_witness:
  "\<exists>q c'. cancel_credential demo_host ''cred-1'' (demo_provider CredRevoked) = (Inr (), q) \<and>
     get_credential ''cred-1'' (pv_credentials q) = Some c' \<and>
     cr_state c' = CredFailed \<and> reauthorizable (cr_state c') \<and> refuse_state (cr_state c') \<noteq> Inr ()"
proof (rule cancel_reopens_a_credential [OF demo_quiet, where c = "demo_credential CredRevoked"])
  show "validate_credential_id ''cred-1'' = Inr ()" by code_simp
qed (simp_all add: demo_provider_def demo_credential_def get_credential_def)

end
