(* ===== verification/Service.thy ===== *)
theory Service
  imports Runner_Inv Provider Profiles Config_Policy
begin

text \<open>
  \<open>src/src/service.rs\<close>: the operations a node offers, over its registry, its projects, its
  provider and the workers it supervises.  Other tasks act before each lock is taken
  (\<open>nh_others\<close>); while a lock is held only the workers still reach the registry, through
  connections of their own (\<open>en_others\<close>).  What Hermes answers, the clock and fresh ids are
  arguments.
\<close>

definition EVENT_APPROVAL_DECISION :: string where "EVENT_APPROVAL_DECISION = ''asterism.approval.decision''"
definition EVENT_CANCEL_REQUESTED :: string where "EVENT_CANCEL_REQUESTED = ''asterism.cancel.requested''"
definition EVENT_RETRY_CREATED :: string where "EVENT_RETRY_CREATED = ''asterism.retry.created''"
definition EVENT_RETRY_OF :: string where "EVENT_RETRY_OF = ''asterism.retry.of''"
definition EVENT_RUN_APPROVAL_POLICY_CHANGED :: string where
  "EVENT_RUN_APPROVAL_POLICY_CHANGED = ''run.approval_policy.changed''"
definition PERSISTENT_APPROVAL_NOT_SUPPORTED :: string where
  "PERSISTENT_APPROVAL_NOT_SUPPORTED = ''persistent_approval_not_supported''"
definition IDEMPOTENCY_CONFLICT_CODE :: string where "IDEMPOTENCY_CONFLICT_CODE = ''idempotency_conflict''"

section \<open>Errors\<close>

datatype internal_cause = FromRunner runner_error | FromInventory inventory_error

datatype ServiceError =
    SvcBadRequest string string
  | SvcNotFound string string
  | SvcConflict string string
  | SvcGone string string
  | SvcUnprocessable string string
  | SvcUnavailable string string
  | SvcInternal internal_cause

fun service_code :: "ServiceError \<Rightarrow> string" where
  "service_code (SvcBadRequest code _) = code"
| "service_code (SvcNotFound code _) = code"
| "service_code (SvcConflict code _) = code"
| "service_code (SvcGone code _) = code"
| "service_code (SvcUnprocessable code _) = code"
| "service_code (SvcUnavailable code _) = code"
| "service_code (SvcInternal _) = ''internal_error''"

fun service_status :: "ServiceError \<Rightarrow> nat" where
  "service_status (SvcBadRequest _ _) = 400"
| "service_status (SvcNotFound _ _) = 404"
| "service_status (SvcConflict _ _) = 409"
| "service_status (SvcGone _ _) = 410"
| "service_status (SvcUnprocessable _ _) = 422"
| "service_status (SvcUnavailable _ _) = 503"
| "service_status (SvcInternal _) = 500"

fun public_message :: "ServiceError \<Rightarrow> string" where
  "public_message (SvcBadRequest _ message) = message"
| "public_message (SvcNotFound _ message) = message"
| "public_message (SvcConflict _ message) = message"
| "public_message (SvcGone _ message) = message"
| "public_message (SvcUnprocessable _ message) = message"
| "public_message (SvcUnavailable _ message) = message"
| "public_message (SvcInternal _) = ''internal node error; see the daemon log''"

definition not_found :: "string \<Rightarrow> string \<Rightarrow> ServiceError" where
  "not_found kind i =
     SvcNotFound (if kind = ''project'' then ''project_not_found'' else ''run_not_found'') (''unknown '' @ kind @ '' '' @ i)"

definition idempotency_message :: "string \<Rightarrow> string \<Rightarrow> string \<Rightarrow> string" where
  "idempotency_message pid key existing =
     ''idempotency key '' @ quoted key @ '' for project '' @ pid @ '' was already used by run '' @ existing @ '' with a different request''"

definition transition_message :: "InvalidTransition \<Rightarrow> string" where
  "transition_message t = ''invalid run transition '' @ run_status_as_str (it_from t) @ '' -> '' @ run_status_as_str (it_to t)"

fun from_runner :: "runner_error \<Rightarrow> ServiceError" where
  "from_runner (RegistryFailed (IdempotencyConflict pid key existing)) =
     SvcConflict IDEMPOTENCY_CONFLICT_CODE (idempotency_message pid key existing)"
| "from_runner (RegistryFailed (BadTransition t)) = SvcConflict ''invalid_transition'' (transition_message t)"
| "from_runner e = SvcInternal (FromRunner e)"

section \<open>State\<close>

record Limits =
  max_request_bytes :: nat
  max_events_per_query :: int
  stream_page_size :: int
  max_connections :: nat
  max_followers_per_run :: nat
  heartbeat_seconds :: nat
  history_max_turns :: nat
  history_max_bytes :: nat

definition limits_for_node :: Limits where
  "limits_for_node =
     \<lparr>max_request_bytes = 256 * 1024, max_events_per_query = 5000, stream_page_size = 256, max_connections = 64,
      max_followers_per_run = 8, heartbeat_seconds = 15, history_max_turns = DEFAULT_MAX_TURNS,
      history_max_bytes = DEFAULT_MAX_BYTES\<rparr>"

text \<open>A worker under supervision, with the credential it uses and the generation that had when it began.\<close>

record Supervised =
  su_context :: WorkerContext
  su_watched :: "(string \<times> 64 word) option"

record Node =
  nd_reg :: Registry
  nd_projects :: projects
  nd_dirs :: "string \<Rightarrow> Project_Dir"
  nd_provider :: Provider
  nd_changing :: "string list"
  nd_workers :: "Supervised list"
  nd_draining :: bool
  nd_tick :: nat

record NodeHost =
  nh_env :: Env
  nh_provider :: ProviderHost
  nh_state_root :: string
  nh_api_key :: string
  nh_limits :: Limits
  nh_fresh :: "nat \<Rightarrow> string"
  nh_key_text :: "key_error \<Rightarrow> string"
  nh_stop :: "nat \<Rightarrow> string \<Rightarrow> http_answer"
  nh_resolve :: "nat \<Rightarrow> string \<Rightarrow> string \<Rightarrow> http_answer"
  nh_others :: "nat \<Rightarrow> Node \<Rightarrow> Node"

abbreviation nh_codec :: "NodeHost \<Rightarrow> codec" where "nh_codec h \<equiv> en_codec (nh_env h)"
abbreviation nh_kernel :: "NodeHost \<Rightarrow> kernel" where "nh_kernel h \<equiv> vh_kernel (nh_provider h)"
abbreviation nd_disk :: "Node \<Rightarrow> disk" where "nd_disk n \<equiv> pv_disk (nd_provider n)"

section \<open>Computations\<close>

type_synonym ('e, 'a) nop = "Node \<Rightarrow> ('e, 'a) result \<times> Node"
type_synonym 'a sv = "(ServiceError, 'a) nop"

definition sv_ok :: "'a \<Rightarrow> ('e, 'a) nop" where
  "sv_ok x = (\<lambda>n. (Inr x, n))"

definition sv_err :: "'e \<Rightarrow> ('e, 'a) nop" where
  "sv_err e = (\<lambda>n. (Inl e, n))"

definition sv_bind :: "('e, 'a) nop \<Rightarrow> ('a \<Rightarrow> ('e, 'b) nop) \<Rightarrow> ('e, 'b) nop" where
  "sv_bind m f = (\<lambda>n. case m n of (Inl e, n') \<Rightarrow> (Inl e, n') | (Inr x, n') \<Rightarrow> f x n')"

definition sv_map_err :: "('e \<Rightarrow> 'f) \<Rightarrow> ('e, 'a) nop \<Rightarrow> ('f, 'a) nop" where
  "sv_map_err g m = (\<lambda>n. case m n of (r, n') \<Rightarrow> (map_sum g id r, n'))"

definition sv_see :: "(Node \<Rightarrow> ('e, 'a) result) \<Rightarrow> ('e, 'a) nop" where
  "sv_see f = (\<lambda>n. (f n, n))"

text \<open>Taking a lock of the service, after whatever other tasks did.\<close>

definition arrive :: "NodeHost \<Rightarrow> Node \<Rightarrow> Node" where
  "arrive h n = (nh_others h (nd_tick n) n)\<lparr>nd_tick := nd_tick n + 1\<rparr>"

definition enter :: "NodeHost \<Rightarrow> ('e, 'a) nop \<Rightarrow> ('e, 'a) nop" where
  "enter h m = (\<lambda>n. m (arrive h n))"

text \<open>A call on the registry, after what the workers wrote to it.\<close>

definition reg_call :: "NodeHost \<Rightarrow> ((nat \<Rightarrow> int) \<Rightarrow> Registry \<Rightarrow> (registry_error, 'a \<times> Registry) result) \<Rightarrow> (runner_error, 'a) nop" where
  "reg_call h f = (\<lambda>n.
     let reg = en_others (nh_env h) (nd_tick n) (nd_reg n);
         n1 = n\<lparr>nd_reg := reg, nd_tick := nd_tick n + 1\<rparr>
     in case f (en_now (nh_env h) (nd_tick n)) reg of
          Inl e \<Rightarrow> (Inl (RegistryFailed e), n1)
        | Inr (x, reg') \<Rightarrow> (Inr x, n1\<lparr>nd_reg := reg'\<rparr>))"

definition reg_look :: "NodeHost \<Rightarrow> (Registry \<Rightarrow> 'a) \<Rightarrow> (runner_error, 'a) nop" where
  "reg_look h f = reg_call h (\<lambda>_ reg. Inr (f reg, reg))"

text \<open>The \<open>?\<close> of the service on a result of the registry, and \<open>map_err(ServiceError::Internal)\<close>.\<close>

definition lifted :: "(runner_error, 'a) nop \<Rightarrow> 'a sv" where
  "lifted m = sv_map_err from_runner m"

definition internal :: "(runner_error, 'a) nop \<Rightarrow> 'a sv" where
  "internal m = sv_map_err (\<lambda>e. SvcInternal (FromRunner e)) m"

definition append_node :: "NodeHost \<Rightarrow> string \<Rightarrow> string \<Rightarrow> json \<Rightarrow> (runner_error, AppendOutcome) nop" where
  "append_node h rid event_type payload =
     reg_call h (\<lambda>now reg. append_event (nh_codec h) now rid (journal_asterism event_type payload) None reg)"

definition on_provider :: "'a pv \<Rightarrow> ('e, 'a) nop" where
  "on_provider m = (\<lambda>n. case m (nd_provider n) of (x, p) \<Rightarrow> (Inr x, n\<lparr>nd_provider := p\<rparr>))"

definition project_of :: "NodeHost \<Rightarrow> string \<Rightarrow> (ServiceError, RegisteredProject option) nop" where
  "project_of h pid = sv_see (\<lambda>n. map_sum (\<lambda>e. SvcInternal (FromInventory e)) id (project (nh_codec h) pid (nd_projects n)))"

section \<open>Identifiers and ownership\<close>

fun identifier_message :: "identifier_error \<Rightarrow> string" where
  "identifier_message (BadLength field) = field @ '' must be 1..=128 characters''"
| "identifier_message (BadCharacter field) = field @ '' may only contain ASCII letters, digits, '-', '_' and '' @ [CHR 0x27, CHR ''.'', CHR 0x27]"
| "identifier_message (HasDotDot field) = field @ '' must not contain '' @ [CHR 0x27] @ ''..'' @ [CHR 0x27]"

definition check_identifier :: "string \<Rightarrow> string \<Rightarrow> unit sv" where
  "check_identifier field v =
     (case validate_identifier field v of
        Inl e \<Rightarrow> sv_err (SvcBadRequest ''invalid_identifier'' (identifier_message e))
      | Inr _ \<Rightarrow> sv_ok ())"

definition load_owned :: "NodeHost \<Rightarrow> string \<Rightarrow> string \<Rightarrow> RunRecord sv" where
  "load_owned h pid rid =
     sv_bind (check_identifier ''project_id'' pid) (\<lambda>_.
     sv_bind (check_identifier ''run_id'' rid) (\<lambda>_.
     sv_bind (internal (reg_look h (load_run (nh_codec h) rid))) (\<lambda>found.
       case found of
         None \<Rightarrow> sv_err (not_found ''run'' rid)
       | Some r \<Rightarrow> if project_id r \<noteq> pid then sv_err (not_found ''run'' rid) else sv_ok r)))"

section \<open>Reaching a worker\<close>

definition worker_api_key :: "NodeHost \<Rightarrow> string option \<Rightarrow> string sv" where
  "worker_api_key h reference =
     (case reference of
        None \<Rightarrow> sv_ok (nh_api_key h)
      | Some path \<Rightarrow>
          if path = [] then sv_ok (nh_api_key h)
          else sv_see (\<lambda>n. map_sum (\<lambda>e. SvcUnavailable ''project_profile_unavailable''
              (''cannot read the worker credential for this project: '' @ nh_key_text h e)) id
            (read_worker_key (nh_kernel h) path (vh_me (nh_provider h)) (nd_disk n))))"

definition project_runtime :: "NodeHost \<Rightarrow> string \<Rightarrow> (string \<times> string) sv" where
  "project_runtime h pid =
     sv_bind (enter h (sv_see (\<lambda>n. Inr (case project (nh_codec h) pid (nd_projects n) of Inr (Some p) \<Rightarrow> Some p | _ \<Rightarrow> None)))) (\<lambda>found.
       case found of
         None \<Rightarrow> sv_err (SvcUnavailable ''project_not_registered'' (''project '' @ pid @ '' is not registered on this Node''))
       | Some p \<Rightarrow>
           if \<not> rp_is_enabled p then sv_err (SvcUnavailable ''project_disabled'' (''project '' @ pid @ '' is disabled''))
           else if \<not> runnable (rp_profile_state p)
           then sv_err (SvcUnavailable ''project_profile_unavailable''
             (''project '' @ pid @ '' is '' @ profile_as_str (rp_profile_state p) @ '' and cannot accept runs''))
           else (case rp_runtime_endpoint p of
               None \<Rightarrow> sv_err (SvcUnavailable ''project_profile_unavailable'' (''project '' @ pid @ '' has no Hermes worker endpoint''))
             | Some endpoint \<Rightarrow> sv_bind (worker_api_key h (rp_hermes_api_key_ref p)) (\<lambda>key. sv_ok (endpoint, key))))"

definition client_for :: "NodeHost \<Rightarrow> string \<Rightarrow> HermesClient sv" where
  "client_for h pid =
     sv_bind (project_runtime h pid) (\<lambda>(base_url, key).
       case hermes_new base_url key of
         Inl e \<Rightarrow> sv_err (SvcUnavailable ''hermes_unavailable''
           (''cannot address the Hermes endpoint: '' @ en_text (nh_env h) (HermesFailed e)))
       | Inr client \<Rightarrow> sv_ok client)"

text \<open>\<open>detect_runtime_kind\<close> reads the configuration below the state root.\<close>

definition detect_runtime_kind :: "NodeHost \<Rightarrow> string \<Rightarrow> Node \<Rightarrow> string" where
  "detect_runtime_kind h pid n =
     (let path = path_join (path_join (path_join (nh_state_root h) pid) ''hermes'') ''config.yaml'' in
      case read_runtime_configuration (ok (read_file (nh_kernel h) path (nd_disk n))) of
        Inr config \<Rightarrow> if uses_native_codex config then ''codex-app-server'' else ''hermes-loop''
      | Inl _ \<Rightarrow> ''hermes-loop'')"

section \<open>Credentials of a project\<close>

text \<open>What is decided under the registry lock.\<close>

definition begin_section :: "NodeHost \<Rightarrow> string \<Rightarrow> (string, unit) nop" where
  "begin_section h pid =
     sv_bind (sv_map_err (\<lambda>_. ''project_state_unreadable'') (reg_look h (active_runs (nh_codec h) pid))) (\<lambda>active n.
       if pid \<in> set (nd_changing n) then (Inl ''credential_assignment_in_progress'', n)
       else if active \<noteq> [] then (Inl ''project_runs_active'', n)
       else (Inr (), n\<lparr>nd_changing := pid # nd_changing n\<rparr>))"

definition begin_credential_change :: "NodeHost \<Rightarrow> string \<Rightarrow> (string, unit) nop" where
  "begin_credential_change h pid = enter h (begin_section h pid)"

definition end_credential_change :: "NodeHost \<Rightarrow> string \<Rightarrow> (ServiceError, unit) nop" where
  "end_credential_change h pid = enter h (\<lambda>n. (Inr (), n\<lparr>nd_changing := removeAll pid (nd_changing n)\<rparr>))"

definition credential_usable_for_run :: "NodeHost \<Rightarrow> string \<Rightarrow> string option sv" where
  "credential_usable_for_run h pid =
     sv_bind (enter h (project_of h pid)) (\<lambda>found.
       case Option.bind found rp_credential_id of
         None \<Rightarrow> sv_ok None
       | Some cid \<Rightarrow>
           sv_bind (on_provider (usable (nh_provider h) cid)) (\<lambda>answer.
             case answer of
               Inl refusal \<Rightarrow> sv_err (SvcConflict (cf_code refusal) (cf_message refusal))
             | Inr _ \<Rightarrow> sv_ok (Some cid)))"

definition linked_to :: "NodeHost \<Rightarrow> RegisteredProject \<Rightarrow> string \<Rightarrow> Node \<Rightarrow> bool" where
  "linked_to h p cid n =
     (case rp_hermes_home p of
        None \<Rightarrow> False
      | Some home \<Rightarrow> classify_link (nh_kernel h) (path_join home CREDENTIAL_FILE) (vh_root (nh_provider h))
          (shared_pool (nh_provider h)) (nd_disk n) = Isolated cid)"

definition credential_run_guard :: "NodeHost \<Rightarrow> string \<Rightarrow> string option \<Rightarrow> unit sv" where
  "credential_run_guard h pid checked =
     sv_bind (project_of h pid) (\<lambda>found. sv_see (\<lambda>n.
       let assigned = Option.bind found rp_credential_id in
       if Option.bind found rp_suspended_at \<noteq> None
       then Inl (SvcConflict ''project_suspended'' ''this project is in Trash; restore it before starting work'')
       else if pid \<in> set (nd_changing n) \<or> assigned \<noteq> checked
       then Inl (SvcConflict ''credential_assignment_in_progress''
         ''this project's credential is being changed; send this again when it finishes'')
       else (case (found, assigned) of
           (Some p, Some cid) \<Rightarrow>
             if linked_to h p cid n then Inr ()
             else Inl (SvcConflict ''credential_link_invalid'' ''this project's worker is not linked to its assigned credential'')
         | _ \<Rightarrow> Inr ())))"

datatype revoke_error = RevokeId id_error | CredentialInUse nat | ProviderFailed credential_error

definition service_credential_revoke :: "NodeHost \<Rightarrow> removal \<Rightarrow> string \<Rightarrow> (revoke_error, unit) nop" where
  "service_credential_revoke h removal cid =
     (case validate_credential_id cid of
        Inl e \<Rightarrow> sv_err (RevokeId e)
      | Inr _ \<Rightarrow>
          sv_bind (enter h (sv_see (\<lambda>n. Inr (projects_using_credential cid (nd_projects n))))) (\<lambda>in_use.
            if in_use \<noteq> [] then sv_err (CredentialInUse (length in_use))
            else sv_bind (on_provider (revoke_credential (nh_provider h) removal cid)) (\<lambda>r.
              case r of Inl e \<Rightarrow> sv_err (ProviderFailed e) | Inr _ \<Rightarrow> sv_ok ())))"

section \<open>Supervision\<close>

text \<open>The credential the run is about to use, and the generation of its material.\<close>

definition watched_credential :: "NodeHost \<Rightarrow> string \<Rightarrow> ('e, (string \<times> 64 word) option) nop" where
  "watched_credential h pid =
     sv_bind (enter h (sv_see (\<lambda>n. Inr (case project (nh_codec h) pid (nd_projects n) of
         Inr (Some p) \<Rightarrow> rp_credential_id p | _ \<Rightarrow> None)))) (\<lambda>cid.
       case cid of
         None \<Rightarrow> sv_ok None
       | Some i \<Rightarrow> sv_bind (on_provider (credential_generation (nh_provider h) i)) (\<lambda>g. sv_ok (map_option (Pair i) g)))"

definition is_supervised :: "string \<Rightarrow> Node \<Rightarrow> bool" where
  "is_supervised rid n \<longleftrightarrow> rid \<in> wc_run_id ` su_context ` set (nd_workers n)"

definition supervise :: "NodeHost \<Rightarrow> string \<Rightarrow> string \<Rightarrow> ('e, unit) nop" where
  "supervise h pid rid = (\<lambda>n.
     case project_runtime h pid n of
       (Inl _, n1) \<Rightarrow> (Inr (), n1)
     | (Inr (base_url, key), n1) \<Rightarrow> enter h (\<lambda>n2.
         if is_supervised rid n2 then (Inr (), n2)
         else
           let ctx = \<lparr>wc_project_id = pid, wc_run_id = rid, wc_base_url = base_url, wc_api_key = key,
                 wc_history_limits = \<lparr>max_turns = history_max_turns (nh_limits h), max_bytes = history_max_bytes (nh_limits h)\<rparr>\<rparr>
           in sv_bind (watched_credential h pid) (\<lambda>watched n3.
                (Inr (), n3\<lparr>nd_workers := filter (\<lambda>s. wc_run_id (su_context s) \<noteq> rid) (nd_workers n3) @ [\<lparr>su_context = ctx, su_watched = watched\<rparr>]\<rparr>)) n2) n1)"

definition reconcile_credential_after_run :: "NodeHost \<Rightarrow> string \<Rightarrow> 64 word \<Rightarrow> ('e, unit) nop" where
  "reconcile_credential_after_run h cid generation =
     sv_bind (on_provider (runtime_state (nh_provider h) cid)) (\<lambda>s.
       if s \<noteq> CredReauthorizationRequired then sv_ok ()
       else sv_bind (on_provider (report_grant_dead (nh_provider h) cid generation)) (\<lambda>_. sv_ok ()))"

text \<open>What the spawned task does when the worker has ended.\<close>

definition worker_ended :: "NodeHost \<Rightarrow> Supervised \<Rightarrow> ('e, unit) nop" where
  "worker_ended h su =
     sv_bind (case su_watched su of
         Some (cid, generation) \<Rightarrow> reconcile_credential_after_run h cid generation
       | None \<Rightarrow> sv_ok ()) (\<lambda>_.
     enter h (\<lambda>n. (Inr (), n\<lparr>nd_workers := filter (\<lambda>s. wc_run_id (su_context s) \<noteq> wc_run_id (su_context su)) (nd_workers n)\<rparr>)))"

definition begin_drain :: "NodeHost \<Rightarrow> ('e, unit) nop" where
  "begin_drain h = enter h (\<lambda>n. (Inr (), n\<lparr>nd_draining := True\<rparr>))"

section \<open>Creating runs\<close>

record CreateRun =
  cn_input :: string
  cn_session_id :: "string option"
  cn_instructions :: "string option"
  cn_idempotency_key :: "string option"
  cn_approval_policy :: "RunApprovalPolicy option"
  cn_actor :: "string option"
  cn_attachments :: "Attachment list"

record RunCreated =
  rn_run :: RunRecord
  rn_idempotent_replay :: bool

definition refuse_draining :: "NodeHost \<Rightarrow> unit sv" where
  "refuse_draining h = enter h (sv_see (\<lambda>n.
     if nd_draining n then Inl (SvcUnavailable ''node_draining'' ''the node is shutting down and is not accepting new runs'') else Inr ()))"

definition create_payload :: "CreateRun \<Rightarrow> json" where
  "create_payload req = json_object
     [(''input'', JString (cn_input req)), (''instructions'', json_of_opt (cn_instructions req)),
      (''attachments'', JArray (map attachment_json (cn_attachments req)))]"

definition insert_run :: "NodeHost \<Rightarrow> NewRun \<Rightarrow> RunCreation sv" where
  "insert_run h request = (\<lambda>n. lifted (reg_call h (\<lambda>now reg.
     create_run (nh_codec h) (now 0) (nh_fresh h (nd_tick n)) request reg)) n)"

text \<open>The section in which a run is created: the guard and the insertion, under one lock.\<close>

definition admit_run :: "NodeHost \<Rightarrow> string \<Rightarrow> string option \<Rightarrow> (string option \<Rightarrow> NewRun) \<Rightarrow> RunCreation sv" where
  "admit_run h pid checked request =
     sv_bind (credential_run_guard h pid checked) (\<lambda>_.
     sv_bind (project_of h pid) (\<lambda>found. insert_run h (request (Option.bind found rp_model))))"

definition policy_payload :: "string \<Rightarrow> RunApprovalPolicy \<Rightarrow> string option \<Rightarrow> (string \<times> json) list" where
  "policy_payload rid policy actor =
     [(''run_id'', JString rid), (''policy'', JString (policy_as_str policy)), (''actor'', json_of_opt actor)]"

definition start_trusted :: "NodeHost \<Rightarrow> string \<Rightarrow> CreateRun \<Rightarrow> unit sv" where
  "start_trusted h rid req =
     (case cn_approval_policy req of
        None \<Rightarrow> sv_ok ()
      | Some policy \<Rightarrow>
          if \<not> bypasses_approval policy then sv_ok ()
          else enter h (
            sv_bind (lifted (reg_call h (\<lambda>now reg. set_run_approval_policy (nh_codec h) (now 0) rid policy (cn_actor req) reg))) (\<lambda>changed.
              if changed then sv_bind (lifted (append_node h rid EVENT_RUN_APPROVAL_POLICY_CHANGED
                  (json_object (policy_payload rid policy (cn_actor req) @ [(''source'', JString ''run_creation'')])))) (\<lambda>_. sv_ok ())
              else sv_ok ())))"

definition service_create_run :: "NodeHost \<Rightarrow> string \<Rightarrow> CreateRun \<Rightarrow> RunCreated sv" where
  "service_create_run h pid req =
     sv_bind (check_identifier ''project_id'' pid) (\<lambda>_.
     if trim (cn_input req) = [] then sv_err (SvcUnprocessable ''empty_input'' ''input must not be empty'')
     else
       sv_bind (refuse_draining h) (\<lambda>_.
       sv_bind (sv_see (\<lambda>n. Inr (detect_runtime_kind h pid n))) (\<lambda>kind.
       sv_bind (credential_usable_for_run h pid) (\<lambda>checked.
       sv_bind (enter h (admit_run h pid checked (\<lambda>model.
           \<lparr>n_project_id = pid, n_session_id = cn_session_id req, n_idempotency_key = cn_idempotency_key req,
            n_runtime_kind = kind, n_provider = None, n_model = model, n_request_payload = create_payload req,
            n_retry_of_run_id = None\<rparr>))) (\<lambda>creation.
       let r = creation_record creation in
       sv_bind (if creation_is_new creation then start_trusted h (run_id r) req else sv_ok ()) (\<lambda>_.
       sv_bind (if creation_is_new creation then supervise h pid (run_id r) else sv_ok ()) (\<lambda>_.
         sv_ok \<lparr>rn_run = r, rn_idempotent_replay = \<not> creation_is_new creation\<rparr>)))))))"

section \<open>Reading\<close>

definition clamp :: "int \<Rightarrow> int \<Rightarrow> int \<Rightarrow> int" where
  "clamp lo hi x = (if x < lo then lo else if x > hi then hi else x)"

definition service_list_runs :: "NodeHost \<Rightarrow> string \<Rightarrow> int \<Rightarrow> RunRecord list sv" where
  "service_list_runs h pid n =
     sv_bind (check_identifier ''project_id'' pid) (\<lambda>_.
       enter h (lifted (reg_look h (list_runs (nh_codec h) pid (clamp 1 (max_events_per_query (nh_limits h)) n)))))"

definition service_get_run :: "NodeHost \<Rightarrow> string \<Rightarrow> string \<Rightarrow> RunRecord sv" where
  "service_get_run h pid rid =
     sv_bind (check_identifier ''project_id'' pid) (\<lambda>_.
     sv_bind (check_identifier ''run_id'' rid) (\<lambda>_. enter h (load_owned h pid rid)))"

definition approval_json :: "codec \<Rightarrow> ApprovalRow \<Rightarrow> json" where
  "approval_json cdc a = json_object
     [(''run_id'', JString (a_run_id a)), (''request_seq'', json_of_int (a_request_seq a)),
      (''requested_at'', json_of_int (a_requested_at a)), (''command'', json_of_opt (a_command a)),
      (''choices'', json_of_value_opt (Option.bind (a_choices a) (from_str cdc))), (''decision'', json_of_opt (a_decision a)),
      (''decided_at'', json_of_value_opt (map_option json_of_int (a_decided_at a))),
      (''resolution_seq'', json_of_value_opt (map_option json_of_int (a_resolution_seq a)))]"

definition service_approvals :: "NodeHost \<Rightarrow> string \<Rightarrow> string \<Rightarrow> json sv" where
  "service_approvals h pid rid = enter h (
     sv_bind (load_owned h pid rid) (\<lambda>r.
     sv_bind (lifted (reg_look h (approvals (run_id r)))) (\<lambda>rows. sv_ok (JArray (map (approval_json (nh_codec h)) rows)))))"

definition service_events :: "NodeHost \<Rightarrow> string \<Rightarrow> string \<Rightarrow> int \<Rightarrow> int \<Rightarrow> StoredEvent list sv" where
  "service_events h pid rid since_seq n =
     sv_bind (check_identifier ''project_id'' pid) (\<lambda>_.
     sv_bind (check_identifier ''run_id'' rid) (\<lambda>_.
     if since_seq < 0 then sv_err (SvcBadRequest ''invalid_cursor'' ''since_seq must not be negative'')
     else enter h (
       sv_bind (load_owned h pid rid) (\<lambda>r.
         lifted (reg_look h (events_since (nh_codec h) (run_id r) since_seq (clamp 1 (max_events_per_query (nh_limits h)) n)))))))"

definition status_or_internal :: "RunRecord \<Rightarrow> RunStatus sv" where
  "status_or_internal r =
     (case record_status r of Inl e \<Rightarrow> sv_err (SvcInternal (FromRunner (StatusFailed e))) | Inr s \<Rightarrow> sv_ok s)"

definition stream_page :: "NodeHost \<Rightarrow> string \<Rightarrow> int \<Rightarrow> (StoredEvent list \<times> RunStatus) sv" where
  "stream_page h rid after_seq = enter h (
     sv_bind (lifted (reg_look h (load_run (nh_codec h) rid))) (\<lambda>found.
       case found of
         None \<Rightarrow> sv_err (not_found ''run'' rid)
       | Some r \<Rightarrow>
           sv_bind (lifted (reg_look h (events_since (nh_codec h) rid after_seq (stream_page_size (nh_limits h))))) (\<lambda>evs.
           sv_bind (status_or_internal r) (\<lambda>s. sv_ok (evs, s)))))"

section \<open>Approvals\<close>

definition service_set_run_approval_policy ::
  "NodeHost \<Rightarrow> string \<Rightarrow> string \<Rightarrow> RunApprovalPolicy \<Rightarrow> string option \<Rightarrow> json sv" where
  "service_set_run_approval_policy h pid rid policy actor = enter h (
     sv_bind (load_owned h pid rid) (\<lambda>r.
     if (case record_status r of Inr s \<Rightarrow> is_terminal s | Inl _ \<Rightarrow> False)
     then sv_err (SvcConflict ''run_not_active'' ''this run has finished; its approval policy can no longer change'')
     else
       sv_bind (sv_map_err (\<lambda>e. SvcConflict ''run_not_active'' (en_text (nh_env h) e))
         (reg_call h (\<lambda>now reg. set_run_approval_policy (nh_codec h) (now 0) (run_id r) policy actor reg))) (\<lambda>changed.
       sv_bind (if changed then sv_bind (internal (append_node h (run_id r) EVENT_RUN_APPROVAL_POLICY_CHANGED
             (json_object (policy_payload (run_id r) policy actor)))) (\<lambda>_. sv_ok ())
           else sv_ok ()) (\<lambda>_.
       sv_bind (internal (reg_call h (\<lambda>_ reg. map_sum id (\<lambda>st. (st, reg)) (run_approval_policy (run_id r) reg)))) (\<lambda>st.
         sv_ok (json_object
           [(''run_id'', JString (run_id r)), (''approval_policy'', JString (policy_as_str (rp_policy st))),
            (''enabled_by'', json_of_opt (rp_enabled_by st)),
            (''enabled_at'', json_of_value_opt (map_option json_of_int (rp_enabled_at st))), (''changed'', JBool changed)]))))))"

text \<open>The answer of Hermes as it is journalled, and the refusal when there was none.\<close>

definition answer_json :: "NodeHost \<Rightarrow> (hermes_error, json) result \<Rightarrow> json" where
  "answer_json h r =
     (case r of
        Inr v \<Rightarrow> v
      | Inl e \<Rightarrow> json_object [(''error'', JString (en_text (nh_env h) (HermesFailed e)))])"

definition persistent_message :: string where
  "persistent_message =
     ''persistent approvals are unavailable: Hermes would record this as a permanent command_allowlist rule that Asterism cannot yet display or revoke. Use ''
     @ quoted ''once'' @ '' or '' @ quoted ''session'' @ ''.''"

definition forward_decision :: "NodeHost \<Rightarrow> RunRecord \<Rightarrow> string \<Rightarrow> int \<Rightarrow> string \<Rightarrow> json sv" where
  "forward_decision h r hid request_seq choice = (\<lambda>n.
     let response = resolve_approval (nh_codec h) (nh_resolve h (nd_tick n) hid choice) in
     sv_bind (lifted (append_node h (run_id r) EVENT_APPROVAL_DECISION
         (json_object [(''choice'', JString choice), (''response'', answer_json h response)]))) (\<lambda>outcome.
     sv_bind (lifted (reg_call h (\<lambda>_ reg. Inr ((), record_approval_resolution (run_id r) request_seq (outcome_seq outcome) reg)))) (\<lambda>_.
       case response of
         Inl e \<Rightarrow> sv_err (SvcUnavailable ''hermes_unavailable''
           (''the decision was recorded but the backend rejected it: '' @ en_text (nh_env h) (HermesFailed e)))
       | Inr _ \<Rightarrow> sv_ok (json_object
           [(''run_id'', JString (run_id r)), (''approval_id'', json_of_int request_seq), (''choice'', JString choice),
            (''applied'', JBool True)]))) n)"

definition service_resolve_approval :: "NodeHost \<Rightarrow> string \<Rightarrow> string \<Rightarrow> string \<Rightarrow> json sv" where
  "service_resolve_approval h pid rid choice =
     (if choice = ''always'' then sv_err (SvcUnprocessable PERSISTENT_APPROVAL_NOT_SUPPORTED persistent_message)
      else if choice \<notin> {''once'', ''session'', ''deny''}
      then sv_err (SvcUnprocessable ''invalid_choice'' (''unsupported approval choice '' @ quoted choice))
      else
        sv_bind (client_for h pid) (\<lambda>_. enter h (
        sv_bind (load_owned h pid rid) (\<lambda>r.
        sv_bind (lifted (reg_look h (pending_approval (run_id r)))) (\<lambda>pending.
          case pending of
            None \<Rightarrow> sv_err (SvcConflict ''no_pending_approval'' ''this run has no approval waiting for a decision'')
          | Some a \<Rightarrow>
              (case hermes_run_id r of
                 None \<Rightarrow> sv_err (SvcGone ''backend_run_missing'' ''this run was never submitted to a backend'')
               | Some hid \<Rightarrow>
                   sv_bind (lifted (reg_call h (\<lambda>now reg. Inr (record_approval_decision (now 0) (run_id r) (a_request_seq a) choice reg)))) (\<lambda>claimed.
                     if \<not> claimed then sv_err (SvcConflict ''approval_already_resolved'' ''a decision was already recorded for this approval'')
                     else forward_decision h r hid (a_request_seq a) choice)))))))"

section \<open>Cancelling and retrying\<close>

definition cancel_unsubmitted :: "NodeHost \<Rightarrow> RunRecord \<Rightarrow> json sv" where
  "cancel_unsubmitted h r =
     sv_bind (lifted (reg_call h (\<lambda>now reg. update_run (nh_codec h) (now 0) (run_id r)
         (with_terminal_reason ''cancelled before submission to a backend'' (update_status Cancelled)) reg))) (\<lambda>updated.
       sv_ok (json_object [(''run_id'', JString (run_id updated)), (''status'', JString (status updated)), (''cancel_requested'', JBool True)]))"

definition stop_submitted :: "NodeHost \<Rightarrow> RunRecord \<Rightarrow> string \<Rightarrow> json sv" where
  "stop_submitted h r hid = (\<lambda>n.
     let payload = answer_json h (stop_run (nh_codec h) (nh_stop h (nd_tick n) hid)) in
     sv_bind (lifted (append_node h (run_id r) ''asterism.cancel.response'' payload)) (\<lambda>_.
       sv_ok (json_object [(''run_id'', JString (run_id r)), (''cancel_requested'', JBool True), (''backend_response'', payload)])) n)"

definition service_cancel_run :: "NodeHost \<Rightarrow> string \<Rightarrow> string \<Rightarrow> json sv" where
  "service_cancel_run h pid rid =
     sv_bind (client_for h pid) (\<lambda>_. enter h (
     sv_bind (load_owned h pid rid) (\<lambda>r.
     sv_bind (status_or_internal r) (\<lambda>s.
       if is_terminal s then sv_ok (json_object
         [(''run_id'', JString (run_id r)), (''status'', JString (status r)), (''cancel_requested'', JBool False),
          (''note'', JString ''run already reached a terminal state'')])
       else
         sv_bind (lifted (append_node h (run_id r) EVENT_CANCEL_REQUESTED
             (json_object [(''requested_status'', JString (run_status_as_str s))]))) (\<lambda>_.
           case hermes_run_id r of
             None \<Rightarrow> cancel_unsubmitted h r
           | Some hid \<Rightarrow> stop_submitted h r hid)))))"

definition retry_payload :: "json \<Rightarrow> json" where
  "retry_payload original = json_object
     [(''input'', json_of_value_opt (json_get ''input'' original)),
      (''instructions'', json_of_value_opt (json_get ''instructions'' original)),
      (''attachments'', json_of_value_opt (json_get ''attachments'' original))]"

definition check_retryable :: "RunRecord \<Rightarrow> RunStatus \<Rightarrow> unit sv" where
  "check_retryable r s =
     (if \<not> is_terminal s
      then sv_err (SvcConflict ''run_active'' (''run '' @ run_id r @ '' is '' @ run_status_as_str s @ '' and cannot be retried''))
      else if \<not> is_retryable s
      then sv_err (SvcConflict ''run_not_retryable''
        (''run '' @ run_id r @ '' ended as '' @ run_status_as_str s @ ''; only interrupted or lost runs may be retried''))
      else sv_ok ())"

definition replace_run :: "NodeHost \<Rightarrow> string \<Rightarrow> string \<Rightarrow> string option \<Rightarrow> (RunRecord \<times> RunRecord) sv" where
  "replace_run h pid rid checked =
     sv_bind (load_owned h pid rid) (\<lambda>r.
     sv_bind (status_or_internal r) (\<lambda>s.
     sv_bind (check_retryable r s) (\<lambda>_.
     sv_bind (credential_run_guard h pid checked) (\<lambda>_.
     sv_bind (insert_run h \<lparr>n_project_id = pid, n_session_id = session_id r, n_idempotency_key = None,
         n_runtime_kind = runtime_kind r, n_provider = provider r, n_model = model r,
         n_request_payload = retry_payload (request_payload r), n_retry_of_run_id = Some (run_id r)\<rparr>) (\<lambda>creation.
     let replacement = creation_record creation in
     sv_bind (lifted (append_node h (run_id r) EVENT_RETRY_CREATED
         (json_object [(''replacement_run_id'', JString (run_id replacement))]))) (\<lambda>_.
     sv_bind (lifted (append_node h (run_id replacement) EVENT_RETRY_OF
         (json_object [(''original_run_id'', JString (run_id r)), (''original_status'', JString (status r))]))) (\<lambda>_.
       sv_ok (r, replacement))))))))"

definition service_retry_run :: "NodeHost \<Rightarrow> string \<Rightarrow> string \<Rightarrow> RunCreated sv" where
  "service_retry_run h pid rid =
     sv_bind (refuse_draining h) (\<lambda>_.
     sv_bind (credential_usable_for_run h pid) (\<lambda>checked.
     sv_bind (enter h (replace_run h pid rid checked)) (\<lambda>(_, replacement).
     sv_bind (supervise h pid (run_id replacement)) (\<lambda>_.
       sv_ok \<lparr>rn_run = replacement, rn_idempotent_replay = False\<rparr>))))"

section \<open>Reconciliation\<close>

text \<open>\<open>reconcile_project\<close> of the runner, on a connection of its own.\<close>

definition run_reconcile :: "NodeHost \<Rightarrow> string \<Rightarrow> (runner_error, Reconciliation list) nop" where
  "run_reconcile h pid = (\<lambda>n.
     case reconcile_project (nh_env h) pid
         \<lparr>w_reg = nd_reg n, w_dir = nd_dirs n pid, w_tick = nd_tick n, w_posts = [], w_spawned = []\<rparr> of
       (r, w) \<Rightarrow> (r, n\<lparr>nd_reg := w_reg w, nd_dirs := (nd_dirs n)(pid := w_dir w), nd_tick := w_tick w\<rparr>))"

definition resumable :: "RunRecord \<Rightarrow> bool" where
  "resumable r \<longleftrightarrow> hermes_run_id r \<noteq> None \<and> record_status r \<in> {Inr Running, Inr WaitingForApproval}"

definition reconciliation_json :: "Reconciliation \<Rightarrow> json" where
  "reconciliation_json o' = json_object
     [(''run_id'', JString (rc_run_id o')), (''previous_status'', JString (rc_previous_status o')),
      (''new_status'', JString (rc_new_status o')), (''note'', JString (rc_note o'))]"

definition service_reconcile :: "NodeHost \<Rightarrow> string \<Rightarrow> json list sv" where
  "service_reconcile h pid =
     sv_bind (check_identifier ''project_id'' pid) (\<lambda>_.
     sv_bind (client_for h pid) (\<lambda>_.
     sv_bind (enter h (internal (run_reconcile h pid))) (\<lambda>outcomes.
     sv_bind (enter h (lifted (reg_look h (active_runs (nh_codec h) pid)))) (\<lambda>active.
     sv_bind (case filter resumable active of r # _ \<Rightarrow> supervise h pid (run_id r) | [] \<Rightarrow> sv_ok ()) (\<lambda>_.
       sv_ok (map reconciliation_json outcomes))))))"

record ProjectActivity =
  pa_project_id :: string
  pa_active_run_id :: "string option"
  pa_active_status :: "string option"

definition project_activity :: "NodeHost \<Rightarrow> string \<Rightarrow> ProjectActivity sv" where
  "project_activity h pid =
     sv_bind (check_identifier ''project_id'' pid) (\<lambda>_.
     sv_bind (enter h (lifted (reg_look h (active_runs (nh_codec h) pid)))) (\<lambda>active.
       sv_ok \<lparr>pa_project_id = pid, pa_active_run_id = map_option run_id (find (\<lambda>_. True) active),
              pa_active_status = map_option status (find (\<lambda>_. True) active)\<rparr>))"

definition is_busy :: "ProjectActivity \<Rightarrow> bool" where
  "is_busy a \<longleftrightarrow> pa_active_run_id a \<noteq> None"

end
