(* ===== verification/Service_Inv.thy ===== *)
theory Service_Inv
  imports Service
begin

text \<open>
  What the service guarantees across its operations: while the credential of a project
  changes no run of the project is in flight, and a run is visible only inside its project.
\<close>

section \<open>Registries in which no run of a project begins\<close>

definition live_row :: "RunRow \<Rightarrow> bool" where
  "live_row r \<longleftrightarrow> (case run_status_parse (r_status r) of Inr s \<Rightarrow> is_active s | Inl _ \<Rightarrow> False)"

abbreviation run_keys :: "string \<Rightarrow> Registry \<Rightarrow> (string \<times> int) list" where
  "run_keys pid reg \<equiv> map (\<lambda>r. (r_run_id r, r_created_at r)) (filter (\<lambda>r. r_project_id r = pid) (runs reg))"

definition row_stays :: "Registry \<Rightarrow> Registry \<Rightarrow> string \<Rightarrow> bool" where
  "row_stays reg reg' rid \<longleftrightarrow>
     (case run_row rid reg of
        None \<Rightarrow> True
      | Some r \<Rightarrow> (case run_row rid reg' of None \<Rightarrow> False | Some r' \<Rightarrow> live_row r' \<longrightarrow> live_row r))"

definition no_new_run :: "string \<Rightarrow> Registry \<Rightarrow> Registry \<Rightarrow> bool" where
  "no_new_run pid reg reg' \<longleftrightarrow> run_keys pid reg' = run_keys pid reg \<and> (\<forall>rid. row_stays reg reg' rid)"

lemma no_new_run_refl [simp]: "no_new_run pid reg reg"
  by (simp add: no_new_run_def row_stays_def split: option.splits)

lemma row_stays_trans: "row_stays a b rid \<Longrightarrow> row_stays b c rid \<Longrightarrow> row_stays a c rid"
  by (cases "run_row rid a"; cases "run_row rid b"; cases "run_row rid c") (auto simp: row_stays_def)

lemma no_new_run_trans: "no_new_run pid a b \<Longrightarrow> no_new_run pid b c \<Longrightarrow> no_new_run pid a c"
  unfolding no_new_run_def using row_stays_trans by metis

lemma insort_key_map: "insort_key f (g x) (map g xs) = map g (insort_key (\<lambda>y. f (g y)) x xs)"
  by (induction xs) auto

lemma sort_key_map: "sort_key f (map g xs) = map g (sort_key (\<lambda>y. f (g y)) xs)"
  by (induction xs) (auto simp: insort_key_map)

lemma listed_ids:
  "map r_run_id (sql_limit k (rev (sort_key r_created_at (filter (\<lambda>r. r_project_id r = pid) (runs reg))))) =
     map fst (sql_limit k (rev (sort_key snd (run_keys pid reg))))"
  by (simp add: sql_limit_def sort_key_map rev_map take_map)

lemma active_runs_none:
  "active_runs cdc pid reg = [] \<longleftrightarrow>
     (\<forall>rid \<in> set (map fst (sql_limit 1000 (rev (sort_key snd (run_keys pid reg))))).
        case run_row rid reg of None \<Rightarrow> True | Some r \<Rightarrow> \<not> live_row r)"
  unfolding active_runs_def list_runs_def listed_ids Let_def
  by (auto simp: filter_empty_conv List.map_filter_def load_run_def record_status_def map_run_def live_row_def
      split: option.splits)

lemma set_sql_limit: "set (sql_limit k xs) \<subseteq> set xs"
  by (auto simp: sql_limit_def dest: in_set_takeD)

lemma no_new_run_idle:
  assumes "no_new_run pid reg reg'" and "active_runs cdc pid reg = []"
  shows "active_runs cdc pid reg' = []"
proof -
  have keys: "run_keys pid reg' = run_keys pid reg" and rows: "\<And>rid. row_stays reg reg' rid"
    using assms(1) by (simp_all add: no_new_run_def)
  have "case run_row rid reg' of None \<Rightarrow> True | Some r \<Rightarrow> \<not> live_row r"
    if "rid \<in> set (map fst (sql_limit 1000 (rev (sort_key snd (run_keys pid reg)))))" for rid
  proof -
    have "rid \<in> r_run_id ` set (runs reg)" using that set_sql_limit by fastforce
    then have "run_row rid reg \<noteq> None" by (simp add: run_row_None)
    moreover have "case run_row rid reg of None \<Rightarrow> True | Some r \<Rightarrow> \<not> live_row r"
      using assms(2) that by (simp only: active_runs_none)
    ultimately show ?thesis using rows [of rid] by (auto simp: row_stays_def split: option.splits)
  qed
  then show ?thesis unfolding active_runs_none keys by blast
qed

subsection \<open>The operations that begin no run\<close>

lemma no_new_run_upd_run:
  assumes "keeps_identity f" and "\<And>r. run_row rid reg = Some r \<Longrightarrow> live_row (f r) \<Longrightarrow> live_row r"
  shows "no_new_run pid reg (upd_run rid f reg)"
proof -
  have "map (\<lambda>r. (r_run_id r, r_created_at r)) (filter (\<lambda>r. r_project_id r = pid) (update_where p f t)) =
      map (\<lambda>r. (r_run_id r, r_created_at r)) (filter (\<lambda>r. r_project_id r = pid) t)" for p t
    using assms(1) by (induction t) (auto simp: update_where_def keeps_identity_def)
  moreover have "row_stays reg (upd_run rid f reg) i" for i
    using assms(2) run_row_upd_run [OF assms(1), of i rid "runs reg"] row_by_SomeD [of r_run_id i "runs reg"]
    by (cases "run_row i reg") (auto simp: row_stays_def)
  ultimately show ?thesis by (simp add: no_new_run_def)
qed

lemma no_new_run_same_runs: "runs reg' = runs reg \<Longrightarrow> no_new_run pid reg reg'"
  by (simp add: no_new_run_def row_stays_def split: option.splits)

lemma no_new_run_apply_update: "apply_update cdc now rid u reg = Inr reg' \<Longrightarrow> no_new_run pid reg reg'"
  by (auto simp: apply_update_Inr live_row_def updated_row_def is_active_def is_ok_iff validate_transition_terminal
      run_status.parse_as_str intro!: no_new_run_upd_run split: sum.splits if_splits option.splits)

lemma no_new_run_insert_event: "no_new_run pid reg (insert_event cdc now rid k ev reg)"
proof -
  have "no_new_run pid reg (upd_run rid (bump now k) reg)"
    by (rule no_new_run_upd_run [OF keeps_identity_bump]) (simp add: live_row_def)
  then show ?thesis
    unfolding insert_event_upd by (rule no_new_run_trans) (simp add: no_new_run_same_runs)
qed

lemma no_new_run_append: "append_event cdc now rid ev upd reg = Inr (x, reg') \<Longrightarrow> no_new_run pid reg reg'"
  by (auto simp: append_event_Inr no_new_run_insert_event split: option.splits
      intro: no_new_run_trans [OF no_new_run_insert_event no_new_run_apply_update])

lemma no_new_run_update: "update_run cdc now rid u reg = Inr (x, reg') \<Longrightarrow> no_new_run pid reg reg'"
  by (rule no_new_run_apply_update [OF update_run_apply])

lemma no_new_run_policy:
  "set_run_approval_policy cdc now rid policy actor reg = Inr (b, reg') \<Longrightarrow> no_new_run pid reg reg'"
  by (auto simp: set_policy_Inr live_row_def policy_row_def intro!: no_new_run_upd_run keeps_identity_policy_row)

lemma no_new_run_decision: "record_approval_decision now rid k d reg = (b, reg') \<Longrightarrow> no_new_run pid reg reg'"
  by (auto simp: record_approval_decision_def intro: no_new_run_same_runs)

lemma no_new_run_resolution: "no_new_run pid reg (record_approval_resolution rid k m reg)"
  by (simp add: record_approval_resolution_def no_new_run_same_runs)

lemma no_new_run_request:
  "record_approval_request cdc now rid k command choices reg = Inr reg' \<Longrightarrow> no_new_run pid reg reg'"
  by (auto simp: record_approval_request_def intro: no_new_run_same_runs split: if_splits)

lemma no_new_run_create:
  assumes "create_run cdc now fresh request reg = Inr (c, reg')" and "n_project_id request \<noteq> pid"
  shows "no_new_run pid reg reg'"
  using assms(1)
proof (cases rule: create_run_cases)
  case fresh
  then show ?thesis
    using assms(2) by (auto simp: no_new_run_def row_stays_def row_by_append split: option.splits)
qed simp

section \<open>Workers begin no run\<close>

definition calm_workers :: "Env \<Rightarrow> bool" where
  "calm_workers env \<longleftrightarrow> (\<forall>t reg pid. no_new_run pid reg (en_others env t reg))"

definition begins_no_run :: "Env \<Rightarrow> World \<Rightarrow> World \<Rightarrow> bool" where
  "begins_no_run env w w' \<longleftrightarrow> (calm_workers env \<longrightarrow> (\<forall>pid. no_new_run pid (w_reg w) (w_reg w')))"

interpretation nb: effect_order "begins_no_run env" for env
  by unfold_locales (auto simp: begins_no_run_def intro: no_new_run_trans)

lemma begins_no_run_op:
  assumes "\<And>now reg a reg' pid. f now reg = Inr (a, reg') \<Longrightarrow> no_new_run pid reg reg'"
  shows "keeps (begins_no_run env) (reg_op env f)"
proof (rule keepsI)
  fix w r w'
  assume "reg_op env f w = (r, w')"
  then show "begins_no_run env w w'"
  proof (cases rule: reg_op_cases)
    case (success a reg')
    then show ?thesis
      using no_new_run_trans [OF _ assms [OF success(3)]] by (auto simp: begins_no_run_def calm_workers_def)
  qed (auto simp: begins_no_run_def calm_workers_def)
qed

lemma begins_no_run_claim: "keeps (begins_no_run env) (claim_approval env rid k payload)"
proof -
  have "keeps (begins_no_run env) (\<lambda>w. (Inr (), w\<lparr>w_spawned := w_spawned w @ ps\<rparr>))" for ps
    by (simp add: keeps_def begins_no_run_def)
  then show ?thesis
    unfolding claim_approval_def
    by (auto intro!: nb.keeps_bind nb.keeps_ok begins_no_run_op intro: no_new_run_request no_new_run_decision
        simp: map_sum_def split: sum.splits)
qed

interpretation nb: worker_order "begins_no_run env" env rid for env rid
proof unfold_locales
  show "keeps (begins_no_run env) (append_op env i ev upd)" for i ev upd
    unfolding append_op_def by (rule begins_no_run_op) (rule no_new_run_append)
qed (auto simp: begins_no_run_claim, auto simp: begins_no_run_def calm_workers_def)

section \<open>Nodes on which changing projects are idle\<close>

definition settled :: "NodeHost \<Rightarrow> Node \<Rightarrow> bool" where
  "settled h n \<longleftrightarrow> (\<forall>pid \<in> set (nd_changing n). active_runs (nh_codec h) pid (nd_reg n) = [])"

definition keeps_quiet :: "NodeHost \<Rightarrow> ('e, 'a) nop \<Rightarrow> bool" where
  "keeps_quiet h m \<longleftrightarrow> (\<forall>n. settled h n \<longrightarrow> settled h (snd (m n)))"

lemma quiet_moves:
  assumes "settled h n" and "set (nd_changing n') \<subseteq> set (nd_changing n)"
    and "\<And>pid. pid \<in> set (nd_changing n) \<Longrightarrow> no_new_run pid (nd_reg n) (nd_reg n')"
  shows "settled h n'"
  using assms no_new_run_idle unfolding settled_def by blast

lemma quiet_same: "nd_changing n' = nd_changing n \<Longrightarrow> nd_reg n' = nd_reg n \<Longrightarrow> settled h n' = settled h n"
  by (simp add: settled_def)

subsection \<open>The critical sections\<close>

text \<open>
  What another task does while it holds the lock: it admits or replaces a run, begins or
  ends a change, or leaves the changes alone and begins no run.
\<close>

inductive section_step :: "NodeHost \<Rightarrow> Node \<Rightarrow> Node \<Rightarrow> bool" for h where
  admits: "(\<And>m. n_project_id (request m) = pid) \<Longrightarrow> section_step h n (snd (admit_run h pid checked request n))"
| replaces: "section_step h n (snd (replace_run h pid rid checked n))"
| begins: "section_step h n (snd (begin_section h pid n))"
| others: "set (nd_changing n') \<subseteq> set (nd_changing n) \<Longrightarrow> (\<And>pid. no_new_run pid (nd_reg n) (nd_reg n')) \<Longrightarrow>
    section_step h n n'"

definition disciplined :: "NodeHost \<Rightarrow> bool" where
  "disciplined h \<longleftrightarrow> calm_workers (nh_env h) \<and> (\<forall>t n. (section_step h)\<^sup>*\<^sup>* n (nh_others h t n))"

lemma keeps_quietI: "(\<And>n r n'. settled h n \<Longrightarrow> m n = (r, n') \<Longrightarrow> settled h n') \<Longrightarrow> keeps_quiet h m"
  unfolding keeps_quiet_def by (metis prod.collapse)

lemma keeps_quietD: "keeps_quiet h m \<Longrightarrow> settled h n \<Longrightarrow> m n = (r, n') \<Longrightarrow> settled h n'"
  unfolding keeps_quiet_def by (metis snd_conv)

lemma keeps_quiet_ok: "keeps_quiet h (sv_ok x)"
  by (simp add: keeps_quiet_def sv_ok_def)

lemma keeps_quiet_err: "keeps_quiet h (sv_err e)"
  by (simp add: keeps_quiet_def sv_err_def)

lemma keeps_quiet_see: "keeps_quiet h (sv_see f)"
  by (simp add: keeps_quiet_def sv_see_def)

lemma keeps_quiet_bind: "keeps_quiet h m \<Longrightarrow> (\<And>x. keeps_quiet h (f x)) \<Longrightarrow> keeps_quiet h (sv_bind m f)"
  by (rule keeps_quietI) (auto simp: sv_bind_def split: prod.splits sum.splits dest: keeps_quietD)

lemma keeps_quiet_map_err: "keeps_quiet h m \<Longrightarrow> keeps_quiet h (sv_map_err g m)"
  by (rule keeps_quietI) (auto simp: sv_map_err_def split: prod.splits dest: keeps_quietD)

lemma keeps_quiet_provider: "keeps_quiet h (on_provider m)"
  by (rule keeps_quietI) (auto simp: on_provider_def settled_def split: prod.splits)

lemma reg_call_moves:
  assumes "calm_workers (nh_env h)" and "\<And>now reg x reg'. f now reg = Inr (x, reg') \<Longrightarrow> no_new_run pid reg reg'"
    and "reg_call h f n = (r, n')"
  shows "no_new_run pid (nd_reg n) (nd_reg n')" "nd_changing n' = nd_changing n"
proof -
  have "no_new_run pid (nd_reg n) (en_others (nh_env h) (nd_tick n) (nd_reg n))"
    using assms(1) by (simp add: calm_workers_def)
  then show "no_new_run pid (nd_reg n) (nd_reg n')"
    using assms(2,3) no_new_run_trans by (auto simp: reg_call_def Let_def split: sum.splits prod.splits)
  show "nd_changing n' = nd_changing n"
    using assms(3) by (auto simp: reg_call_def Let_def split: sum.splits prod.splits)
qed

lemma keeps_quiet_call:
  assumes "calm_workers (nh_env h)" and "\<And>pid now reg x reg'. f now reg = Inr (x, reg') \<Longrightarrow> no_new_run pid reg reg'"
  shows "keeps_quiet h (reg_call h f)"
  by (rule keeps_quietI) (auto intro: quiet_moves reg_call_moves [OF assms] simp: reg_call_moves(2) [OF assms])

lemma keeps_quiet_look: "calm_workers (nh_env h) \<Longrightarrow> keeps_quiet h (reg_look h f)"
  unfolding reg_look_def by (rule keeps_quiet_call) auto

lemma keeps_quiet_append: "calm_workers (nh_env h) \<Longrightarrow> keeps_quiet h (append_node h rid ty payload)"
  unfolding append_node_def by (rule keeps_quiet_call) (auto intro: no_new_run_append)

lemma keeps_quiet_lifted: "keeps_quiet h m \<Longrightarrow> keeps_quiet h (lifted m)"
  unfolding lifted_def by (rule keeps_quiet_map_err)

lemma keeps_quiet_internal: "keeps_quiet h m \<Longrightarrow> keeps_quiet h (internal m)"
  unfolding internal_def by (rule keeps_quiet_map_err)

lemma keeps_quiet_check: "keeps_quiet h (check_identifier field v)"
  by (auto simp: check_identifier_def keeps_quiet_ok keeps_quiet_err split: sum.splits)

lemma keeps_quiet_project: "keeps_quiet h (project_of h pid)"
  unfolding project_of_def by (rule keeps_quiet_see)

lemma keeps_quiet_status: "keeps_quiet h (status_or_internal r)"
  by (auto simp: status_or_internal_def keeps_quiet_ok keeps_quiet_err split: sum.splits)

lemma keeps_quiet_retryable: "keeps_quiet h (check_retryable r s)"
  by (simp add: check_retryable_def keeps_quiet_ok keeps_quiet_err)

lemma keeps_quiet_owned: "calm_workers (nh_env h) \<Longrightarrow> keeps_quiet h (load_owned h pid rid)"
  unfolding load_owned_def
  by (auto intro!: keeps_quiet_bind keeps_quiet_check keeps_quiet_internal keeps_quiet_look
      simp: keeps_quiet_ok keeps_quiet_err split: option.splits)

text \<open>A run is inserted only after the guard, and then the project is not changing.\<close>

lemma guard_passes:
  "credential_run_guard h pid checked n = (r, n') \<Longrightarrow> n' = n \<and> (r = Inr () \<longrightarrow> pid \<notin> set (nd_changing n))"
  by (auto simp: credential_run_guard_def sv_bind_def project_of_def sv_see_def Let_def
      split: sum.splits prod.splits if_splits option.splits)

lemma insert_quiet:
  assumes "calm_workers (nh_env h)" and "settled h n" and "n_project_id request \<notin> set (nd_changing n)"
    and "insert_run h request n = (r, n')"
  shows "settled h n'"
proof -
  let ?f = "\<lambda>now. create_run (nh_codec h) (now 0) (nh_fresh h (nd_tick n)) request"
  obtain q where call: "reg_call h ?f n = (q, n')"
    using assms(4) by (auto simp: insert_run_def lifted_def sv_map_err_def split: prod.splits)
  have ch: "nd_changing n' = nd_changing n"
    using call by (auto simp: reg_call_def Let_def split: sum.splits prod.splits)
  have "no_new_run pid (nd_reg n) (nd_reg n')" if "pid \<in> set (nd_changing n)" for pid
  proof (rule reg_call_moves(1) [OF assms(1) _ call])
    show "no_new_run pid reg reg'" if "create_run (nh_codec h) (now 0) (nh_fresh h (nd_tick n)) request reg = Inr (x, reg')"
      for now reg x reg'
      by (rule no_new_run_create [OF that]) (use \<open>pid \<in> set (nd_changing n)\<close> assms(3) in auto)
  qed
  then show ?thesis by (intro quiet_moves [OF assms(2), of n']) (simp_all add: ch)
qed

lemma guarded:
  assumes "\<And>n r n'. settled h n \<Longrightarrow> pid \<notin> set (nd_changing n) \<Longrightarrow> k n = (r, n') \<Longrightarrow> settled h n'"
  shows "keeps_quiet h (sv_bind (credential_run_guard h pid checked) (\<lambda>_. k))"
proof (rule keeps_quietI)
  fix n r n'
  assume q: "settled h n" and run: "sv_bind (credential_run_guard h pid checked) (\<lambda>_. k) n = (r, n')"
  obtain g n1 where g: "credential_run_guard h pid checked n = (g, n1)" by fastforce
  show "settled h n'"
    using run q g guard_passes [OF g] assms by (cases g) (auto simp: sv_bind_def)
qed

lemma keeps_quiet_admit:
  assumes "calm_workers (nh_env h)" and "\<And>m. n_project_id (request m) = pid"
  shows "keeps_quiet h (admit_run h pid checked request)"
  unfolding admit_run_def
proof (rule guarded)
  fix n r n'
  assume "settled h n" "pid \<notin> set (nd_changing n)"
    "sv_bind (project_of h pid) (\<lambda>found. insert_run h (request (Option.bind found rp_model))) n = (r, n')"
  then show "settled h n'"
    by (auto simp: sv_bind_def project_of_def sv_see_def assms(2) split: sum.splits prod.splits
        elim!: insert_quiet [OF assms(1), rotated 2])
qed

lemma insert_then:
  assumes "calm_workers (nh_env h)" and "\<And>x. keeps_quiet h (f x)" and "settled h n"
    and "n_project_id request \<notin> set (nd_changing n)" and "sv_bind (insert_run h request) f n = (r, n')"
  shows "settled h n'"
proof -
  obtain c n1 where i: "insert_run h request n = (c, n1)" by fastforce
  show ?thesis
    using assms(5) insert_quiet [OF assms(1,3,4) i] i keeps_quietD [OF assms(2)] by (cases c) (auto simp: sv_bind_def)
qed

lemma keeps_quiet_replace:
  assumes "calm_workers (nh_env h)"
  shows "keeps_quiet h (replace_run h pid rid checked)"
  unfolding replace_run_def
  by (intro keeps_quiet_bind keeps_quiet_owned [OF assms] keeps_quiet_status keeps_quiet_retryable guarded,
      erule insert_then [OF assms, rotated])
     (auto simp: Let_def intro!: keeps_quiet_bind keeps_quiet_lifted keeps_quiet_append [OF assms] keeps_quiet_ok)

lemma keeps_quiet_begin:
  assumes "calm_workers (nh_env h)"
  shows "keeps_quiet h (begin_section h pid)"
proof (rule keeps_quietI)
  fix n r n'
  assume q: "settled h n" and run: "begin_section h pid n = (r, n')"
  obtain a n1 where look: "reg_look h (active_runs (nh_codec h) pid) n = (a, n1)" by fastforce
  have q1: "settled h n1" by (rule keeps_quietD [OF keeps_quiet_look [OF assms] q look])
  have a: "a = Inr (active_runs (nh_codec h) pid (nd_reg n1))"
    using look by (auto simp: reg_look_def reg_call_def Let_def)
  show "settled h n'"
    using run look a q1 by (auto simp: begin_section_def sv_bind_def sv_map_err_def settled_def split: if_splits)
qed

lemma quiet_section: "section_step h n n' \<Longrightarrow> calm_workers (nh_env h) \<Longrightarrow> settled h n \<Longrightarrow> settled h n'"
proof (induction rule: section_step.induct)
  case (admits request pid n checked)
  then show ?case using keeps_quiet_admit unfolding keeps_quiet_def by blast
next
  case (replaces n pid rid checked)
  then show ?case using keeps_quiet_replace unfolding keeps_quiet_def by blast
next
  case (begins n pid)
  then show ?case using keeps_quiet_begin unfolding keeps_quiet_def by blast
qed (auto intro: quiet_moves)

lemma quiet_arrive: "disciplined h \<Longrightarrow> settled h n \<Longrightarrow> settled h (arrive h n)"
proof -
  assume d: "disciplined h" and q: "settled h n"
  have "settled h m" if "(section_step h)\<^sup>*\<^sup>* n m" for m
    using that q d by (induction rule: rtranclp_induct) (auto simp: disciplined_def intro: quiet_section)
  then show "settled h (arrive h n)" using d by (auto simp: disciplined_def arrive_def settled_def)
qed

lemma keeps_quiet_enter: "disciplined h \<Longrightarrow> keeps_quiet h m \<Longrightarrow> keeps_quiet h (enter h m)"
  unfolding enter_def keeps_quiet_def using quiet_arrive by blast

subsection \<open>The operations\<close>

lemma disciplined_calm: "disciplined h \<Longrightarrow> calm_workers (nh_env h)"
  by (simp add: disciplined_def)

lemmas keeps_quiet_intros =
  keeps_quiet_bind keeps_quiet_ok keeps_quiet_err keeps_quiet_see keeps_quiet_map_err keeps_quiet_provider
  keeps_quiet_look [OF disciplined_calm] keeps_quiet_append [OF disciplined_calm] keeps_quiet_lifted keeps_quiet_internal
  keeps_quiet_check keeps_quiet_project keeps_quiet_status keeps_quiet_retryable keeps_quiet_owned [OF disciplined_calm]
  keeps_quiet_enter

lemma keeps_quiet_key: "keeps_quiet h (worker_api_key h reference)"
  by (auto simp: worker_api_key_def intro!: keeps_quiet_intros split: option.splits)

lemma keeps_quiet_runtime: "disciplined h \<Longrightarrow> keeps_quiet h (project_runtime h pid)"
  unfolding project_runtime_def by (auto intro!: keeps_quiet_intros keeps_quiet_key split: option.splits)

lemma keeps_quiet_client: "disciplined h \<Longrightarrow> keeps_quiet h (client_for h pid)"
  unfolding client_for_def
  by (auto intro!: keeps_quiet_intros keeps_quiet_runtime split: sum.splits prod.splits)

lemma keeps_quiet_refuse: "disciplined h \<Longrightarrow> keeps_quiet h (refuse_draining h)"
  unfolding refuse_draining_def by (intro keeps_quiet_intros)

lemma keeps_quiet_usable: "disciplined h \<Longrightarrow> keeps_quiet h (credential_usable_for_run h pid)"
  unfolding credential_usable_for_run_def by (auto intro!: keeps_quiet_intros split: option.splits sum.splits)

lemma keeps_quiet_watched: "disciplined h \<Longrightarrow> keeps_quiet h (watched_credential h pid)"
  unfolding watched_credential_def by (auto intro!: keeps_quiet_intros split: option.splits)

lemma keeps_quiet_workers: "keeps_quiet h (\<lambda>n. (r, n\<lparr>nd_workers := f n\<rparr>))"
  by (simp add: keeps_quiet_def settled_def)

lemma keeps_quiet_supervise:
  assumes "disciplined h"
  shows "keeps_quiet h (supervise h pid rid)"
proof -
  have inner: "keeps_quiet h (\<lambda>n2. if is_supervised rid n2 then (Inr (), n2) else sv_bind (watched_credential h pid) (k :: _ \<Rightarrow> ('e, unit) nop) n2)"
    if "\<And>x. keeps_quiet h (k x)" for k
    using keeps_quiet_bind [OF keeps_quiet_watched [OF assms] that, of pid] by (simp add: keeps_quiet_def)
  show ?thesis
    unfolding supervise_def Let_def
    by (rule keeps_quietI)
       (auto split: prod.splits sum.splits dest: keeps_quietD [OF keeps_quiet_runtime [OF assms]]
          keeps_quietD [OF keeps_quiet_enter [OF assms inner [OF keeps_quiet_workers]]])
qed

lemma keeps_quiet_trusted: "disciplined h \<Longrightarrow> keeps_quiet h (start_trusted h rid req)"
  unfolding start_trusted_def
  by (auto intro!: keeps_quiet_intros keeps_quiet_call [OF disciplined_calm] intro: no_new_run_policy split: option.splits)

lemma keeps_quiet_create: "disciplined h \<Longrightarrow> keeps_quiet h (service_create_run h pid req)"
  unfolding service_create_run_def Let_def
  by (auto intro!: keeps_quiet_intros keeps_quiet_refuse keeps_quiet_usable keeps_quiet_trusted keeps_quiet_supervise
      keeps_quiet_admit [OF disciplined_calm])

lemma keeps_quiet_policy_calls:
  assumes "disciplined h"
  shows "keeps_quiet h (reg_call h (\<lambda>now reg. set_run_approval_policy (nh_codec h) (now 0) rid policy actor reg))"
    and "keeps_quiet h (reg_call h (\<lambda>_ reg. map_sum id (\<lambda>st. (st, reg)) (run_approval_policy rid reg)))"
proof -
  show "keeps_quiet h (reg_call h (\<lambda>now reg. set_run_approval_policy (nh_codec h) (now 0) rid policy actor reg))"
    by (rule keeps_quiet_call [OF disciplined_calm [OF assms]]) (rule no_new_run_policy)
  have "no_new_run pid reg reg'" if "map_sum id (\<lambda>st. (st, reg)) x = Inr (y, reg')" for pid and x :: "(registry_error, RunPolicyState) result" and y reg reg'
    using that by (cases x) auto
  then show "keeps_quiet h (reg_call h (\<lambda>_ reg. map_sum id (\<lambda>st. (st, reg)) (run_approval_policy rid reg)))"
    by (rule keeps_quiet_call [OF disciplined_calm [OF assms]])
qed

lemma keeps_quiet_set_policy: "disciplined h \<Longrightarrow> keeps_quiet h (service_set_run_approval_policy h pid rid policy actor)"
  unfolding service_set_run_approval_policy_def
  by (auto intro!: keeps_quiet_intros keeps_quiet_policy_calls split: sum.splits)

lemma keeps_quiet_forward: "disciplined h \<Longrightarrow> keeps_quiet h (forward_decision h r hid k choice)"
proof -
  assume d: "disciplined h"
  have "keeps_quiet h (sv_bind (lifted (append_node h i ty p)) (\<lambda>outcome.
      sv_bind (lifted (reg_call h (\<lambda>_ reg. Inr ((), record_approval_resolution j k (outcome_seq outcome) reg)))) f))"
    if "\<And>x. keeps_quiet h (f x)" for i ty p j f
    using d that
    by (auto intro!: keeps_quiet_intros keeps_quiet_call [OF disciplined_calm] intro: no_new_run_resolution)
  note shared = this
  show ?thesis
    unfolding forward_decision_def Let_def
    by (rule keeps_quietI, erule keeps_quietD [OF shared, rotated])
       (auto intro!: keeps_quiet_intros split: sum.splits)
qed

lemma keeps_quiet_resolve: "disciplined h \<Longrightarrow> keeps_quiet h (service_resolve_approval h pid rid choice)"
  unfolding service_resolve_approval_def
  by (auto intro!: keeps_quiet_intros keeps_quiet_client keeps_quiet_forward keeps_quiet_call [OF disciplined_calm]
      intro: no_new_run_decision split: option.splits)

lemma keeps_quiet_stop: "disciplined h \<Longrightarrow> keeps_quiet h (stop_submitted h r hid)"
proof -
  assume d: "disciplined h"
  have "keeps_quiet h (sv_bind (lifted (append_node h i ty p)) (\<lambda>_. sv_ok v))" for i ty p v
    using d by (auto intro!: keeps_quiet_intros)
  note shared = this
  show ?thesis
    unfolding stop_submitted_def Let_def by (rule keeps_quietI, erule keeps_quietD [OF shared, rotated])
qed

lemma keeps_quiet_cancel: "disciplined h \<Longrightarrow> keeps_quiet h (service_cancel_run h pid rid)"
  unfolding service_cancel_run_def cancel_unsubmitted_def
  by (auto intro!: keeps_quiet_intros keeps_quiet_client keeps_quiet_stop keeps_quiet_call [OF disciplined_calm]
      intro: no_new_run_update split: option.splits)

lemma keeps_quiet_retry: "disciplined h \<Longrightarrow> keeps_quiet h (service_retry_run h pid rid)"
  unfolding service_retry_run_def
  by (auto intro!: keeps_quiet_intros keeps_quiet_refuse keeps_quiet_usable keeps_quiet_supervise
      keeps_quiet_replace [OF disciplined_calm] split: prod.splits)

lemma keeps_quiet_run_reconcile:
  assumes "disciplined h"
  shows "keeps_quiet h (run_reconcile h pid)"
proof (rule keeps_quietI)
  fix n r n'
  assume q: "settled h n" and run: "run_reconcile h pid n = (r, n')"
  let ?w = "\<lparr>w_reg = nd_reg n, w_dir = nd_dirs n pid, w_tick = nd_tick n, w_posts = [], w_spawned = []\<rparr>"
  obtain q' w where rec: "reconcile_project (nh_env h) pid ?w = (q', w)" by fastforce
  have "begins_no_run (nh_env h) ?w w" by (rule keepsD [OF nb.keeps_reconcile rec])
  then have "no_new_run k (nd_reg n) (w_reg w)" for k
    using disciplined_calm [OF assms] by (simp add: begins_no_run_def)
  then show "settled h n'" using run rec q by (auto simp: run_reconcile_def intro: quiet_moves)
qed

lemma keeps_quiet_reconcile: "disciplined h \<Longrightarrow> keeps_quiet h (service_reconcile h pid)"
  unfolding service_reconcile_def
  by (auto intro!: keeps_quiet_intros keeps_quiet_client keeps_quiet_run_reconcile keeps_quiet_supervise split: list.splits)

lemma keeps_quiet_ended: "disciplined h \<Longrightarrow> keeps_quiet h (worker_ended h su)"
  unfolding worker_ended_def reconcile_credential_after_run_def
  by (auto intro!: keeps_quiet_intros keeps_quiet_workers split: option.splits)

lemma keeps_quiet_end_change: "disciplined h \<Longrightarrow> keeps_quiet h (end_credential_change h pid)"
  unfolding end_credential_change_def
  by (rule keeps_quiet_enter) (auto simp: keeps_quiet_def settled_def)

section \<open>The node as a transition system\<close>

text \<open>One step is one operation of the service, a provider operation, or the end of a worker.\<close>

inductive node_step :: "NodeHost \<Rightarrow> Node \<Rightarrow> Node \<Rightarrow> bool" for h where
  creates: "service_create_run h pid req n = (a, n') \<Longrightarrow> node_step h n n'"
| sets_policy: "service_set_run_approval_policy h pid rid policy actor n = (b, n') \<Longrightarrow> node_step h n n'"
| resolves: "service_resolve_approval h pid rid choice n = (b, n') \<Longrightarrow> node_step h n n'"
| cancels: "service_cancel_run h pid rid n = (b, n') \<Longrightarrow> node_step h n n'"
| retries: "service_retry_run h pid rid n = (a, n') \<Longrightarrow> node_step h n n'"
| reconciles: "service_reconcile h pid n = (c, n') \<Longrightarrow> node_step h n n'"
| begins_change: "begin_credential_change h pid n = (d, n') \<Longrightarrow> node_step h n n'"
| ends_change: "end_credential_change h pid n = (u, n') \<Longrightarrow> node_step h n n'"
| ends_worker: "worker_ended h su n = ((u :: (ServiceError, unit) result), n') \<Longrightarrow> node_step h n n'"
| provides: "on_provider m n = ((r :: (ServiceError, unit) result), n') \<Longrightarrow> node_step h n n'"
| drains: "begin_drain h n = ((u :: (ServiceError, unit) result), n') \<Longrightarrow> node_step h n n'"

lemma keeps_quiet_begin_change: "disciplined h \<Longrightarrow> keeps_quiet h (begin_credential_change h pid)"
  unfolding begin_credential_change_def by (rule keeps_quiet_enter [OF _ keeps_quiet_begin [OF disciplined_calm]])

lemma keeps_quiet_drain: "disciplined h \<Longrightarrow> keeps_quiet h (begin_drain h)"
  unfolding begin_drain_def by (rule keeps_quiet_enter) (auto simp: keeps_quiet_def settled_def)

lemma quiet_step: "settled h n \<Longrightarrow> node_step h n n' \<Longrightarrow> disciplined h \<Longrightarrow> settled h n'"
  by (erule node_step.cases)
     (blast intro: keeps_quietD keeps_quiet_create keeps_quiet_set_policy keeps_quiet_resolve keeps_quiet_cancel
        keeps_quiet_retry keeps_quiet_reconcile keeps_quiet_begin_change keeps_quiet_end_change keeps_quiet_ended
        keeps_quiet_provider keeps_quiet_drain)+

text \<open>A node as \<open>open\<close> leaves it: no change in progress, nothing supervised.\<close>

definition opened :: "Registry \<Rightarrow> projects \<Rightarrow> (string \<Rightarrow> Project_Dir) \<Rightarrow> Provider \<Rightarrow> Node" where
  "opened reg ps dirs p =
     \<lparr>nd_reg = reg, nd_projects = ps, nd_dirs = dirs, nd_provider = p, nd_changing = [], nd_workers = [],
      nd_draining = False, nd_tick = 0\<rparr>"

interpretation node_sys: guarded_system "node_step h" "opened reg ps dirs p" "\<lambda>n. disciplined h \<longrightarrow> settled h n"
  for h reg ps dirs p
  by unfold_locales (simp add: opened_def settled_def, blast intro: quiet_step)

section \<open>Runs of other projects\<close>

text \<open>The operations that name a project and one of its runs.\<close>

datatype run_request =
    ReadRun | ReadApprovals | ReadEvents int int | ChangePolicy RunApprovalPolicy "string option"
  | Decide string | CancelRun | RetryRun

definition unit_of :: "'a sv \<Rightarrow> unit sv" where
  "unit_of m = sv_bind m (\<lambda>_. sv_ok ())"

fun ask_run :: "NodeHost \<Rightarrow> string \<Rightarrow> string \<Rightarrow> run_request \<Rightarrow> unit sv" where
  "ask_run h pid rid ReadRun = unit_of (service_get_run h pid rid)"
| "ask_run h pid rid ReadApprovals = unit_of (service_approvals h pid rid)"
| "ask_run h pid rid (ReadEvents since k) = unit_of (service_events h pid rid since k)"
| "ask_run h pid rid (ChangePolicy policy actor) = unit_of (service_set_run_approval_policy h pid rid policy actor)"
| "ask_run h pid rid (Decide choice) = unit_of (service_resolve_approval h pid rid choice)"
| "ask_run h pid rid CancelRun = unit_of (service_cancel_run h pid rid)"
| "ask_run h pid rid RetryRun = unit_of (service_retry_run h pid rid)"

definition forget_run :: "string \<Rightarrow> Node \<Rightarrow> Node" where
  "forget_run rid n = n\<lparr>nd_reg := (nd_reg n)\<lparr>runs := filter (\<lambda>r. r_run_id r \<noteq> rid) (runs (nd_reg n))\<rparr>\<rparr>"

definition undisturbed :: "NodeHost \<Rightarrow> bool" where
  "undisturbed h \<longleftrightarrow> nh_others h = (\<lambda>_ n. n) \<and> en_others (nh_env h) = (\<lambda>_ reg. reg)"

definition blind :: "('e, 'a) nop \<Rightarrow> bool" where
  "blind m \<longleftrightarrow> (\<forall>n reg. m (n\<lparr>nd_reg := reg\<rparr>) = (fst (m n), (snd (m n))\<lparr>nd_reg := reg\<rparr>))"

definition denies :: "NodeHost \<Rightarrow> string \<Rightarrow> string \<Rightarrow> 'a sv \<Rightarrow> bool" where
  "denies h pid rid m \<longleftrightarrow> (\<forall>n reg reg'.
     (\<exists>r. load_run (nh_codec h) rid reg = Some r \<and> project_id r \<noteq> pid) \<longrightarrow> load_run (nh_codec h) rid reg' = None \<longrightarrow>
     (\<exists>e. fst (m (n\<lparr>nd_reg := reg\<rparr>)) = Inl e \<and> fst (m (n\<lparr>nd_reg := reg'\<rparr>)) = Inl e \<and>
        nd_reg (snd (m (n\<lparr>nd_reg := reg\<rparr>))) = reg))"

lemma deniesD:
  "denies h pid rid m \<Longrightarrow> load_run (nh_codec h) rid reg = Some r \<Longrightarrow> project_id r \<noteq> pid \<Longrightarrow>
   load_run (nh_codec h) rid reg' = None \<Longrightarrow>
   \<exists>e. fst (m (n\<lparr>nd_reg := reg\<rparr>)) = Inl e \<and> fst (m (n\<lparr>nd_reg := reg'\<rparr>)) = Inl e \<and> nd_reg (snd (m (n\<lparr>nd_reg := reg\<rparr>))) = reg"
  unfolding denies_def by blast

lemma blindD: "blind m \<Longrightarrow> m n = (r, n') \<Longrightarrow> m (n\<lparr>nd_reg := reg\<rparr>) = (r, n'\<lparr>nd_reg := reg\<rparr>)"
  by (simp add: blind_def)

lemma blindI: "(\<And>n r n' reg. m n = (r, n') \<Longrightarrow> m (n\<lparr>nd_reg := reg\<rparr>) = (r, n'\<lparr>nd_reg := reg\<rparr>)) \<Longrightarrow> blind m"
  unfolding blind_def by (metis prod.collapse)

lemma blind_ok: "blind (sv_ok x)" and blind_err: "blind (sv_err e)"
  by (simp_all add: blind_def sv_ok_def sv_err_def)

lemma blind_see: "(\<And>n reg. f (n\<lparr>nd_reg := reg\<rparr>) = f n) \<Longrightarrow> blind (sv_see f)"
  by (simp add: blind_def sv_see_def)

lemma blind_bind: "blind m \<Longrightarrow> (\<And>x. blind (f x)) \<Longrightarrow> blind (sv_bind m f)"
  by (rule blindI) (auto simp: sv_bind_def blindD split: prod.splits sum.splits dest: blindD)

lemma reg_then_tick: "(n :: Node)\<lparr>nd_reg := reg, nd_tick := t\<rparr> = n\<lparr>nd_tick := t, nd_reg := reg\<rparr>"
  by (cases n) simp

lemma blind_enter: "undisturbed h \<Longrightarrow> blind m \<Longrightarrow> blind (enter h m)"
proof (rule blindI)
  fix n r n' reg
  assume "undisturbed h" "blind m" "enter h m n = (r, n')"
  then show "enter h m (n\<lparr>nd_reg := reg\<rparr>) = (r, n'\<lparr>nd_reg := reg\<rparr>)"
    using blindD [of m "n\<lparr>nd_tick := Suc (nd_tick n)\<rparr>" r n' reg]
    by (simp add: enter_def arrive_def undisturbed_def reg_then_tick)
qed

lemma blind_provider: "blind (on_provider m)"
  by (rule blindI) (auto simp: on_provider_def split: prod.splits)

lemma blind_key: "blind (worker_api_key h reference)"
  by (auto simp: worker_api_key_def intro!: blind_ok blind_see split: option.splits)

lemma blind_runtime: "undisturbed h \<Longrightarrow> blind (project_runtime h pid)"
  unfolding project_runtime_def
  by (auto intro!: blind_bind blind_enter blind_see blind_err blind_ok blind_key split: option.splits)

lemma blind_client: "undisturbed h \<Longrightarrow> blind (client_for h pid)"
  unfolding client_for_def
  by (auto intro!: blind_bind blind_runtime blind_err blind_ok split: prod.splits sum.splits)

lemma blind_usable: "undisturbed h \<Longrightarrow> blind (credential_usable_for_run h pid)"
  unfolding credential_usable_for_run_def project_of_def
  by (auto intro!: blind_bind blind_enter blind_see blind_err blind_ok blind_provider split: option.splits sum.splits)

lemma blind_refuse: "undisturbed h \<Longrightarrow> blind (refuse_draining h)"
  unfolding refuse_draining_def by (intro blind_enter blind_see) auto

lemma blind_check: "blind (check_identifier field v)"
  by (auto simp: check_identifier_def blind_ok blind_err split: sum.splits)

lemma denies_err: "denies h pid rid (sv_err e)"
  by (simp add: denies_def sv_err_def)

lemma denies_first: "denies h pid rid m \<Longrightarrow> denies h pid rid (sv_bind m f)"
  unfolding denies_def
proof (intro allI impI)
  fix n reg reg'
  assume d: "\<forall>n reg reg'. (\<exists>r. load_run (nh_codec h) rid reg = Some r \<and> project_id r \<noteq> pid) \<longrightarrow>
      load_run (nh_codec h) rid reg' = None \<longrightarrow>
      (\<exists>e. fst (m (n\<lparr>nd_reg := reg\<rparr>)) = Inl e \<and> fst (m (n\<lparr>nd_reg := reg'\<rparr>)) = Inl e \<and>
         nd_reg (snd (m (n\<lparr>nd_reg := reg\<rparr>))) = reg)"
    and "\<exists>r. load_run (nh_codec h) rid reg = Some r \<and> project_id r \<noteq> pid" "load_run (nh_codec h) rid reg' = None"
  then obtain e a b where "m (n\<lparr>nd_reg := reg\<rparr>) = (Inl e, a)" "m (n\<lparr>nd_reg := reg'\<rparr>) = (Inl e, b)" "nd_reg a = reg"
    by (metis prod.collapse)
  then show "\<exists>e. fst (sv_bind m f (n\<lparr>nd_reg := reg\<rparr>)) = Inl e \<and> fst (sv_bind m f (n\<lparr>nd_reg := reg'\<rparr>)) = Inl e \<and>
      nd_reg (snd (sv_bind m f (n\<lparr>nd_reg := reg\<rparr>))) = reg"
    by (simp add: sv_bind_def)
qed

lemma denies_then:
  assumes "blind m" and "\<And>x. denies h pid rid (f x)"
  shows "denies h pid rid (sv_bind m f)"
  unfolding denies_def
proof (intro allI impI)
  fix n reg reg'
  assume other: "\<exists>r. load_run (nh_codec h) rid reg = Some r \<and> project_id r \<noteq> pid" "load_run (nh_codec h) rid reg' = None"
  obtain q n1 where m: "m n = (q, n1)" by fastforce
  show "\<exists>e. fst (sv_bind m f (n\<lparr>nd_reg := reg\<rparr>)) = Inl e \<and> fst (sv_bind m f (n\<lparr>nd_reg := reg'\<rparr>)) = Inl e \<and>
      nd_reg (snd (sv_bind m f (n\<lparr>nd_reg := reg\<rparr>))) = reg"
  proof (cases q)
    case (Inl e)
    then show ?thesis using blindD [OF assms(1) m] by (simp add: sv_bind_def)
  next
    case (Inr x)
    then show ?thesis using blindD [OF assms(1) m] assms(2) [of x] other unfolding denies_def by (auto simp: sv_bind_def)
  qed
qed

lemma denies_enter: "undisturbed h \<Longrightarrow> denies h pid rid m \<Longrightarrow> denies h pid rid (enter h m)"
proof -
  assume "undisturbed h" "denies h pid rid m"
  then show ?thesis
    unfolding denies_def
    by (auto simp: enter_def arrive_def undisturbed_def reg_then_tick)
qed

lemma denies_owned: "undisturbed h \<Longrightarrow> denies h pid rid (load_owned h pid rid)"
  unfolding load_owned_def
  by (rule denies_then [OF blind_check], rule denies_then [OF blind_check])
     (auto simp: denies_def undisturbed_def sv_bind_def internal_def sv_map_err_def reg_look_def reg_call_def sv_err_def)

lemma ask_denied:
  assumes u: "undisturbed h"
  shows "denies h pid rid (ask_run h pid rid q)"
proof -
  note rules = denies_then blind_check blind_client [OF u] blind_refuse [OF u] blind_usable [OF u]
  have owned: "denies h pid rid (enter h (load_owned h pid rid))"
    and within: "denies h pid rid (enter h (sv_bind (load_owned h pid rid) f))" for f :: "RunRecord \<Rightarrow> 'b sv"
    by (rule denies_enter [OF u denies_owned [OF u]], rule denies_enter [OF u denies_first [OF denies_owned [OF u]]])
  have "denies h pid rid (service_get_run h pid rid)"
    unfolding service_get_run_def by (rule rules(1,2) owned)+
  moreover have "denies h pid rid (service_approvals h pid rid)"
    unfolding service_approvals_def by (rule within)
  moreover have "denies h pid rid (service_events h pid rid since k)" for since k
    unfolding service_events_def by (simp only: split: if_split) (intro rules(1,2) conjI impI within denies_err)
  moreover have "denies h pid rid (service_set_run_approval_policy h pid rid policy actor)" for policy actor
    unfolding service_set_run_approval_policy_def by (rule within)
  moreover have "denies h pid rid (service_resolve_approval h pid rid choice)" for choice
    unfolding service_resolve_approval_def
    by (simp only: split: if_split) (intro rules(1,3) conjI impI within denies_err)
  moreover have "denies h pid rid (service_cancel_run h pid rid)"
    unfolding service_cancel_run_def by (intro rules(1,3) within)
  moreover have "denies h pid rid (service_retry_run h pid rid)"
    unfolding service_retry_run_def replace_run_def
    by (rule denies_then [OF rules(4)], rule denies_then [OF rules(5)]) (rule denies_first [OF within])
  ultimately show ?thesis by (cases q) (simp_all add: unit_of_def denies_first)
qed

end
