(* ===== verification/Service_Claims.thy ===== *)
theory Service_Claims
  imports Service_Inv Provider_Inv Runner_Demo
begin

text \<open>
  The properties of the service, on a small node: one registered project with a worker on the
  loopback interface, and a registry that holds a run of it.
\<close>

section \<open>A node\<close>

definition lone_env :: Env where
  "lone_env = demo_env\<lparr>en_status := (\<lambda>_ _. Answered 200 ''200 OK'' ''R'')\<rparr>"

definition lone_host :: NodeHost where
  "lone_host =
     \<lparr>nh_env = lone_env, nh_provider = demo_host, nh_state_root = ''/s'',
      nh_api_key = ''0123456789abcdef'', nh_limits = limits_for_node, nh_fresh = (\<lambda>t. ''run_new''),
      nh_key_text = (\<lambda>_. ''error''), nh_stop = (\<lambda>_ _. Unreachable), nh_resolve = (\<lambda>_ _ _. Unreachable),
      nh_others = (\<lambda>_ n. n)\<rparr>"

definition lone_project :: ProjectRow where
  "lone_project =
     \<lparr>p_project_id = ''p'', p_workspace_path = ''/w'', p_display_name = ''P'', p_enabled = True, p_created_at = 0,
      p_metadata = None, p_runtime_endpoint = Some ''http://127.0.0.1:8642'', p_runtime_ownership = ''managed_container'',
      p_hermes_home = None, p_hermes_profile = None, p_hermes_api_key_ref = None, p_profile_state = ''ready'',
      p_profile_failure = None, p_credential_id = None, p_model = None, p_suspended_at = None\<rparr>"

definition lone_run :: RunRow where
  "lone_run = (new_row demo_codec 5 ''run_1'' demo_request)\<lparr>r_status := ''running'', r_hermes_run_id := Some ''h1''\<rparr>"

definition lone_registry :: Registry where
  "lone_registry = empty_registry\<lparr>runs := [lone_run]\<rparr>"

definition lone_node :: Node where
  "lone_node = opened lone_registry [lone_project] (\<lambda>_. \<lparr>lock_holder = None, active_file = None\<rparr>) (demo_provider CredAuthorized)"

definition lone_request :: CreateRun where
  "lone_request =
     \<lparr>cn_input = ''hi'', cn_session_id = None, cn_instructions = None, cn_idempotency_key = None, cn_approval_policy = None,
      cn_actor = None, cn_attachments = []\<rparr>"

abbreviation statuses :: "Node \<Rightarrow> string list" where
  "statuses n \<equiv> map r_status (runs (nd_reg n))"

lemma lone_calm: "calm_workers (nh_env lone_host)"
  by (simp add: calm_workers_def lone_host_def lone_env_def demo_env_def)

lemma lone_disciplined: "disciplined lone_host"
  using lone_calm by (simp add: disciplined_def) (simp add: lone_host_def)

lemma lone_undisturbed: "undisturbed lone_host"
  by (simp add: undisturbed_def lone_host_def lone_env_def demo_env_def)

text \<open>Evaluation of the operations on this node.\<close>

lemma lone_env_simps:
  "en_codec lone_env = demo_codec" "en_process lone_env = 0" "en_now lone_env k = (\<lambda>_. int k)" "en_others lone_env = (\<lambda>_ reg. reg)"
  "en_status lone_env k hid = Answered 200 ''200 OK'' ''R''"
  by (simp_all add: lone_env_def demo_env_simps)

lemma lone_host_simps:
  "nh_env lone_host = lone_env"
  "nh_limits lone_host = limits_for_node" "nh_fresh lone_host t = ''run_new''" "nh_others lone_host = (\<lambda>_ n. n)"
  by (simp_all add: lone_host_def)

lemmas lone_defs = lone_host_simps lone_node_def lone_project_def lone_registry_def lone_run_def lone_request_def opened_def
  lone_env_simps demo_request_def new_row_def empty_registry_def

lemmas service_eval = sv_bind_def sv_ok_def sv_err_def sv_see_def sv_map_err_def enter_def arrive_def reg_call_def
  reg_look_def lifted_def internal_def append_node_def

section \<open>Credential changes and runs\<close>


lemma lone_change:
  "nd_changing (snd (begin_credential_change lone_host ''q'' lone_node)) = [''q'']"
  by (simp add: begin_credential_change_def begin_section_def service_eval lone_defs active_runs_def list_runs_def sql_limit_def)


section \<open>Runs of other projects\<close>

text \<open>
  C15.  Whatever is asked of a run under the name of a project it does not belong to, reading it,
  its approvals or its events, changing its policy, deciding, cancelling or retrying it, is
  refused exactly as if the run did not exist, and the registry stays as it was: a run id of
  another project can neither be used nor recognised.
\<close>

theorem foreign_run_is_unknown:
  assumes "undisturbed h" and "load_run (nh_codec h) rid (nd_reg n) = Some r" and "project_id r \<noteq> pid"
  shows "\<exists>e. fst (ask_run h pid rid q n) = Inl e \<and> fst (ask_run h pid rid q (forget_run rid n)) = Inl e \<and>
    nd_reg (snd (ask_run h pid rid q n)) = nd_reg n"
proof -
  let ?reg = "(nd_reg n)\<lparr>runs := filter (\<lambda>r. r_run_id r \<noteq> rid) (runs (nd_reg n))\<rparr>"
  have "load_run (nh_codec h) rid ?reg = None" by (auto simp: load_run_def row_by_None)
  then show ?thesis
    using deniesD [OF ask_denied [OF assms(1)] assms(2,3), of ?reg q n] by (simp add: forget_run_def)
qed

theorem foreign_run_is_unknown_witness:
  "\<exists>e. fst (ask_run lone_host ''q'' ''run_1'' CancelRun lone_node) = Inl e \<and>
     fst (ask_run lone_host ''q'' ''run_1'' CancelRun (forget_run ''run_1'' lone_node)) = Inl e \<and>
     nd_reg (snd (ask_run lone_host ''q'' ''run_1'' CancelRun lone_node)) = nd_reg lone_node"
proof -
  have "load_run (nh_codec lone_host) ''run_1'' (nd_reg lone_node) = Some (map_run (nh_codec lone_host) lone_run)"
    by (simp add: load_run_def lone_node_def opened_def lone_registry_def lone_run_def row_by_def)
  moreover have "project_id (map_run (nh_codec lone_host) lone_run) \<noteq> ''q''"
    by (simp add: map_run_def lone_run_def demo_request_def)
  ultimately show ?thesis by (rule foreign_run_is_unknown [OF lone_undisturbed])
qed

section \<open>Runs left behind\<close>

lemma lone_runtime:
  "nd_projects n = [lone_project] \<Longrightarrow>
   project_runtime lone_host ''p'' n = (Inr (''http://127.0.0.1:8642'', ''0123456789abcdef''), n\<lparr>nd_tick := Suc (nd_tick n)\<rparr>)"
  "nd_projects n = [lone_project] \<Longrightarrow>
   project_runtime lone_host ''q'' n =
     (Inl (SvcUnavailable ''project_not_registered'' ''project q is not registered on this Node''), n\<lparr>nd_tick := Suc (nd_tick n)\<rparr>)"
  by (simp_all add: project_runtime_def service_eval lone_host_def lone_project_def Inventory.project_def table_simps
    map_project_def profile_parse_def ownership_parse_def worker_api_key_def)

lemma lone_watched:
  "nd_projects n = [lone_project] \<Longrightarrow> watched_credential lone_host ''p'' n = (Inr None, n\<lparr>nd_tick := Suc (nd_tick n)\<rparr>)"
  by (simp add: watched_credential_def service_eval lone_host_def lone_project_def Inventory.project_def table_simps
    map_project_def profile_parse_def ownership_parse_def)

lemma lone_input: "trim ''hi'' = ''hi''"
  by code_simp

lemma lone_client:
  "nd_projects n = [lone_project] \<Longrightarrow>
   client_for lone_host ''p'' n = (Inr \<lparr>hc_base_url = ''http://127.0.0.1:8642'', hc_api_key = ''0123456789abcdef''\<rparr>, n\<lparr>nd_tick := Suc (nd_tick n)\<rparr>)"
  "nd_projects n = [lone_project] \<Longrightarrow>
   client_for lone_host ''q'' n =
     (Inl (SvcUnavailable ''project_not_registered'' ''project q is not registered on this Node''), n\<lparr>nd_tick := Suc (nd_tick n)\<rparr>)"
  by (simp_all add: client_for_def lone_runtime sv_bind_def sv_ok_def hermes_new_def trim_end_slashes_def starts_with_def)

lemma lone_valid:
  "validate_identifier ''project_id'' ''p'' = Inr ()" "validate_identifier ''project_id'' ''q'' = Inr ()"
  "validate_identifier ''run_id'' ''run_new'' = Inr ()"
  by code_simp+

lemma lone_ids: "check_identifier ''project_id'' ''p'' = sv_ok ()" "check_identifier ''project_id'' ''q'' = sv_ok ()"
  "check_identifier ''run_id'' ''run_new'' = sv_ok ()"
  by (simp_all add: check_identifier_def lone_valid)

text \<open>The registry after the first reconciliation and after the second.\<close>

definition pass_event :: "int \<Rightarrow> int \<Rightarrow> string \<Rightarrow> json \<Rightarrow> EventRow" where
  "pass_event now k ty payload = event_row demo_codec now ''run_1'' k (journal_asterism ty payload)"

definition pass_row :: "int \<Rightarrow> int \<Rightarrow> RunUpdate \<Rightarrow> RunStatus \<Rightarrow> RunRow \<Rightarrow> RunRow" where
  "pass_row now k u target r = updated_row demo_codec now u target (r\<lparr>r_last_event_seq := k, r_updated_at := now\<rparr>)"

lemma pass_simps:
  "r_run_id (pass_row now k u target r) = r_run_id r" "r_project_id (pass_row now k u target r) = r_project_id r"
  "r_created_at (pass_row now k u target r) = r_created_at r" "r_last_event_seq (pass_row now k u target r) = k"
  "r_status (pass_row now k u target r) = run_status_as_str target"
  "r_hermes_run_id (pass_row now k u target r) = coalesce (u_hermes_run_id u) (r_hermes_run_id r)"
  "e_run_id (pass_event now k ty payload) = ''run_1''" "e_seq (pass_event now k ty payload) = k"
  by (simp_all add: pass_row_def updated_row_def pass_event_def)

lemma pass_append:
  assumes "runs reg = [row]" and "r_run_id row = ''run_1''" and "run_status_parse (r_status row) = Inr current"
    and "u_status u = Some target" and "can_go current target" and "u_hermes_run_id u = None"
    and "\<And>x. x \<in> set (run_events reg) \<Longrightarrow> e_seq x \<noteq> r_last_event_seq row + 1"
  shows "append_event demo_codec (\<lambda>k. now) ''run_1'' (journal_asterism ty payload) (Some u) reg =
    Inr (Appended (r_last_event_seq row + 1), reg\<lparr>run_events := run_events reg @ [pass_event now (r_last_event_seq row + 1) ty payload],
      runs := [pass_row now (r_last_event_seq row + 1) u target row]\<rparr>)"
  using assms
  by (auto simp: append_event_def Let_def table_simps find_duplicate_def journal_asterism_def insert_event_def update_where_def
      apply_update_def is_ok_iff pass_event_def pass_row_def)

definition parked :: "int \<Rightarrow> Registry" where
  "parked now = lone_registry\<lparr>runs := [pass_row now 1 (update_status Recovering) Recovering lone_run],
     run_events := [pass_event now 1 EVENT_RECOVERING (json_object [(''previous_status'', JString ''running'')])]\<rparr>"

lemma lone_row_simps:
  "runs lone_registry = [lone_run]" "run_events lone_registry = []" "r_run_id lone_run = ''run_1''" "r_project_id lone_run = ''p''"
  "r_status lone_run = ''running''" "r_hermes_run_id lone_run = Some ''h1''" "r_last_event_seq lone_run = 0"
  by (simp_all add: lone_registry_def lone_run_def demo_request_def empty_registry_def)

lemma status_parses: "run_status_parse ''running'' = Inr Running" "run_status_parse ''recovering'' = Inr Recovering"
  by (simp_all add: run_status_parse_def)

lemma one_active:
  assumes "runs reg = [row]" and "r_project_id row = ''p''" and "run_status_parse (r_status row) = Inr s" and "is_active s"
  shows "active_runs demo_codec ''p'' reg = [map_run demo_codec row]"
  using assms
  by (simp add: active_runs_def list_runs_def sql_limit_def load_run_def table_simps List.map_filter_def record_status_def map_run_def)

lemma map_run_simps:
  "run_id (map_run cdc r) = r_run_id r" "record_status (map_run cdc r) = run_status_parse (r_status r)"
  "hermes_run_id (map_run cdc r) = r_hermes_run_id r" "last_event_seq (map_run cdc r) = r_last_event_seq r"
  by (simp_all add: map_run_def record_status_def)

lemma lone_backend: "hermes_run_id run = Some hid \<Longrightarrow> backend_status_op lone_env run w = (Inr (Some ''running''), w)"
  by (simp add: backend_status_op_def lone_env_simps try_run_status_def hermes_json_def is_success_def demo_codec_simps
    status_of_def)

lemma lone_goes: "can_go Running Recovering" "can_go Recovering Running" "from_hermes_status ''running'' = Running"
  by (simp_all add: validate_transition_def from_hermes_status_def)

definition adopted_note :: string where
  "adopted_note = ''Hermes still reports this run as '' @ quoted ''running'' @ ''; adopted its status''"

lemma lone_decision: "reconcile_decision current (Some ''running'') k = (Running, adopted_note)"
  by (simp add: reconcile_decision_def adopted_note_def lone_goes)

lemmas pass_eval = lone_backend reconcile_run_def park_op_def map_run_simps lone_row_simps status_parses lone_goes op_bind_def op_ok_def append_op_def
  reg_op_def lone_host_simps lone_env_simps lone_decision Let_def update_status_def update_default_def

lemma first_pass:
  "reconcile_run lone_env (map_run demo_codec lone_run) \<lparr>w_reg = lone_registry, w_dir = d, w_tick = t, w_posts = [], w_spawned = []\<rparr> =
     (Inr [], \<lparr>w_reg = parked (int t), w_dir = d, w_tick = Suc t, w_posts = [], w_spawned = []\<rparr>)"
proof -
  have "append_event demo_codec (\<lambda>k. int t) ''run_1'' (journal_asterism EVENT_RECOVERING (json_object [(''previous_status'', JString ''running'')]))
      (Some (update_status Recovering)) lone_registry = Inr (Appended 1, parked (int t))"
    by (subst pass_append [of _ lone_run Running _ Recovering])
       (simp_all add: lone_row_simps status_parses lone_goes parked_def update_status_def update_default_def)
  then show ?thesis by (simp add: pass_eval)
qed

definition adopted_reg :: "int \<Rightarrow> int \<Rightarrow> Registry" where
  "adopted_reg before now =
     (parked before)\<lparr>runs := [pass_row now 2 (reconcile_update Running adopted_note) Running (hd (runs (parked before)))],
       run_events := run_events (parked before) @ [pass_event now 2 EVENT_RECONCILED (json_object
         [(''previous_status'', JString ''recovering''), (''new_status'', JString ''running''), (''reason'', JString adopted_note),
          (''backend_status'', json_of_opt (Some ''running''))])]\<rparr>"

lemma adopting_update: "u_hermes_run_id (reconcile_update Running note) = None" "u_status (reconcile_update Running note) = Some Running"
  by (simp_all add: reconcile_update_def with_recovery_note_def update_status_def update_default_def Let_def)

lemma second_pass:
  obtains outcomes where "\<And>d t. reconcile_run lone_env (map_run demo_codec (hd (runs (parked k))))
      \<lparr>w_reg = parked k, w_dir = d, w_tick = t, w_posts = [], w_spawned = []\<rparr> =
    (Inr outcomes, \<lparr>w_reg = adopted_reg k (int t), w_dir = d, w_tick = Suc t, w_posts = [], w_spawned = []\<rparr>)"
proof -
  let ?note = "adopted_note"
  have row: "runs (parked k) = [pass_row k 1 (update_status Recovering) Recovering lone_run]" by (simp add: parked_def)
  have ev: "x \<in> set (run_events (parked k)) \<Longrightarrow> e_seq x = 1" for x by (auto simp: parked_def pass_simps)
  have "append_event demo_codec (\<lambda>_. int t) ''run_1'' (journal_asterism EVENT_RECONCILED (json_object
          [(''previous_status'', JString ''recovering''), (''new_status'', JString ''running''), (''reason'', JString ?note),
           (''backend_status'', json_of_opt (Some ''running''))]))
      (Some (reconcile_update Running ?note)) (parked k) = Inr (Appended 2, adopted_reg k (int t))" for t
    by (subst pass_append [OF row, of Recovering _ Running])
       (auto simp: pass_simps lone_row_simps status_parses lone_goes adopted_reg_def row adopting_update dest: ev)
  then show thesis
    by (intro that [of "[\<lparr>rc_run_id = ''run_1'', rc_previous_status = ''recovering'', rc_new_status = ''running'', rc_note = ?note\<rparr>]"])
       (simp add: row pass_simps pass_eval)
qed

abbreviation free_dir :: Project_Dir where "free_dir \<equiv> \<lparr>lock_holder = None, active_file = None\<rparr>"

lemma pass_reconciles:
  assumes "nd_dirs n ''p'' = free_dir" and "active_runs demo_codec ''p'' (nd_reg n) = [run]"
    and "\<And>d t. reconcile_run lone_env run \<lparr>w_reg = nd_reg n, w_dir = d, w_tick = t, w_posts = [], w_spawned = []\<rparr> =
      (Inr outcomes, \<lparr>w_reg = f t, w_dir = d, w_tick = Suc t, w_posts = [], w_spawned = []\<rparr>)"
  shows "run_reconcile lone_host ''p'' n = (Inr outcomes, n\<lparr>nd_reg := f (Suc (nd_tick n)), nd_tick := Suc (Suc (nd_tick n))\<rparr>)"
proof -
  have "(nd_dirs n)(''p'' := free_dir) = nd_dirs n" using assms(1) by auto
  then show ?thesis
    by (simp add: run_reconcile_def reconcile_project_def lone_host_simps lone_env_simps assms try_lock_def
      flock_exclusive_nonblocking_def op_bind_def op_ok_def reg_read_def reg_op_def Let_def with_dir_def clear_active_run_def unlock_def release_def)
qed

lemma lone_dirs: "nd_dirs lone_node = (\<lambda>_. free_dir)" "nd_reg lone_node = lone_registry" "nd_projects lone_node = [lone_project]"
   "nd_tick lone_node = 0" "nd_workers lone_node = []"
  by (simp_all add: lone_node_def opened_def)

lemma parked_row: "runs (parked k) = [pass_row k 1 (update_status Recovering) Recovering lone_run]"
  by (simp add: parked_def)

lemma adopted_row: "runs (adopted_reg k m) = [pass_row m 2 (reconcile_update Running adopted_note) Running (hd (runs (parked k)))]"
  by (simp add: adopted_reg_def)

lemma first_reconciliation:
  "service_reconcile lone_host ''p'' lone_node = (Inr [], lone_node\<lparr>nd_reg := parked 3, nd_tick := 6\<rparr>)"
proof -
  let ?n = "lone_node\<lparr>nd_tick := Suc (Suc 0)\<rparr>"
  have "active_runs demo_codec ''p'' (nd_reg ?n) = [map_run demo_codec lone_run]"
    by (simp add: lone_dirs one_active lone_row_simps status_parses is_active_def)
  then have pass: "run_reconcile lone_host ''p'' ?n = (Inr [], lone_node\<lparr>nd_reg := parked 3, nd_tick := 4\<rparr>)"
    by (subst pass_reconciles [where run = "map_run demo_codec lone_run" and outcomes = "[]" and f = "\<lambda>t. parked (int t)"]) (simp_all add: lone_dirs first_pass reg_then_tick)
  have "active_runs demo_codec ''p'' (parked 3) = [map_run demo_codec (hd (runs (parked 3)))]"
    by (simp add: one_active parked_row pass_simps lone_row_simps status_parses is_active_def)
  then show ?thesis
    by (simp add: service_reconcile_def lone_ids lone_client sv_bind_def sv_ok_def internal_def lifted_def sv_map_err_def enter_def arrive_def
      lone_host_simps lone_env_simps lone_dirs pass [simplified] reg_look_def reg_call_def Let_def resumable_def map_run_simps parked_row pass_simps status_parses
      reg_then_tick)
qed

lemma second_reconciliation:
  "case service_reconcile lone_host ''p'' (lone_node\<lparr>nd_reg := parked 3, nd_tick := 6\<rparr>) of (_, n) \<Rightarrow>
     statuses n = [''running''] \<and> length (nd_workers n) = 1"
proof -
  let ?n = "lone_node\<lparr>nd_tick := 8, nd_reg := parked 3\<rparr>"
  obtain outcomes where second: "\<And>d t. reconcile_run lone_env (map_run demo_codec (hd (runs (parked 3))))
        \<lparr>w_reg = parked 3, w_dir = d, w_tick = t, w_posts = [], w_spawned = []\<rparr> =
     (Inr outcomes, \<lparr>w_reg = adopted_reg 3 (int t), w_dir = d, w_tick = Suc t, w_posts = [], w_spawned = []\<rparr>)" using second_pass [of 3] by blast
  have "active_runs demo_codec ''p'' (parked 3) = [map_run demo_codec (hd (runs (parked 3)))]"
    by (simp add: one_active parked_row pass_simps lone_row_simps status_parses is_active_def)
  then have pass: "run_reconcile lone_host ''p'' ?n = (Inr outcomes, lone_node\<lparr>nd_reg := adopted_reg 3 9, nd_tick := 10\<rparr>)"
    by (subst pass_reconciles [where run = "map_run demo_codec (hd (runs (parked 3)))" and outcomes = outcomes and f = "\<lambda>t. adopted_reg 3 (int t)"]) (simp_all add: lone_dirs second reg_then_tick)
  have "active_runs demo_codec ''p'' (adopted_reg 3 9) = [map_run demo_codec (hd (runs (adopted_reg 3 9)))]"
    by (simp add: one_active adopted_row parked_row pass_simps lone_row_simps status_parses is_active_def)
  then show ?thesis
    by (simp add: service_reconcile_def lone_ids lone_client sv_bind_def sv_ok_def internal_def lifted_def sv_map_err_def enter_def arrive_def
      lone_host_simps lone_env_simps lone_dirs pass reg_look_def reg_call_def Let_def resumable_def map_run_simps adopted_row adopting_update parked_row pass_simps status_parses
      lone_row_simps reg_then_tick supervise_def lone_runtime is_supervised_def lone_watched update_status_def update_default_def)
qed

definition lone_new :: NewRun where
  "lone_new = \<lparr>n_project_id = ''q'', n_session_id = None, n_idempotency_key = None, n_runtime_kind = detect_runtime_kind lone_host ''q'' lone_node,
     n_provider = None, n_model = None, n_request_payload = create_payload lone_request, n_retry_of_run_id = None\<rparr>"

lemma lone_kind: "detect_runtime_kind lone_host ''q'' (lone_node\<lparr>nd_tick := t\<rparr>) = detect_runtime_kind lone_host ''q'' lone_node"
  by (simp add: detect_runtime_kind_def)

lemma lone_no_project: "project_of lone_host ''q'' (lone_node\<lparr>nd_tick := t\<rparr>) = (Inr None, lone_node\<lparr>nd_tick := t\<rparr>)"
  by (simp add: project_of_def sv_see_def Inventory.project_def lone_node_def opened_def lone_project_def table_simps)

lemma lone_guard: "credential_run_guard lone_host ''q'' None (lone_node\<lparr>nd_tick := t\<rparr>) = (Inr (), lone_node\<lparr>nd_tick := t\<rparr>)"
  by (simp add: credential_run_guard_def sv_bind_def sv_see_def lone_no_project) (simp add: lone_node_def opened_def)

lemma lone_simps:
  "nd_reg lone_node = lone_registry" "nd_tick lone_node = 0" "nd_draining lone_node = False" "nd_projects lone_node = [lone_project]"
  "nd_changing lone_node = []" "nd_workers lone_node = []" "runs lone_registry = [lone_run]" "r_run_id lone_run = ''run_1''"
  "n_project_id lone_new = ''q''" "n_idempotency_key lone_new = None" "n_retry_of_run_id lone_new = None"
  "cn_session_id lone_request = None" "cn_idempotency_key lone_request = None" "cn_approval_policy lone_request = None"
  "cn_input lone_request = ''hi''"
  by (simp_all add: lone_node_def opened_def lone_registry_def lone_run_def lone_new_def lone_request_def)

lemma lone_insert:
  "insert_run lone_host lone_new (lone_node\<lparr>nd_tick := 3\<rparr>) =
     (Inr (NewlyCreated (map_run demo_codec (new_row demo_codec 3 ''run_new'' lone_new))),
      lone_node\<lparr>nd_reg := lone_registry\<lparr>runs := [lone_run, new_row demo_codec 3 ''run_new'' lone_new]\<rparr>, nd_tick := 4\<rparr>)"
  by (simp add: insert_run_def lifted_def sv_map_err_def reg_call_def lone_host_simps lone_env_simps lone_simps
     create_run_def find_idempotent_def table_simps reg_then_tick Let_def)

lemma lone_arrive: "arrive lone_host n = n\<lparr>nd_tick := Suc (nd_tick n)\<rparr>"
  by (simp add: arrive_def lone_host_simps)

lemma lone_created:
  "service_create_run lone_host ''q'' lone_request lone_node =
     (Inr \<lparr>rn_run = map_run demo_codec (new_row demo_codec 3 ''run_new'' lone_new), rn_idempotent_replay = False\<rparr>,
      lone_node\<lparr>nd_reg := lone_registry\<lparr>runs := [lone_run, new_row demo_codec 3 ''run_new'' lone_new]\<rparr>, nd_tick := 5\<rparr>)"
proof -
  have request: "\<lparr>n_project_id = ''q'', n_session_id = None, n_idempotency_key = None, n_runtime_kind = detect_runtime_kind lone_host ''q'' lone_node,
     n_provider = None, n_model = None, n_request_payload = create_payload lone_request, n_retry_of_run_id = None\<rparr> = lone_new"
    by (simp add: lone_new_def)
  have three: "Suc (Suc (Suc 0)) = 3" by simp
  show ?thesis
    by (simp add: service_create_run_def lone_ids lone_input sv_bind_def sv_ok_def sv_see_def refuse_draining_def enter_def lone_arrive lone_simps lone_kind
       credential_usable_for_run_def lone_no_project admit_run_def lone_guard request three lone_insert supervise_def start_trusted_def lone_runtime reg_then_tick Let_def)
qed

lemma lone_creates:
  "case service_create_run lone_host ''q'' lone_request lone_node of (r, n) \<Rightarrow>
      map_sum id (\<lambda>c. run_id (rn_run c)) r = Inr ''run_new'' \<and> nd_workers n = [] \<and> statuses n = [''running'', ''created''] \<and>
      (case service_cancel_run lone_host ''q'' ''run_new'' n of (c, n1) \<Rightarrow>
         map_sum service_code id c = Inl ''project_not_registered'' \<and> statuses n1 = [''running'', ''created'']) \<and>
      (case service_reconcile lone_host ''q'' n of (c, n1) \<Rightarrow>
         map_sum service_code id c = Inl ''project_not_registered'' \<and> statuses n1 = [''running'', ''created'']) \<and>
      fst (begin_credential_change lone_host ''q'' n) = Inl ''project_runs_active''"
proof -
  let ?n = "lone_node\<lparr>nd_reg := lone_registry\<lparr>runs := [lone_run, new_row demo_codec 3 ''run_new'' lone_new]\<rparr>, nd_tick := 5\<rparr>"
  have live: "active_runs demo_codec ''q'' (nd_reg ?n) \<noteq> []"
    by (simp add: active_runs_def list_runs_def sql_limit_def lone_simps lone_run_def demo_request_def load_run_def table_simps
      List.map_filter_def record_status_def map_run_def run_status_parse_def is_active_def)
  have status: "r_status lone_run = ''running''" by (simp add: lone_run_def)
  have "fst (begin_credential_change lone_host ''q'' ?n) = Inl ''project_runs_active''"
    using live by (simp add: begin_credential_change_def begin_section_def enter_def lone_arrive sv_bind_def sv_map_err_def reg_look_def
      reg_call_def lone_host_simps lone_env_simps lone_simps Let_def)
  then show ?thesis
    unfolding lone_created
    by (simp add: service_cancel_run_def service_reconcile_def lone_client lone_ids sv_bind_def sv_ok_def lone_simps status)
qed


end
